(* ===== verification/RV_Prelude.thy ===== *)
theory RV_Prelude
  imports Main "HOL-Library.Word" "HOL-Library.Signed_Division"
begin

unbundle bit_operations_syntax

text \<open>
  The vocabulary every component shares: the machine integers of the simulator, the ways
  its C++ can stop short of a result (a failed \<open>assert\<close>, undefined behaviour, a thrown
  exception) as an error type, sequencing of computations that may fail, the C++ primitives
  whose undefined behaviour matters here (shifts, \<open>std::array\<close> and buffer accesses) and
  little-endian byte sequences. Two collections of facts drive the automation of the
  components: \<open>field_simps_rv\<close> holds the facts on instruction fields, and \<open>errE\<close> the
  eliminations for successful runs.
\<close>

section \<open>Machine integers and errors\<close>

type_synonym u8 = "8 word"
type_synonym u16 = "16 word"
type_synonym u32 = "32 word"
type_synonym u64 = "64 word"

named_theorems field_simps_rv
named_theorems errE

text \<open>
  The kinds of undefined behaviour the simulator's code can run into, and the three ways it
  stops: a failed assertion (Debug builds only), undefined behaviour, and
  \<open>hlp::TraceableException\<close>.
\<close>

datatype ub = ShiftTooLarge | SignedOverflow | DivisionByZero | OutOfBounds | NullPointer

datatype error =
    AssertFailed string
  | UndefinedBehaviour ub
  | TraceableException string

text \<open>
  The build: CMake compiles the Release configuration with \<open>-DNDEBUG\<close>, which turns every
  \<open>assert\<close> into nothing; Debug keeps them.
\<close>

record config =
  ndebug :: bool

section \<open>Sequencing of computations that may fail\<close>

definition and_then :: "'e + 'a \<Rightarrow> ('a \<Rightarrow> 'e + 'b) \<Rightarrow> 'e + 'b" where
  "and_then m f = (case m of Inl e \<Rightarrow> Inl e | Inr x \<Rightarrow> f x)"

lemma and_then_Inl [simp]: "and_then (Inl e) f = Inl e"
  by (simp add: and_then_def)

lemma and_then_Inr [simp]: "and_then (Inr x) f = f x"
  by (simp add: and_then_def)

lemma and_then_assoc: "and_then (and_then m f) g = and_then m (\<lambda>x. and_then (f x) g)"
  by (cases m) simp_all

lemma and_then_eq_Inr: "and_then m f = Inr y \<longleftrightarrow> (\<exists>x. m = Inr x \<and> f x = Inr y)"
  by (cases m) simp_all

lemma and_then_eq_Inl:
  "and_then m f = Inl e \<longleftrightarrow> m = Inl e \<or> (\<exists>x. m = Inr x \<and> f x = Inl e)"
  by (cases m) simp_all

lemma and_then_InrE [errE]:
  assumes "and_then m f = Inr y"
  obtains x where "m = Inr x" "f x = Inr y"
  using assms by (auto simp: and_then_eq_Inr)

lemma and_then_cong [fundef_cong]:
  "m = m' \<Longrightarrow> (\<And>x. m' = Inr x \<Longrightarrow> f x = f' x) \<Longrightarrow> and_then m f = and_then m' f'"
  by (cases m') simp_all

definition cassert :: "'z config_scheme \<Rightarrow> string \<Rightarrow> bool \<Rightarrow> error + unit" where
  "cassert c what b = (if b \<or> ndebug c then Inr () else Inl (AssertFailed what))"

lemma cassert_True [simp]: "cassert c what True = Inr ()"
  by (simp add: cassert_def)

lemma cassert_debug [simp]: "\<not> ndebug c \<Longrightarrow> cassert c what b = (if b then Inr () else Inl (AssertFailed what))"
  by (simp add: cassert_def)

lemma cassert_release [simp]: "ndebug c \<Longrightarrow> cassert c what b = Inr ()"
  by (simp add: cassert_def)

section \<open>C++ primitives with undefined behaviour\<close>

definition ub :: "ub \<Rightarrow> error + 'a" where
  "ub u = Inl (UndefinedBehaviour u)"

lemma ub_not_Inr [simp]: "ub u \<noteq> Inr x"
  by (simp add: ub_def)

text \<open>A shift by the width of the (promoted) left operand or more is undefined.\<close>

definition shl :: "'a::len word \<Rightarrow> nat \<Rightarrow> error + 'a word" where
  "shl x n = (if n < LENGTH('a) then Inr (push_bit n x) else ub ShiftTooLarge)"

definition shr :: "'a::len word \<Rightarrow> nat \<Rightarrow> error + 'a word" where
  "shr x n = (if n < LENGTH('a) then Inr (drop_bit n x) else ub ShiftTooLarge)"

lemma shl_ok [simp]: "n < LENGTH('a) \<Longrightarrow> shl (x :: 'a::len word) n = Inr (push_bit n x)"
  by (simp add: shl_def)

lemma shr_ok [simp]: "n < LENGTH('a) \<Longrightarrow> shr (x :: 'a::len word) n = Inr (drop_bit n x)"
  by (simp add: shr_def)

text \<open>\<open>std::array::operator[]\<close>, and \<open>memcpy\<close> out of and into a buffer.\<close>

definition array_get :: "'a list \<Rightarrow> nat \<Rightarrow> error + 'a" where
  "array_get xs i = (if i < length xs then Inr (xs ! i) else ub OutOfBounds)"

definition array_set :: "'a list \<Rightarrow> nat \<Rightarrow> 'a \<Rightarrow> error + 'a list" where
  "array_set xs i v = (if i < length xs then Inr (xs[i := v]) else ub OutOfBounds)"

definition memcpy_from :: "'a list \<Rightarrow> nat \<Rightarrow> nat \<Rightarrow> error + 'a list" where
  "memcpy_from buf off n =
     (if off + n \<le> length buf then Inr (take n (drop off buf)) else ub OutOfBounds)"

definition memcpy_to :: "'a list \<Rightarrow> nat \<Rightarrow> 'a list \<Rightarrow> error + 'a list" where
  "memcpy_to buf off bs =
     (if off + length bs \<le> length buf
      then Inr (take off buf @ bs @ drop (off + length bs) buf) else ub OutOfBounds)"

lemma array_get_ok [simp]: "i < length xs \<Longrightarrow> array_get xs i = Inr (xs ! i)"
  by (simp add: array_get_def)

lemma array_set_ok [simp]: "i < length xs \<Longrightarrow> array_set xs i v = Inr (xs[i := v])"
  by (simp add: array_set_def)

lemma array_get_InrD: "array_get xs i = Inr v \<Longrightarrow> i < length xs \<and> v = xs ! i"
  by (auto simp: array_get_def split: if_splits)

lemma array_set_InrD: "array_set xs i v = Inr ys \<Longrightarrow> i < length xs \<and> ys = xs[i := v]"
  by (auto simp: array_set_def split: if_splits)

lemma memcpy_to_length: "memcpy_to buf off bs = Inr buf' \<Longrightarrow> length buf' = length buf"
  by (auto simp: memcpy_to_def split: if_splits)

lemma memcpy_to_nth:
  assumes "memcpy_to buf off bs = Inr buf'" "i < length buf"
  shows "buf' ! i = (if off \<le> i \<and> i < off + length bs then bs ! (i - off) else buf ! i)"
  using assms by (auto simp: memcpy_to_def nth_append split: if_splits)

section \<open>Little-endian bytes\<close>

text \<open>
  The simulator moves guest words in and out of byte buffers with \<open>memcpy\<close>, so the byte
  order is the host's: little-endian on the x86-64 hosts it is built for (the SoftFloat build
  in \<open>third_party/CMakeLists.txt\<close> is \<open>Linux-x86_64-GCC\<close>).
\<close>

fun le_bytes :: "nat \<Rightarrow> 'a::len word \<Rightarrow> u8 list" where
  "le_bytes 0 w = []"
| "le_bytes (Suc n) w = ucast w # le_bytes n (drop_bit 8 w)"

fun le_word :: "u8 list \<Rightarrow> 'a::len word" where
  "le_word [] = 0"
| "le_word (b # bs) = ucast b OR push_bit 8 (le_word bs)"

lemma length_le_bytes [simp]: "length (le_bytes n w) = n"
  by (induction n arbitrary: w) auto

lemma bit_le_word:
  "bit (le_word bs :: 'a::len word) i \<longleftrightarrow>
     i < LENGTH('a) \<and> i < 8 * length bs \<and> bit (bs ! (i div 8)) (i mod 8)"
proof (induction bs arbitrary: i)
  case Nil
  then show ?case by simp
next
  case (Cons b bs)
  show ?case
  proof (cases "i < 8")
    case True
    then show ?thesis by (auto simp: bit_or_iff bit_push_bit_iff bit_ucast_iff)
  next
    case False
    then obtain j where j: "i = j + 8"
      by (metis add.commute le_Suc_ex not_less)
    have "\<not> bit b i" using False bit_imp_le_length [of b i] by auto
    moreover have "(j + 8) div 8 = Suc (j div 8)" by simp
    ultimately show ?thesis using Cons.IH [of j] j
      by (auto simp: bit_or_iff bit_push_bit_iff bit_ucast_iff)
  qed
qed

lemma nth_le_bytes:
  "i < n \<Longrightarrow> le_bytes n w ! i = ucast (drop_bit (8 * i) w)"
proof (induction n arbitrary: w i)
  case 0
  then show ?case by simp
next
  case (Suc n)
  show ?case
  proof (cases i)
    case 0
    then show ?thesis by simp
  next
    case (Suc j)
    with Suc.prems have "j < n" by simp
    then show ?thesis using Suc Suc.IH [of j "drop_bit 8 w"]
      by (simp add: drop_bit_drop_bit add.commute)
  qed
qed

lemma le_word_le_bytes: "le_word (le_bytes n w) = take_bit (8 * n) (w :: 'a::len word)"
proof (rule bit_word_eqI)
  fix i
  assume "i < LENGTH('a)"
  have "8 * (i div 8) + i mod 8 = i" by simp
  then show "bit (le_word (le_bytes n w) :: 'a word) i = bit (take_bit (8 * n) w) i"
    using \<open>i < LENGTH('a)\<close>
    by (auto simp: bit_le_word bit_take_bit_iff nth_le_bytes bit_ucast_iff bit_drop_bit_eq
        less_mult_imp_div_less mult.commute)
qed

lemma le_word_le_bytes_full [simp]:
  "LENGTH('a) \<le> 8 * n \<Longrightarrow> le_word (le_bytes n w) = (w :: 'a::len word)"
  by (simp add: le_word_le_bytes take_bit_word_eq_self)

lemma le_bytes_le_word:
  assumes "8 * length bs \<le> LENGTH('a)"
  shows "le_bytes (length bs) (le_word bs :: 'a::len word) = bs"
proof (rule nth_equalityI)
  show "length (le_bytes (length bs) (le_word bs :: 'a word)) = length bs" by simp
next
  fix i
  assume "i < length (le_bytes (length bs) (le_word bs :: 'a word))"
  then have i: "i < length bs" by simp
  show "le_bytes (length bs) (le_word bs :: 'a word) ! i = bs ! i"
  proof (rule bit_word_eqI)
    fix j :: nat
    assume j: "j < LENGTH(8)"
    have "8 * i + j < 8 * length bs" using i j by simp
    then show "bit (le_bytes (length bs) (le_word bs :: 'a word) ! i) j = bit (bs ! i) j"
      using i j assms
      by (simp add: nth_le_bytes bit_ucast_iff bit_drop_bit_eq bit_le_word)
  qed
qed

section \<open>Facts on lists and words\<close>

lemma word_and_mask_less:
  "m = mask n \<Longrightarrow> n < LENGTH('a) \<Longrightarrow> unat ((x :: 'a::len word) AND m) < 2 ^ n"
  by (simp add: take_bit_eq_mask [symmetric] unsigned_take_bit_eq)

lemma and_push_bit_1:
  assumes "n < LENGTH('a)"
  shows "(x :: 'a::len word) AND push_bit n 1 = (if bit x n then push_bit n 1 else 0)"
  using assms by (intro bit_word_eqI) (auto simp: bit_simps)

lemma push_bit_1_neq_0: "n < LENGTH('a) \<Longrightarrow> push_bit n (1 :: 'a::len word) \<noteq> 0"
  by (simp add: push_bit_of_1)

lemma bit_word_outside: "LENGTH('a) \<le> n \<Longrightarrow> \<not> bit (x :: 'a::len word) n"
  by (meson bit_imp_le_length not_le)

lemma unat_of_nat_small [simp]: "x < 2 ^ LENGTH('a) \<Longrightarrow> unat (of_nat x :: 'a::len word) = x"
  by (simp add: unat_of_nat)

lemma even_word_bit0: "even (w :: 'a::len word) \<longleftrightarrow> \<not> bit w 0"
  by (simp add: bit_0)

end
