(* ===== verification/RV_Defs.thy ===== *)
theory RV_Defs
  imports RV_Prelude
begin

text \<open>
  The constants and enumerations of \<open>isa/isa_defs.hpp\<close>, the enum conversions of
  \<open>helpers/common.hpp\<close> and the bit helpers of \<open>isa/isa_hlp.hpp\<close>. \<open>FRegister\<close> is SoftFloat's
  \<open>float32_t\<close>, a struct around a \<open>uint32_t v\<close>, so it is its 32 bits here and the
  \<open>bit_cast\<close>s are identities.
\<close>

section \<open>isa\_defs.hpp\<close>

definition kXlenByte :: nat where "kXlenByte = 4"
definition kXlen :: nat where "kXlen = kXlenByte * 8"
definition kFlenByte :: nat where "kFlenByte = 4"
definition kFlen :: nat where "kFlen = kFlenByte * 8"
definition kStepSize :: u32 where "kStepSize = 4"
definition kNumXRegisters :: nat where "kNumXRegisters = 32"
definition kNumFRegisters :: nat where "kNumFRegisters = 32"
definition kStackSize :: nat where "kStackSize = 2 ^ 20"
definition kStackTop :: u32 where "kStackTop = push_bit 30 1"
definition kStackBase :: u32 where "kStackBase = kStackTop - of_nat kStackSize"
definition kArgvBase :: u32 where "kArgvBase = kStackTop + 4"

lemma kXlen_eq [simp]: "kXlen = 32" by (simp add: kXlen_def kXlenByte_def)

text \<open>
  The register aliases carry the enumerators of the source; \<open>fp\<close> and \<open>s0\<close> name the same
  register. The prefix keeps names such as \<open>zero\<close> apart from HOL's.
\<close>

datatype XRegAlias =
    X_zero | X_ra | X_sp | X_gp | X_tp | X_t0 | X_t1 | X_t2 | X_fp | X_s0 | X_s1
  | X_a0 | X_a1 | X_a2 | X_a3 | X_a4 | X_a5 | X_a6 | X_a7
  | X_s2 | X_s3 | X_s4 | X_s5 | X_s6 | X_s7 | X_s8 | X_s9 | X_s10 | X_s11
  | X_t3 | X_t4 | X_t5 | X_t6

fun XReg_FromEnum :: "XRegAlias \<Rightarrow> nat" where
  "XReg_FromEnum X_zero = 0" | "XReg_FromEnum X_ra = 1" | "XReg_FromEnum X_sp = 2"
| "XReg_FromEnum X_gp = 3" | "XReg_FromEnum X_tp = 4" | "XReg_FromEnum X_t0 = 5"
| "XReg_FromEnum X_t1 = 6" | "XReg_FromEnum X_t2 = 7" | "XReg_FromEnum X_fp = 8"
| "XReg_FromEnum X_s0 = 8" | "XReg_FromEnum X_s1 = 9" | "XReg_FromEnum X_a0 = 10"
| "XReg_FromEnum X_a1 = 11" | "XReg_FromEnum X_a2 = 12" | "XReg_FromEnum X_a3 = 13"
| "XReg_FromEnum X_a4 = 14" | "XReg_FromEnum X_a5 = 15" | "XReg_FromEnum X_a6 = 16"
| "XReg_FromEnum X_a7 = 17" | "XReg_FromEnum X_s2 = 18" | "XReg_FromEnum X_s3 = 19"
| "XReg_FromEnum X_s4 = 20" | "XReg_FromEnum X_s5 = 21" | "XReg_FromEnum X_s6 = 22"
| "XReg_FromEnum X_s7 = 23" | "XReg_FromEnum X_s8 = 24" | "XReg_FromEnum X_s9 = 25"
| "XReg_FromEnum X_s10 = 26" | "XReg_FromEnum X_s11 = 27" | "XReg_FromEnum X_t3 = 28"
| "XReg_FromEnum X_t4 = 29" | "XReg_FromEnum X_t5 = 30" | "XReg_FromEnum X_t6 = 31"

lemma XReg_FromEnum_less [simp]: "XReg_FromEnum r < 32"
  by (cases r) simp_all

text \<open>The floating-point aliases; unlike the integer ones they name every register once.\<close>

datatype FRegAlias =
    F_ft0 | F_ft1 | F_ft2 | F_ft3 | F_ft4 | F_ft5 | F_ft6 | F_ft7 | F_fs0 | F_fs1 | F_fa0 | F_fa1
  | F_fa2 | F_fa3 | F_fa4 | F_fa5 | F_fa6 | F_fa7 | F_fs2 | F_fs3 | F_fs4 | F_fs5 | F_fs6 | F_fs7
  | F_fs8 | F_fs9 | F_fs10 | F_fs11 | F_ft8 | F_ft9 | F_ft10 | F_ft11

fun FReg_FromEnum :: "FRegAlias \<Rightarrow> nat" where
  "FReg_FromEnum F_ft0 = 0" | "FReg_FromEnum F_ft1 = 1" | "FReg_FromEnum F_ft2 = 2"
| "FReg_FromEnum F_ft3 = 3" | "FReg_FromEnum F_ft4 = 4" | "FReg_FromEnum F_ft5 = 5"
| "FReg_FromEnum F_ft6 = 6" | "FReg_FromEnum F_ft7 = 7" | "FReg_FromEnum F_fs0 = 8"
| "FReg_FromEnum F_fs1 = 9" | "FReg_FromEnum F_fa0 = 10" | "FReg_FromEnum F_fa1 = 11"
| "FReg_FromEnum F_fa2 = 12" | "FReg_FromEnum F_fa3 = 13" | "FReg_FromEnum F_fa4 = 14"
| "FReg_FromEnum F_fa5 = 15" | "FReg_FromEnum F_fa6 = 16" | "FReg_FromEnum F_fa7 = 17"
| "FReg_FromEnum F_fs2 = 18" | "FReg_FromEnum F_fs3 = 19" | "FReg_FromEnum F_fs4 = 20"
| "FReg_FromEnum F_fs5 = 21" | "FReg_FromEnum F_fs6 = 22" | "FReg_FromEnum F_fs7 = 23"
| "FReg_FromEnum F_fs8 = 24" | "FReg_FromEnum F_fs9 = 25" | "FReg_FromEnum F_fs10 = 26"
| "FReg_FromEnum F_fs11 = 27" | "FReg_FromEnum F_ft8 = 28" | "FReg_FromEnum F_ft9 = 29"
| "FReg_FromEnum F_ft10 = 30" | "FReg_FromEnum F_ft11 = 31"

lemma FReg_FromEnum_less [simp]: "FReg_FromEnum r < 32"
  by (cases r) simp_all

text \<open>
  \<open>hlp::ToEnum\<close> is a \<open>static_cast\<close>, so a value of \<open>RoundingMode\<close> may be none of the
  enumerators: the last constructor holds such a value. \<open>CSR\<close> is the same; the CSR indices
  the code does not name are the \<open>None\<close> of \<open>CSR_ToEnum\<close>.
\<close>

datatype RoundingMode = RNE | RTZ | RDN | RUP | RMM | DYN | RM_unnamed u32

definition RM_ToEnum :: "u32 \<Rightarrow> RoundingMode" where
  "RM_ToEnum v =
     (if v = 0 then RNE else if v = 1 then RTZ else if v = 2 then RDN
      else if v = 3 then RUP else if v = 4 then RMM else if v = 7 then DYN else RM_unnamed v)"

datatype CSR = fflags | frm | fcsr_csr

fun CSR_FromEnum :: "CSR \<Rightarrow> nat" where
  "CSR_FromEnum fflags = 1"
| "CSR_FromEnum frm = 2"
| "CSR_FromEnum fcsr_csr = 3"

definition CSR_ToEnum :: "nat \<Rightarrow> CSR option" where
  "CSR_ToEnum index =
     (if index = 1 then Some fflags else if index = 2 then Some frm
      else if index = 3 then Some fcsr_csr else None)"

lemma CSR_ToEnum_FromEnum [simp]: "CSR_ToEnum (CSR_FromEnum r) = Some r"
  by (cases r) (simp_all add: CSR_ToEnum_def)

lemma CSR_FromEnum_ToEnum: "CSR_ToEnum i = Some r \<Longrightarrow> CSR_FromEnum r = i"
  by (auto simp: CSR_ToEnum_def split: if_splits)

section \<open>isa\_hlp.hpp\<close>

text \<open>\<open>RegToIReg\<close> reinterprets the bits as two's complement: the signed reading is \<open>sint\<close>.\<close>

definition RegToIReg :: "u32 \<Rightarrow> int" where
  "RegToIReg v = sint v"

definition IRegToReg :: "int \<Rightarrow> u32" where
  "IRegToReg i = word_of_int i"

lemma IRegToReg_RegToIReg [simp]: "IRegToReg (RegToIReg v) = v"
  by (simp add: IRegToReg_def RegToIReg_def)

text \<open>
  The same for 64 bits. A floating-point register is the bits of a \<open>float32_t\<close>, so the casts
  between it and an integer register keep the word.
\<close>

definition WRegToWIReg :: "u64 \<Rightarrow> int" where
  [simp]: "WRegToWIReg v = sint v"

definition WIRegToWReg :: "int \<Rightarrow> u64" where
  [simp]: "WIRegToWReg i = word_of_int i"

definition RegToFReg :: "u32 \<Rightarrow> u32" where
  [simp]: "RegToFReg v = v"

definition FRegToReg :: "u32 \<Rightarrow> u32" where
  [simp]: "FRegToReg v = v"

definition IsBitSet :: "'z config_scheme \<Rightarrow> 'a::len word \<Rightarrow> nat \<Rightarrow> error + bool" where
  "IsBitSet c val index =
     and_then (cassert c ''index < sizeof(T) * CHAR_BIT'' (index < LENGTH('a))) (\<lambda>_.
     and_then (shl 1 index) (\<lambda>one_hot.
     Inr ((val AND one_hot) = one_hot)))"

lemma IsBitSet_ok [simp]:
  assumes "index < LENGTH('a)"
  shows "IsBitSet c (val :: 'a::len word) index = Inr (bit val index)"
  using assms push_bit_1_neq_0 [OF assms]
  by (simp add: IsBitSet_def and_push_bit_1 del: push_bit_of_1)

text \<open>
  The template arguments \<open>ToT\<close> and \<open>FromT\<close> are the word types; \<open>to_max\<close> is the mask
  of the target's width.
\<close>

definition TruncHigh :: "'a::len word \<Rightarrow> 'b::len word" where
  "TruncHigh x = ucast (x AND mask (LENGTH('b)))"

definition TruncLow :: "'a::len word \<Rightarrow> 'b::len word" where
  "TruncLow x = ucast (drop_bit (LENGTH('a) - LENGTH('b)) x AND mask (LENGTH('b)))"

lemma TruncHigh_ucast: "(TruncHigh (x :: 'a::len word) :: 'b::len word) = ucast x"
  by (rule bit_word_eqI) (auto simp: TruncHigh_def bit_simps bit_word_outside dest: bit_imp_le_length)

lemma TruncLow_drop_bit:
  "LENGTH('b) \<le> LENGTH('a) \<Longrightarrow>
    (TruncLow (x :: 'a::len word) :: 'b::len word) = ucast (drop_bit (LENGTH('a) - LENGTH('b)) x)"
  by (rule bit_word_eqI) (auto simp: TruncLow_def bit_simps)

definition GetByte :: "'z config_scheme \<Rightarrow> 'a::len word \<Rightarrow> nat \<Rightarrow> error + u8" where
  "GetByte c val index =
     and_then (cassert c ''index < sizeof(T)'' (index < LENGTH('a) div 8)) (\<lambda>_.
     let shift = index * 8 in
     and_then (shr val shift) (\<lambda>v. Inr (TruncHigh v)))"

text \<open>
  \<open>SetByte\<close> as instantiated by its callers, on a 32-bit value. Both operands of the shifts
  are promoted to \<open>int\<close>, so \<open>clear_byte_mask\<close> is \<open>NOT (-1 << shift)\<close>: the ones below the
  byte, and zeros from the byte upwards (the comment in the source draws ones above it too).
\<close>

definition SetByte :: "'z config_scheme \<Rightarrow> u32 \<Rightarrow> u8 \<Rightarrow> nat \<Rightarrow> error + u32" where
  "SetByte c val byte_val index =
     and_then (cassert c ''index < sizeof(T)'' (index < 4)) (\<lambda>_.
     let shift = index * 8 in
     and_then (shl (NOT 0 :: u32) shift) (\<lambda>ones.
     let clear_byte_mask = NOT ones in
     and_then (shl (ucast byte_val :: u32) shift) (\<lambda>byte_mask.
     Inr ((val AND clear_byte_mask) OR byte_mask))))"

definition SignExt :: "'a::len word \<Rightarrow> 'b::len word" where
  "SignExt x =
     (let one = (1 :: 'b word);
          value_mask = push_bit (LENGTH('a)) one - one;
          sign_bit = push_bit (LENGTH('a) - 1) one;
          extend_mask = NOT value_mask;
          v = ucast x AND value_mask
      in if v AND sign_bit \<noteq> 0 then v OR extend_mask else v)"

lemma SignExt_scast:
  assumes "LENGTH('a) < LENGTH('b)"
  shows "(SignExt (x :: 'a::len word) :: 'b::len word) = scast x"
proof -
  have m: "push_bit (LENGTH('a)) (1 :: 'b word) - 1 = mask (LENGTH('a))"
    by (simp add: mask_eq_exp_minus_1 push_bit_eq_mult)
  have v: "ucast x AND mask (LENGTH('a)) = (ucast x :: 'b word)"
    by (rule bit_word_eqI) (auto simp: bit_simps dest: bit_imp_le_length)
  have l: "LENGTH('a) - 1 < LENGTH('b)" using assms by simp
  have s: "(ucast x AND push_bit (LENGTH('a) - 1) 1 :: 'b word) \<noteq> 0 \<longleftrightarrow> bit x (LENGTH('a) - 1)"
    using assms push_bit_1_neq_0 [OF l]
    by (subst and_push_bit_1 [OF l]) (simp add: bit_ucast_iff)
  have e: "(if bit x (LENGTH('a) - 1) then (ucast x :: 'b word) OR NOT (mask (LENGTH('a)))
      else ucast x) = scast x"
  proof (rule bit_word_eqI)
    fix n assume n: "n < LENGTH('b)"
    show "bit (if bit x (LENGTH('a) - 1) then (ucast x :: 'b word) OR NOT (mask (LENGTH('a)))
        else ucast x) n = bit (scast x :: 'b word) n"
    proof (cases "n < LENGTH('a)")
      case True
      then have "min (LENGTH('a) - 1) n = n" by simp
      then show ?thesis using n True by (simp add: bit_simps)
    next
      case False
      then have "min (LENGTH('a) - 1) n = LENGTH('a) - 1" by simp
      then show ?thesis using n False by (simp add: bit_simps bit_word_outside)
    qed
  qed
  show ?thesis
    unfolding SignExt_def Let_def m v s by (rule e)
qed

end
