(* ===== verification/RV_Byte_Store.thy ===== *)
theory RV_Byte_Store
  imports RV_Prelude
begin

text \<open>
  The interface between guest memory and the code that moves blocks of bytes in and out of it
  (the two copy operations behind the system calls): single-byte accesses and the laws they
  obey. The block transfers are proved correct once, from these laws alone.
\<close>

section \<open>Block transfers over single-byte accesses\<close>

fun read_range :: "('m \<Rightarrow> u32 \<Rightarrow> 'e + u8) \<Rightarrow> 'm \<Rightarrow> u32 \<Rightarrow> nat \<Rightarrow> 'e + u8 list" where
  "read_range ld m a 0 = Inr []"
| "read_range ld m a (Suc n) =
     and_then (ld m a) (\<lambda>b. and_then (read_range ld m (a + 1) n) (\<lambda>bs. Inr (b # bs)))"

fun write_range :: "('m \<Rightarrow> u32 \<Rightarrow> u8 \<Rightarrow> 'e + 'm) \<Rightarrow> 'm \<Rightarrow> u32 \<Rightarrow> u8 list \<Rightarrow> 'e + 'm" where
  "write_range st m a [] = Inr m"
| "write_range st m a (b # bs) = and_then (st m a b) (\<lambda>m'. write_range st m' (a + 1) bs)"

lemma read_range_length: "read_range ld m a n = Inr bs \<Longrightarrow> length bs = n"
  by (induction n arbitrary: a bs) (auto simp: and_then_eq_Inr)

lemma read_range_nth:
  "read_range ld m a n = Inr bs \<Longrightarrow> i < n \<Longrightarrow> ld m (a + of_nat i) = Inr (bs ! i)"
proof (induction n arbitrary: a bs i)
  case 0
  then show ?case by simp
next
  case (Suc n)
  then obtain b bs' where "ld m a = Inr b" "read_range ld m (a + 1) n = Inr bs'" "bs = b # bs'"
    by (auto elim!: errE)
  then show ?case using Suc.IH [of "a + 1" bs' "i - 1"] Suc.prems(2)
    by (cases i) (simp_all add: add.assoc)
qed

lemma read_range_cong:
  "(\<And>i. i < n \<Longrightarrow> ld m (a + of_nat i) = ld m' (a + of_nat i)) \<Longrightarrow>
     read_range ld m a n = read_range ld m' a n"
proof (induction n arbitrary: a)
  case 0
  then show ?case by simp
next
  case (Suc n)
  have "ld m a = ld m' a" using Suc.prems [of 0] by simp
  moreover have "read_range ld m (a + 1) n = read_range ld m' (a + 1) n"
    using Suc.prems [of "Suc i" for i] by (intro Suc.IH) (simp add: add.assoc)
  ultimately show ?case by simp
qed

section \<open>The laws of byte-addressed memory\<close>

locale byte_memory =
  fixes ld :: "'m \<Rightarrow> u32 \<Rightarrow> 'e + u8"
    and st :: "'m \<Rightarrow> u32 \<Rightarrow> u8 \<Rightarrow> 'e + 'm"
    and mapped :: "'m \<Rightarrow> u32 \<Rightarrow> bool"
    and ok :: "'m \<Rightarrow> bool"
  assumes ld_mapped: "ok m \<Longrightarrow> mapped m a \<Longrightarrow> \<exists>v. ld m a = Inr v"
    and st_mapped: "ok m \<Longrightarrow> mapped m a \<Longrightarrow> \<exists>m'. st m a v = Inr m'"
    and st_ok: "ok m \<Longrightarrow> mapped m a \<Longrightarrow> st m a v = Inr m' \<Longrightarrow> ok m'"
    and st_mapped_same: "ok m \<Longrightarrow> mapped m a \<Longrightarrow> st m a v = Inr m' \<Longrightarrow> mapped m' b = mapped m b"
    and ld_st_same: "ok m \<Longrightarrow> mapped m a \<Longrightarrow> st m a v = Inr m' \<Longrightarrow> ld m' a = Inr v"
    and ld_st_other:
      "ok m \<Longrightarrow> mapped m a \<Longrightarrow> st m a v = Inr m' \<Longrightarrow> b \<noteq> a \<Longrightarrow> ld m' b = ld m b"
begin

definition range_mapped :: "'m \<Rightarrow> u32 \<Rightarrow> nat \<Rightarrow> bool" where
  "range_mapped m a n \<longleftrightarrow> (\<forall>i < n. mapped m (a + of_nat i))"

lemma range_mapped_Suc:
  "range_mapped m a (Suc n) \<longleftrightarrow> mapped m a \<and> range_mapped m (a + 1) n"
proof -
  have "(\<forall>i < Suc n. mapped m (a + of_nat i)) \<longleftrightarrow>
      mapped m (a + of_nat 0) \<and> (\<forall>i < n. mapped m (a + of_nat (Suc i)))"
    by (rule All_less_Suc2)
  then show ?thesis by (simp add: range_mapped_def add.assoc)
qed

lemma read_range_ok:
  assumes "ok m" "range_mapped m a n"
  shows "\<exists>bs. read_range ld m a n = Inr bs \<and> length bs = n"
  using assms
proof (induction n arbitrary: a)
  case 0
  then show ?case by simp
next
  case (Suc n)
  then have ma: "mapped m a" "range_mapped m (a + 1) n" by (auto simp: range_mapped_Suc)
  obtain v where "ld m a = Inr v" using ld_mapped [OF Suc.prems(1) ma(1)] by blast
  moreover obtain bs where "read_range ld m (a + 1) n = Inr bs" "length bs = n"
    using Suc.IH [OF Suc.prems(1) ma(2)] by blast
  ultimately show ?case by simp
qed

text \<open>A block write succeeds, is read back unchanged, and leaves every other byte alone.\<close>

lemma write_range_ok:
  assumes "ok m" "range_mapped m a (length bs)" "length bs \<le> 2 ^ 32"
  shows "\<exists>m'. write_range st m a bs = Inr m' \<and> ok m' \<and> (\<forall>b. mapped m' b = mapped m b) \<and>
    read_range ld m' a (length bs) = Inr bs \<and>
    (\<forall>b. length bs \<le> unat (b - a) \<longrightarrow> ld m' b = ld m b)"
  using assms
proof (induction bs arbitrary: m a)
  case Nil
  then show ?case by simp
next
  case (Cons v bs)
  have ma: "mapped m a" "range_mapped m (a + 1) (length bs)"
    using Cons.prems(2) by (auto simp: range_mapped_Suc)
  obtain m1 where m1: "st m a v = Inr m1" using st_mapped [OF Cons.prems(1) ma(1)] by blast
  note laws = st_ok [OF Cons.prems(1) ma(1) m1] st_mapped_same [OF Cons.prems(1) ma(1) m1]
    ld_st_same [OF Cons.prems(1) ma(1) m1] ld_st_other [OF Cons.prems(1) ma(1) m1]
  have "range_mapped m1 (a + 1) (length bs)"
    using ma(2) laws(2) by (simp add: range_mapped_def)
  moreover have "length bs \<le> 2 ^ 32" using Cons.prems(3) by simp
  ultimately obtain m' where m': "write_range st m1 (a + 1) bs = Inr m'" "ok m'"
      "\<forall>b. mapped m' b = mapped m1 b" "read_range ld m' (a + 1) (length bs) = Inr bs"
      "\<forall>b. length bs \<le> unat (b - (a + 1)) \<longrightarrow> ld m' b = ld m1 b"
    using Cons.IH [OF laws(1)] by blast
  have dist: "length bs \<le> unat (b - (a + 1)) \<and> b \<noteq> a" if "Suc (length bs) \<le> unat (b - a)" for b
  proof -
    have "b - a \<noteq> 0" using that by auto
    then have "unat (b - (a + 1)) = unat (b - a) - 1"
      unfolding diff_diff_eq [symmetric] by (rule unat_minus_one)
    then show ?thesis using that by auto
  qed
  have "a - (a + 1) = (- 1 :: u32)" by simp
  moreover have "unat (- 1 :: u32) = 2 ^ 32 - 1"
    by (simp add: unsigned_minus_1_eq_mask mask_eq_exp_minus_1)
  ultimately have "unat (a - (a + 1)) = 2 ^ 32 - 1" by (simp only:)
  then have "ld m' a = Inr v" using m'(5) laws(3) Cons.prems(3) by simp
  then show ?case using m1 m' laws(2,4) dist by (auto simp: Suc_le_eq)
qed

corollary write_read_back:
  assumes "ok m" "range_mapped m a (length bs)" "length bs \<le> 2 ^ 32"
    and "write_range st m a bs = Inr m'"
  shows "read_range ld m' a (length bs) = Inr bs"
  using write_range_ok [OF assms(1-3)] assms(4) by auto

end

end
