(* ===== verification/RV_Memory.thy ===== *)
theory RV_Memory
  imports RV_Defs RV_Byte_Store
begin

text \<open>
  Guest memory: \<open>MemorySegm\<close> (\<open>sim/memory_segm.hpp\<close>) and the class \<open>Memory\<close>
  (\<open>sim/memory.hpp\<close>, \<open>sim/memory.cpp\<close>), a list of segments that every access searches for
  the first one whose range holds the first byte. The lemmas relate the accesses to a view of
  memory as a map from addresses to bytes, for accesses that lie inside the data of their
  segment, and show that no access changes the layout of the segments.
\<close>

section \<open>Segments and the access loops\<close>

record MemorySegm =
  start_addr :: u32
  end_addr :: u32
  data :: "u8 list"
  r_permission :: bool
  w_permission :: bool
  x_permission :: bool

record Memory =
  segms :: "MemorySegm list"

definition IsAddrInSegment :: "u32 \<Rightarrow> MemorySegm \<Rightarrow> bool" where
  "IsAddrInSegment addr segm \<longleftrightarrow> start_addr segm \<le> addr \<and> addr < end_addr segm"

text \<open>
  The three loads and the three stores of the source differ in the width of the value only,
  so each is one loop at a width: \<open>sizeof\<close> of a word type is its length in bytes.
\<close>

fun Load_loop :: "'z config_scheme \<Rightarrow> MemorySegm list \<Rightarrow> u32 \<Rightarrow> error + 'a::len word" where
  "Load_loop c [] addr =
     and_then (cassert c ''no segment matched address'' False) (\<lambda>_. Inr 0)"
| "Load_loop c (segm # rest) addr =
     (if \<not> IsAddrInSegment addr segm then Load_loop c rest addr
      else
        let offset = addr - start_addr segm in
        and_then (memcpy_from (data segm) (unat offset) (LENGTH('a) div 8)) (\<lambda>bs.
        Inr (le_word bs)))"

fun Store_loop ::
  "'z config_scheme \<Rightarrow> MemorySegm list \<Rightarrow> u32 \<Rightarrow> 'a::len word \<Rightarrow> error + MemorySegm list" where
  "Store_loop c [] addr val =
     and_then (cassert c ''no segment matched address'' False) (\<lambda>_. Inr [])"
| "Store_loop c (segm # rest) addr val =
     (if \<not> IsAddrInSegment addr segm then
        and_then (Store_loop c rest addr val) (\<lambda>rest'. Inr (segm # rest'))
      else
        let offset = addr - start_addr segm in
        and_then (memcpy_to (data segm) (unat offset) (le_bytes (LENGTH('a) div 8) val)) (\<lambda>d.
        Inr (segm\<lparr>data := d\<rparr> # rest)))"

definition LoadU32 :: "'z config_scheme \<Rightarrow> Memory \<Rightarrow> u32 \<Rightarrow> error + u32" where
  "LoadU32 c m addr = Load_loop c (segms m) addr"

definition LoadU16 :: "'z config_scheme \<Rightarrow> Memory \<Rightarrow> u32 \<Rightarrow> error + u16" where
  "LoadU16 c m addr = Load_loop c (segms m) addr"

definition LoadU8 :: "'z config_scheme \<Rightarrow> Memory \<Rightarrow> u32 \<Rightarrow> error + u8" where
  "LoadU8 c m addr = Load_loop c (segms m) addr"

definition Store_with :: "'z config_scheme \<Rightarrow> Memory \<Rightarrow> u32 \<Rightarrow> 'a::len word \<Rightarrow> error + Memory" where
  "Store_with c m addr val =
     and_then (Store_loop c (segms m) addr val) (\<lambda>ss. Inr (m\<lparr>segms := ss\<rparr>))"

definition StoreU32 :: "'z config_scheme \<Rightarrow> Memory \<Rightarrow> u32 \<Rightarrow> u32 \<Rightarrow> error + Memory" where
  "StoreU32 c m addr val = Store_with c m addr val"

definition StoreU16 :: "'z config_scheme \<Rightarrow> Memory \<Rightarrow> u32 \<Rightarrow> u16 \<Rightarrow> error + Memory" where
  "StoreU16 c m addr val = Store_with c m addr val"

definition StoreU8 :: "'z config_scheme \<Rightarrow> Memory \<Rightarrow> u32 \<Rightarrow> u8 \<Rightarrow> error + Memory" where
  "StoreU8 c m addr val = Store_with c m addr val"

definition Fetch :: "'z config_scheme \<Rightarrow> Memory \<Rightarrow> u32 \<Rightarrow> error + u32" where
  "Fetch c m addr = LoadU32 c m addr"

definition AddSegment :: "Memory \<Rightarrow> MemorySegm \<Rightarrow> Memory" where
  "AddSegment m segm = m\<lparr>segms := segms m @ [segm]\<rparr>"

text \<open>
  The two copy loops of the system calls run over an index \<open>i\<close> (a \<open>size_t\<close>); the guest
  address \<open>addr + i\<close> is truncated to 32 bits by the parameter it is passed to. The host
  buffer is a list: the loops write, respectively read, its element \<open>i\<close>.
\<close>

fun CopyGuestToHost_loop ::
  "'z config_scheme \<Rightarrow> Memory \<Rightarrow> u32 \<Rightarrow> u8 list \<Rightarrow> nat \<Rightarrow> nat \<Rightarrow> error + u8 list" where
  "CopyGuestToHost_loop c m from_addr to_buf i 0 = Inr to_buf"
| "CopyGuestToHost_loop c m from_addr to_buf i (Suc n) =
     and_then (LoadU8 c m (from_addr + of_nat i)) (\<lambda>b.
     and_then (array_set to_buf i b) (\<lambda>to_buf'.
     CopyGuestToHost_loop c m from_addr to_buf' (Suc i) n))"

definition CopyGuestToHost ::
  "'z config_scheme \<Rightarrow> Memory \<Rightarrow> u32 \<Rightarrow> u8 list \<Rightarrow> nat \<Rightarrow> error + u8 list" where
  "CopyGuestToHost c m from_addr to_buf sz = CopyGuestToHost_loop c m from_addr to_buf 0 sz"

fun CopyHostToGuest_loop ::
  "'z config_scheme \<Rightarrow> Memory \<Rightarrow> u32 \<Rightarrow> u8 list \<Rightarrow> nat \<Rightarrow> nat \<Rightarrow> error + Memory" where
  "CopyHostToGuest_loop c m to_addr from_buf i 0 = Inr m"
| "CopyHostToGuest_loop c m to_addr from_buf i (Suc n) =
     and_then (array_get from_buf i) (\<lambda>b.
     and_then (StoreU8 c m (to_addr + of_nat i) b) (\<lambda>m'.
     CopyHostToGuest_loop c m' to_addr from_buf (Suc i) n))"

definition CopyHostToGuest ::
  "'z config_scheme \<Rightarrow> Memory \<Rightarrow> u32 \<Rightarrow> u8 list \<Rightarrow> nat \<Rightarrow> error + Memory" where
  "CopyHostToGuest c m to_addr from_buf sz = CopyHostToGuest_loop c m to_addr from_buf 0 sz"

lemmas access_defs = LoadU32_def LoadU16_def LoadU8_def
  StoreU32_def StoreU16_def StoreU8_def Store_with_def Fetch_def

section \<open>The segment an access hits\<close>

fun find_segm :: "MemorySegm list \<Rightarrow> u32 \<Rightarrow> MemorySegm option" where
  "find_segm [] addr = None"
| "find_segm (segm # rest) addr = (if IsAddrInSegment addr segm then Some segm else find_segm rest addr)"

lemma find_segm_None: "find_segm ss a = None \<longleftrightarrow> (\<forall>s\<in>set ss. \<not> IsAddrInSegment a s)"
  by (induction ss) auto

lemma find_segm_Some:
  assumes "find_segm ss a = Some s"
  obtains xs ys where "ss = xs @ s # ys" "\<forall>x\<in>set xs. \<not> IsAddrInSegment a x" "IsAddrInSegment a s"
  using assms
proof (induction ss arbitrary: thesis)
  case Nil
  then show ?case by simp
next
  case (Cons t ss)
  show ?case
  proof (cases "IsAddrInSegment a t")
    case True
    then show ?thesis using Cons.prems(2) by (intro Cons.prems(1) [of "[]" ss]) auto
  next
    case False
    then obtain xs ys where "ss = xs @ s # ys" "\<forall>x\<in>set xs. \<not> IsAddrInSegment a x"
        "IsAddrInSegment a s"
      using Cons.IH Cons.prems(2) by auto
    then show ?thesis using False by (intro Cons.prems(1) [of "t # xs" ys]) auto
  qed
qed

lemma find_segm_append:
  "find_segm (xs @ ys) a = (case find_segm xs a of None \<Rightarrow> find_segm ys a | Some s \<Rightarrow> Some s)"
  by (induction xs) auto

lemma find_segm_in: "find_segm ss a = Some s \<Longrightarrow> s \<in> set ss \<and> IsAddrInSegment a s"
  by (erule find_segm_Some) auto

lemma Load_loop_eq:
  "(Load_loop c ss a :: error + 'a::len word) =
     (case find_segm ss a of
        None \<Rightarrow> and_then (cassert c ''no segment matched address'' False) (\<lambda>_. Inr 0)
      | Some s \<Rightarrow> and_then (memcpy_from (data s) (unat (a - start_addr s)) (LENGTH('a) div 8))
                    (\<lambda>bs. Inr (le_word bs)))"
  by (induction ss) (simp_all add: Let_def)

lemma Store_loop_miss:
  "find_segm ss a = None \<Longrightarrow>
     Store_loop c ss a v = and_then (cassert c ''no segment matched address'' False) (\<lambda>_. Inr ss)"
  by (induction ss) (auto simp: and_then_assoc split: if_splits)

lemma Store_loop_hit:
  assumes "\<forall>x\<in>set xs. \<not> IsAddrInSegment a x" "IsAddrInSegment a s"
  shows "Store_loop c (xs @ s # ys) a (v :: 'a::len word) =
    and_then (memcpy_to (data s) (unat (a - start_addr s)) (le_bytes (LENGTH('a) div 8) v))
      (\<lambda>d. Inr (xs @ s\<lparr>data := d\<rparr> # ys))"
  using assms by (induction xs) (simp_all add: Let_def and_then_assoc)

section \<open>Accesses inside the data of a segment\<close>

text \<open>
  An access of \<open>n\<close> bytes is \<open>accessible\<close> when it stays inside the data of the segment its
  first byte selects; \<open>memcpy\<close> is undefined for any other access to a mapped address.
\<close>

definition accessible :: "MemorySegm list \<Rightarrow> u32 \<Rightarrow> nat \<Rightarrow> bool" where
  "accessible ss a n \<longleftrightarrow>
     (case find_segm ss a of None \<Rightarrow> False
      | Some s \<Rightarrow> unat (a - start_addr s) + n \<le> length (data s))"

definition byte_at :: "MemorySegm list \<Rightarrow> u32 \<Rightarrow> u8 option" where
  "byte_at ss a =
     (case find_segm ss a of None \<Rightarrow> None
      | Some s \<Rightarrow> (let off = unat (a - start_addr s) in
                    if off < length (data s) then Some (data s ! off) else None))"

definition layout :: "MemorySegm list \<Rightarrow> (nat \<times> MemorySegm) list" where
  "layout ss = map (\<lambda>s. (length (data s), s\<lparr>data := []\<rparr>)) ss"

text \<open>
  The data of a segment is no longer than its range, and the ranges of two segments do not
  meet.
\<close>

definition segm_ok :: "MemorySegm \<Rightarrow> bool" where
  "segm_ok s \<longleftrightarrow> length (data s) \<le> unat (end_addr s) - unat (start_addr s)"

definition segm_disjoint :: "MemorySegm \<Rightarrow> MemorySegm \<Rightarrow> bool" where
  "segm_disjoint s t \<longleftrightarrow> end_addr s \<le> start_addr t \<or> end_addr t \<le> start_addr s"

fun segms_ok :: "MemorySegm list \<Rightarrow> bool" where
  "segms_ok [] = True"
| "segms_ok (s # ss) \<longleftrightarrow> segm_ok s \<and> list_all (segm_disjoint s) ss \<and> segms_ok ss"

lemma layout_segm_ok: "layout ss = layout ts \<Longrightarrow> segms_ok ss \<longleftrightarrow> segms_ok ts"
proof (induction ss arbitrary: ts)
  case Nil
  then show ?case by (simp add: layout_def)
next
  case (Cons s ss)
  then obtain t ts' where t: "ts = t # ts'" "length (data s) = length (data t)"
      "s\<lparr>data := []\<rparr> = t\<lparr>data := []\<rparr>" "layout ss = layout ts'"
    by (cases ts) (auto simp: layout_def)
  have st: "start_addr s = start_addr t" "end_addr s = end_addr t"
    using t(3) by (cases s; cases t; simp)+
  have "list_all (segm_disjoint s) ss \<longleftrightarrow> list_all (segm_disjoint t) ts'"
  proof -
    have "map (\<lambda>u. (start_addr u, end_addr u)) ss = map (\<lambda>u. (start_addr u, end_addr u)) ts'"
      using arg_cong [OF t(4), of "map (\<lambda>p. (start_addr (snd p), end_addr (snd p)))"]
      by (simp add: layout_def comp_def)
    then have "list_all (\<lambda>(a, b). end_addr t \<le> a \<or> b \<le> start_addr t)
          (map (\<lambda>u. (start_addr u, end_addr u)) ss) \<longleftrightarrow>
        list_all (\<lambda>(a, b). end_addr t \<le> a \<or> b \<le> start_addr t)
          (map (\<lambda>u. (start_addr u, end_addr u)) ts')"
      by simp
    then show ?thesis unfolding segm_disjoint_def st by (simp add: list.pred_map comp_def)
  qed
  then show ?case using Cons.IH [OF t(4)] t(1,2) st by (simp add: segm_ok_def)
qed

lemma in_segment_offset:
  "IsAddrInSegment a s \<Longrightarrow> unat (a - start_addr s) = unat a - unat (start_addr s)"
  by (simp add: IsAddrInSegment_def unat_sub)

text \<open>Every byte of an accessible access selects the same segment.\<close>

lemma in_data_in_segment:
  assumes "segm_ok s" "unat (a - start_addr s) + i < length (data s)" "IsAddrInSegment a s"
  shows "IsAddrInSegment (a + of_nat i) s"
    and "unat (a + of_nat i - start_addr s) = unat (a - start_addr s) + i"
proof -
  have o: "unat (a - start_addr s) = unat a - unat (start_addr s)"
    "unat (start_addr s) \<le> unat a" "unat a < unat (end_addr s)"
    using assms(3) by (auto simp: in_segment_offset IsAddrInSegment_def word_le_nat_alt word_less_nat_alt)
  have lt: "unat a + i < unat (end_addr s)"
    using assms(1,2) o by (simp add: segm_ok_def)
  have "unat (end_addr s) < 2 ^ 32" using unsigned_less [of "end_addr s"] by simp
  then have u: "unat (a + of_nat i) = unat a + i"
    using lt by (simp add: unat_word_ariths unat_of_nat)
  then show 1: "IsAddrInSegment (a + of_nat i) s"
    using o lt by (simp add: IsAddrInSegment_def word_le_nat_alt word_less_nat_alt)
  show "unat (a + of_nat i - start_addr s) = unat (a - start_addr s) + i"
    using in_segment_offset [OF 1] o u by simp
qed

lemma segms_ok_appendD:
  assumes "segms_ok (xs @ s # ys)"
  shows "segm_ok s" "\<forall>x\<in>set xs. segm_disjoint x s"
  using assms by (induction xs) (auto simp: list_all_iff)

lemma segm_disjointD: "segm_disjoint s t \<Longrightarrow> IsAddrInSegment a s \<Longrightarrow> \<not> IsAddrInSegment a t"
  by (auto simp: segm_disjoint_def IsAddrInSegment_def)

lemma find_segm_skip:
  "\<forall>x\<in>set xs. \<not> IsAddrInSegment a x \<Longrightarrow> IsAddrInSegment a s \<Longrightarrow> find_segm (xs @ s # ys) a = Some s"
  by (induction xs) auto

lemma accessible_byte:
  assumes "segms_ok ss" "accessible ss a n" "i < n"
  obtains s where "find_segm ss a = Some s" "find_segm ss (a + of_nat i) = Some s"
    "unat (a + of_nat i - start_addr s) = unat (a - start_addr s) + i"
    "unat (a - start_addr s) + n \<le> length (data s)"
proof -
  obtain s where s: "find_segm ss a = Some s" "unat (a - start_addr s) + n \<le> length (data s)"
    using assms(2) by (auto simp: accessible_def split: option.splits)
  obtain xs ys where d: "ss = xs @ s # ys" "\<forall>x\<in>set xs. \<not> IsAddrInSegment a x"
      "IsAddrInSegment a s"
    using find_segm_Some [OF s(1)] by blast
  have ok: "segm_ok s" "\<forall>x\<in>set xs. segm_disjoint x s"
    using segms_ok_appendD assms(1) d(1) by blast+
  have lt: "unat (a - start_addr s) + i < length (data s)" using s(2) assms(3) by simp
  note off = in_data_in_segment [OF ok(1) lt d(3)]
  have "\<forall>x\<in>set xs. \<not> IsAddrInSegment (a + of_nat i) x"
    using ok(2) off(1) segm_disjointD by blast
  then have "find_segm ss (a + of_nat i) = Some s"
    using off(1) find_segm_skip by (simp add: d(1))
  then show ?thesis using that s off(2) by blast
qed

lemma byte_at_accessible:
  assumes "segms_ok ss" "accessible ss a n" "i < n" "find_segm ss a = Some s"
  shows "byte_at ss (a + of_nat i) = Some (data s ! (unat (a - start_addr s) + i))"
proof -
  obtain t where "find_segm ss a = Some t" "find_segm ss (a + of_nat i) = Some t"
    "unat (a + of_nat i - start_addr t) = unat (a - start_addr t) + i"
    "unat (a - start_addr t) + n \<le> length (data t)"
    using accessible_byte [OF assms(1-3)] .
  then show ?thesis using assms(3,4) by (simp add: byte_at_def)
qed

lemma accessible_iff_bytes_1: "accessible ss a 1 \<longleftrightarrow> byte_at ss a \<noteq> None"
  by (auto simp: accessible_def byte_at_def Let_def split: option.splits)

lemma accessible_mono: "accessible ss a n \<Longrightarrow> k \<le> n \<Longrightarrow> accessible ss a k"
  by (auto simp: accessible_def split: option.splits)

lemma accessible_offset:
  assumes "segms_ok ss" "accessible ss a n" "i + k \<le> n" "0 < k"
  shows "accessible ss (a + of_nat i) k"
proof -
  have "i < n" using assms by simp
  then obtain s where "find_segm ss (a + of_nat i) = Some s"
    "unat (a + of_nat i - start_addr s) = unat (a - start_addr s) + i"
    "unat (a - start_addr s) + n \<le> length (data s)"
    using accessible_byte [OF assms(1,2)] by metis
  then show ?thesis using assms(3) by (simp add: accessible_def)
qed

text \<open>A load returns the little-endian value of the bytes at its address.\<close>

lemma Load_loop_bytes:
  assumes "segms_ok ss" "accessible ss a (LENGTH('a) div 8)"
  shows "(Load_loop c ss a :: error + 'a::len word) =
    Inr (le_word (map (\<lambda>i. the (byte_at ss (a + of_nat i))) [0..<LENGTH('a) div 8]))"
proof -
  let ?n = "LENGTH('a) div 8"
  obtain s where s: "find_segm ss a = Some s" "unat (a - start_addr s) + ?n \<le> length (data s)"
    using assms(2) by (auto simp: accessible_def split: option.splits)
  have "take ?n (drop (unat (a - start_addr s)) (data s)) =
      map (\<lambda>i. the (byte_at ss (a + of_nat i))) [0..<?n]"
  proof (rule nth_equalityI)
    fix i
    assume "i < length (take ?n (drop (unat (a - start_addr s)) (data s)))"
    then have "i < ?n" by simp
    then show "take ?n (drop (unat (a - start_addr s)) (data s)) ! i =
        map (\<lambda>i. the (byte_at ss (a + of_nat i))) [0..<?n] ! i"
      using byte_at_accessible [OF assms _ s(1), of i] s(2) by simp
  qed (use s(2) in simp)
  then show ?thesis using s by (simp add: Load_loop_eq memcpy_from_def)
qed

lemma Store_loop_layout: "Store_loop c ss a v = Inr ss' \<Longrightarrow> layout ss' = layout ss"
proof (induction ss arbitrary: ss')
  case Nil
  then show ?case by (auto elim!: errE)
next
  case (Cons s ss)
  then show ?case
    by (auto simp: layout_def Let_def elim!: errE dest: memcpy_to_length split: if_splits)
qed

lemma find_segm_layout:
  "layout ss = layout ts \<Longrightarrow>
    rel_option (\<lambda>s t. start_addr s = start_addr t \<and> length (data s) = length (data t))
      (find_segm ss a) (find_segm ts a)"
proof (induction ss arbitrary: ts)
  case Nil
  then show ?case by (simp add: layout_def)
next
  case (Cons s ss)
  then obtain t ts' where t: "ts = t # ts'" "length (data s) = length (data t)"
      "s\<lparr>data := []\<rparr> = t\<lparr>data := []\<rparr>" "layout ss = layout ts'"
    by (cases ts) (auto simp: layout_def)
  have st: "start_addr s = start_addr t" "end_addr s = end_addr t"
    using t(3) by (cases s; cases t; simp)+
  then show ?case using Cons.IH [OF t(4)] t(1,2) by (simp add: IsAddrInSegment_def)
qed

lemma accessible_layout:
  "layout ss = layout ts \<Longrightarrow> accessible ss a n \<longleftrightarrow> accessible ts a n"
  using find_segm_layout [of ss ts a]
  by (auto simp: accessible_def split: option.splits)

text \<open>A store of \<open>n\<close> bytes changes the bytes at its \<open>n\<close> addresses and no others.\<close>

lemma byte_at_after_hit:
  assumes ok: "segms_ok (xs @ s # ys)"
    and nx: "\<forall>x\<in>set xs. \<not> IsAddrInSegment a x" and ins: "IsAddrInSegment a s"
    and mc: "memcpy_to (data s) (unat (a - start_addr s)) bs = Inr d"
  shows "byte_at (xs @ s\<lparr>data := d\<rparr> # ys) b =
    (if unat (b - a) < length bs then Some (bs ! unat (b - a)) else byte_at (xs @ s # ys) b)"
proof -
  let ?off = "unat (a - start_addr s)"
  have sok: "segm_ok s" "\<forall>x\<in>set xs. segm_disjoint x s" using segms_ok_appendD [OF ok] by auto
  have fits: "?off + length bs \<le> length (data s)"
    using mc by (auto simp: memcpy_to_def split: if_splits)
  have ld: "length d = length (data s)" using memcpy_to_length [OF mc] .
  have same: "IsAddrInSegment b (s\<lparr>data := d\<rparr>) = IsAddrInSegment b s"
    by (simp add: IsAddrInSegment_def)
  show ?thesis
  proof (cases "unat (b - a) < length bs")
    case True
    define i where "i = unat (b - a)"
    have b: "b = a + of_nat i" by (simp add: i_def)
    have "?off + i < length (data s)" using True fits by (simp add: i_def)
    note off = in_data_in_segment [OF sok(1) this ins]
    have "\<forall>x\<in>set xs. \<not> IsAddrInSegment b x"
      using sok(2) off(1) segm_disjointD unfolding b by blast
    then have "find_segm (xs @ s\<lparr>data := d\<rparr> # ys) b = Some (s\<lparr>data := d\<rparr>)"
      using off(1) unfolding b
      by (intro find_segm_skip) (simp_all add: IsAddrInSegment_def)
    moreover have "d ! (?off + i) = bs ! i"
      using memcpy_to_nth [OF mc, of "?off + i"] True fits by (simp add: i_def)
    moreover have "i < length bs" using True by (simp add: i_def)
    ultimately have "byte_at (xs @ s\<lparr>data := d\<rparr> # ys) b = Some (bs ! i)"
      using off(2) [folded b] fits ld by (simp add: byte_at_def Let_def)
    then show ?thesis using True by (simp add: i_def)
  next
    case False
    show ?thesis
    proof (cases "find_segm xs b")
      case None
      show ?thesis
      proof (cases "IsAddrInSegment b s")
        case True
        let ?ob = "unat (b - start_addr s)"
        have e: "b - a = (b - start_addr s) - (a - start_addr s)" by simp
        have "d ! ?ob = data s ! ?ob" if "?ob < length (data s)"
        proof -
          have "unat (b - a) = ?ob - ?off" if "?off \<le> ?ob"
            using that unat_sub [of "a - start_addr s" "b - start_addr s"]
            by (simp only: e word_le_nat_alt)
          then have "\<not> (?off \<le> ?ob \<and> ?ob < ?off + length bs)" using False by auto
          then show ?thesis using memcpy_to_nth [OF mc that] by (simp only: if_False)
        qed
        then show ?thesis using None True False ld same
          by (simp add: byte_at_def find_segm_append Let_def)
      next
        case outside: False
        then show ?thesis using None False same
          by (simp add: byte_at_def find_segm_append)
      qed
    next
      case (Some t)
      then show ?thesis using False by (simp add: byte_at_def find_segm_append)
    qed
  qed
qed

lemma Store_loop_bytes:
  assumes "segms_ok ss" "accessible ss a (LENGTH('a) div 8)"
  obtains ss' where "Store_loop c ss a (v :: 'a::len word) = Inr ss'" "layout ss' = layout ss"
    "\<And>b. byte_at ss' b =
      (if unat (b - a) < LENGTH('a) div 8 then Some (le_bytes (LENGTH('a) div 8) v ! unat (b - a))
       else byte_at ss b)"
proof -
  let ?bs = "le_bytes (LENGTH('a) div 8) v"
  obtain s where s: "find_segm ss a = Some s"
      "unat (a - start_addr s) + LENGTH('a) div 8 \<le> length (data s)"
    using assms(2) by (auto simp: accessible_def split: option.splits)
  obtain xs ys where d: "ss = xs @ s # ys" "\<forall>x\<in>set xs. \<not> IsAddrInSegment a x"
      "IsAddrInSegment a s"
    using find_segm_Some [OF s(1)] by blast
  obtain dd where dd: "memcpy_to (data s) (unat (a - start_addr s)) ?bs = Inr dd"
    using s(2) by (auto simp: memcpy_to_def)
  have st: "Store_loop c ss a v = Inr (xs @ s\<lparr>data := dd\<rparr> # ys)"
    using Store_loop_hit [OF d(2,3), of c ys v] dd by (simp add: d(1))
  show ?thesis
    using that [OF st Store_loop_layout [OF st]] byte_at_after_hit [OF _ d(2,3) dd, of ys]
      assms(1) by (simp add: d(1))
qed


text \<open>Whole accesses: a load after a store to the same or to a disjoint range.\<close>

lemma Load_after_Store_same:
  assumes "segms_ok ss" "accessible ss a (LENGTH('a) div 8)" "LENGTH('a) = 8 * n" "n \<le> 8"
    and st: "Store_loop c ss a (v :: 'a::len word) = Inr ss'"
  shows "(Load_loop c ss' a :: error + 'a word) = Inr v"
proof -
  have n: "LENGTH('a) div 8 = n" using assms(3) by simp
  obtain ss'' where s: "Store_loop c ss a v = Inr ss''" "layout ss'' = layout ss"
    "\<And>b. byte_at ss'' b =
      (if unat (b - a) < n then Some (le_bytes n v ! unat (b - a)) else byte_at ss b)"
    using Store_loop_bytes [OF assms(1,2)] n by metis
  have e: "ss'' = ss'" using s(1) st by simp
  have "map (\<lambda>i. the (byte_at ss' (a + of_nat i))) [0..<n] = le_bytes n v"
    using assms(4) by (intro nth_equalityI) (simp_all add: s(3) e [symmetric] unat_of_nat_small)
  moreover have "segms_ok ss'" "accessible ss' a (LENGTH('a) div 8)"
    using layout_segm_ok [OF s(2)] accessible_layout [OF s(2)] assms(1,2) e by auto
  ultimately show ?thesis
    using Load_loop_bytes [of ss' a c, where ?'a = 'a] n assms(3) by simp
qed

definition ranges_apart :: "u32 \<Rightarrow> nat \<Rightarrow> u32 \<Rightarrow> nat \<Rightarrow> bool" where
  "ranges_apart a n b k \<longleftrightarrow> list_all (\<lambda>i. n \<le> unat (b + of_nat i - a)) [0..<k]"

lemma Load_after_Store_apart:
  assumes "segms_ok ss" "accessible ss a (LENGTH('a) div 8)" "accessible ss b (LENGTH('b) div 8)"
    and "ranges_apart a (LENGTH('a) div 8) b (LENGTH('b) div 8)"
    and st: "Store_loop c ss a (v :: 'a::len word) = Inr ss'"
  shows "(Load_loop c ss' b :: error + 'b::len word) = Load_loop c ss b"
proof -
  let ?n = "LENGTH('a) div 8" and ?k = "LENGTH('b) div 8"
  obtain ss'' where s: "Store_loop c ss a v = Inr ss''" "layout ss'' = layout ss"
    "\<And>b. byte_at ss'' b =
      (if unat (b - a) < ?n then Some (le_bytes ?n v ! unat (b - a)) else byte_at ss b)"
    using Store_loop_bytes [OF assms(1,2)] by metis
  have e: "ss'' = ss'" using s(1) st by simp
  have "byte_at ss' (b + of_nat i) = byte_at ss (b + of_nat i)" if "i < ?k" for i
  proof -
    have "\<not> unat (b + of_nat i - a) < ?n"
      using assms(4) that by (auto simp: ranges_apart_def list_all_iff not_less)
    then show ?thesis by (simp add: s(3) e [symmetric])
  qed
  then have "map (\<lambda>i. the (byte_at ss' (b + of_nat i))) [0..<?k] =
      map (\<lambda>i. the (byte_at ss (b + of_nat i))) [0..<?k]"
    by simp
  moreover have "segms_ok ss'" "accessible ss' b ?k"
    using layout_segm_ok [OF s(2)] accessible_layout [OF s(2)] assms(1,3) e by auto
  ultimately show ?thesis
    using Load_loop_bytes [of ss' b c, where ?'a = 'b] Load_loop_bytes [OF assms(1,3), of c]
    by (simp only:)
qed

section \<open>Memory as a byte store\<close>

text \<open>The single-byte accesses obey the laws of \<open>byte_memory\<close>, in both builds.\<close>

definition mem_ok :: "Memory \<Rightarrow> bool" where
  "mem_ok m \<longleftrightarrow> segms_ok (segms m)"

definition mem_mapped :: "Memory \<Rightarrow> u32 \<Rightarrow> bool" where
  "mem_mapped m a \<longleftrightarrow> accessible (segms m) a 1"

lemma LoadU8_byte_at:
  assumes "mem_ok m" "mem_mapped m a"
  shows "LoadU8 c m a = Inr (the (byte_at (segms m) a))"
  using assms Load_loop_bytes [of "segms m" a c, where ?'a = 8]
  by (simp add: LoadU8_def mem_ok_def mem_mapped_def)

lemma StoreU8_bytes:
  assumes "mem_ok m" "mem_mapped m a"
  obtains m' where "StoreU8 c m a v = Inr m'" "layout (segms m') = layout (segms m)"
    "\<And>b. byte_at (segms m') b = (if b = a then Some v else byte_at (segms m) b)"
proof -
  obtain ss' where s: "Store_loop c (segms m) a v = Inr ss'" "layout ss' = layout (segms m)"
    "\<And>b. byte_at ss' b = (if unat (b - a) < LENGTH(8) div 8
       then Some (le_bytes (LENGTH(8) div 8) v ! unat (b - a)) else byte_at (segms m) b)"
    using Store_loop_bytes [of "segms m" a c v] assms
    by (auto simp: mem_ok_def mem_mapped_def)
  have "byte_at ss' b = (if b = a then Some v else byte_at (segms m) b)" for b
    using s(3) [of b] by (cases "b = a") (auto simp: unat_eq_0 right_minus_eq)
  then show ?thesis using that [of "m\<lparr>segms := ss'\<rparr>"] s
    by (simp add: StoreU8_def Store_with_def)
qed

lemma mem_layout_same:
  assumes "layout (segms m') = layout (segms m)"
  shows "mem_ok m' = mem_ok m" "mem_mapped m' a = mem_mapped m a"
  using layout_segm_ok [OF assms] accessible_layout [OF assms]
  by (simp_all add: mem_ok_def mem_mapped_def)

lemma Load_loop_not_accessible:
  assumes "layout ss' = layout ss" "\<not> accessible ss a (LENGTH('a) div 8)"
  shows "(Load_loop c ss' a :: error + 'a::len word) = Load_loop c ss a"
  using find_segm_layout [OF assms(1), of a] assms(2)
  by (auto simp: Load_loop_eq accessible_def memcpy_from_def option_rel_Some1 option_rel_Some2
      split: option.splits)

interpretation guest: byte_memory "LoadU8 c" "StoreU8 c" mem_mapped mem_ok
  for c :: "'z config_scheme"
proof
  fix m m' :: Memory and a b :: u32 and v :: u8
  assume m: "mem_ok m" "mem_mapped m a"
  show "\<exists>v. LoadU8 c m a = Inr v" using LoadU8_byte_at [OF m, of c] by simp
  obtain m1 where m1: "StoreU8 c m a v = Inr m1" "layout (segms m1) = layout (segms m)"
    "\<And>b. byte_at (segms m1) b = (if b = a then Some v else byte_at (segms m) b)"
    using StoreU8_bytes [OF m, of c v] by blast
  show "\<exists>m'. StoreU8 c m a v = Inr m'" using m1(1) by simp
  assume st: "StoreU8 c m a v = Inr m'"
  then have e: "m1 = m'" using m1(1) by simp
  note same = mem_layout_same [OF m1(2) [unfolded e]]
  show "mem_ok m'" using m same by simp
  show "mem_mapped m' b = mem_mapped m b" by (simp add: same)
  show "LoadU8 c m' a = Inr v"
    using LoadU8_byte_at [of m' a c] m m1(3) same by (simp add: e)
  show "LoadU8 c m' b = LoadU8 c m b" if "b \<noteq> a"
  proof (cases "mem_mapped m b")
    case True
    then show ?thesis
      using LoadU8_byte_at [of m' b c] LoadU8_byte_at [of m b c] m m1(3) same that by (simp add: e)
  next
    case False
    then have "\<not> accessible (segms m) b (LENGTH(8) div 8)" by (simp add: mem_mapped_def)
    then show ?thesis using Load_loop_not_accessible [OF m1(2) [unfolded e]]
      by (simp only: LoadU8_def)
  qed
qed

text \<open>The copy loops are the block transfers of the interface.\<close>

lemma CopyHostToGuest_loop_write_range:
  "i + n \<le> length buf \<Longrightarrow>
    CopyHostToGuest_loop c m a buf i n = write_range (StoreU8 c) m (a + of_nat i) (take n (drop i buf))"
proof (induction n arbitrary: m i)
  case 0
  then show ?case by simp
next
  case (Suc n)
  then have "take (Suc n) (drop i buf) = buf ! i # take n (drop (Suc i) buf)"
    by (simp add: take_Suc_conv_app_nth Cons_nth_drop_Suc [symmetric])
  then show ?case using Suc by (simp add: add.assoc add.commute [of 1])
qed

lemma CopyHostToGuest_write_range:
  "n \<le> length buf \<Longrightarrow> CopyHostToGuest c m a buf n = write_range (StoreU8 c) m a (take n buf)"
  using CopyHostToGuest_loop_write_range [of 0 n buf c m a] by (simp add: CopyHostToGuest_def)

lemma CopyGuestToHost_loop_read_range:
  "i + n \<le> length buf \<Longrightarrow>
    CopyGuestToHost_loop c m a buf i n =
      and_then (read_range (LoadU8 c) m (a + of_nat i) n)
        (\<lambda>bs. Inr (take i buf @ bs @ drop (i + n) buf))"
proof (induction n arbitrary: buf i)
  case 0
  then show ?case by simp
next
  case (Suc n)
  have upd: "take (Suc i) (buf[i := b]) = take i buf @ [b]"
    "drop (Suc (i + n)) (buf[i := b]) = drop (Suc (i + n)) buf" for b
    using Suc.prems by (simp_all add: take_Suc_conv_app_nth drop_update_cancel)
  then show ?case using Suc
    by (simp add: and_then_assoc add.assoc add.commute [of 1])
qed

lemma CopyGuestToHost_read_range:
  "n \<le> length buf \<Longrightarrow>
    CopyGuestToHost c m a buf n =
      and_then (read_range (LoadU8 c) m a n) (\<lambda>bs. Inr (bs @ drop n buf))"
  using CopyGuestToHost_loop_read_range [of 0 n buf c m a] by (simp add: CopyGuestToHost_def)

section \<open>Properties\<close>

text \<open>A memory of two segments, for the concrete instances.\<close>

definition sample_memory :: Memory where
  "sample_memory =
     \<lparr>segms =
       [\<lparr>start_addr = 0x1000, end_addr = 0x1008, data = [1, 2, 3, 4, 5, 6, 7, 8],
         r_permission = True, w_permission = False, x_permission = True\<rparr>,
        \<lparr>start_addr = 0x2000, end_addr = 0x2004, data = [0x80, 0x90, 0xa0, 0xb0],
         r_permission = True, w_permission = True, x_permission = False\<rparr>]\<rparr>"

lemma sample_memory_ok: "mem_ok sample_memory"
  by (simp add: sample_memory_def mem_ok_def segm_ok_def segm_disjoint_def)

lemma store_then_load:
  assumes "mem_ok m" "accessible (segms m) a (LENGTH('a) div 8)" "LENGTH('a) = 8 * n" "n \<le> 8"
  shows "\<exists>m'. Store_with c m a (v :: 'a::len word) = Inr m' \<and> Load_loop c (segms m') a = Inr v"
proof -
  have ok: "segms_ok (segms m)" using assms by (simp add: mem_ok_def)
  obtain ss where "Store_loop c (segms m) a v = Inr ss"
    using Store_loop_bytes [OF ok assms(2)] by metis
  then show ?thesis
    using Load_after_Store_same [OF ok assms(2-4)] by (auto simp: Store_with_def)
qed

text \<open>
  C11: A load returns what a store of the same width left at its address, for all three
  widths, in memory whose segments do not overlap and at an address whose access stays inside
  its segment's data; the store succeeds there in both builds.
\<close>

theorem load_returns_stored_value:
  assumes "mem_ok m"
  shows "(accessible (segms m) a 4 \<longrightarrow>
      (\<exists>m'. StoreU32 c m a v32 = Inr m' \<and> LoadU32 c m' a = Inr v32)) \<and>
    (accessible (segms m) a 2 \<longrightarrow>
      (\<exists>m'. StoreU16 c m a v16 = Inr m' \<and> LoadU16 c m' a = Inr v16)) \<and>
    (accessible (segms m) a 1 \<longrightarrow>
      (\<exists>m'. StoreU8 c m a v8 = Inr m' \<and> LoadU8 c m' a = Inr v8))"
  using store_then_load [OF assms, where ?'a = 32 and n = 4]
    store_then_load [OF assms, where ?'a = 16 and n = 2] store_then_load [OF assms, where ?'a = 8 and n = 1]
  by (auto simp: LoadU32_def LoadU16_def LoadU8_def StoreU32_def StoreU16_def StoreU8_def)

lemma load_returns_stored_value_witness:
  "\<exists>m'. StoreU32 \<lparr>ndebug = False\<rparr> sample_memory 0x1002 0xdeadbeef = Inr m' \<and>
     LoadU32 \<lparr>ndebug = False\<rparr> m' 0x1002 = Inr 0xdeadbeef"
proof -
  have "accessible (segms sample_memory) 0x1002 4"
    by (simp add: accessible_def sample_memory_def IsAddrInSegment_def)
  then show ?thesis using load_returns_stored_value [OF sample_memory_ok] by blast
qed

lemma store_writes_bytes:
  assumes "mem_ok m" "accessible (segms m) a n" "LENGTH('a) = 8 * n"
  shows "\<exists>m'. Store_with c m a (v :: 'a::len word) = Inr m' \<and> layout (segms m') = layout (segms m) \<and>
    mem_ok m' \<and>
    byte_at (segms m') =
      (\<lambda>b. if unat (b - a) < n then Some (ucast (drop_bit (8 * unat (b - a)) v)) else byte_at (segms m) b)"
proof -
  have n: "LENGTH('a) div 8 = n" using assms(3) by simp
  obtain ss where ss: "Store_loop c (segms m) a v = Inr ss" "layout ss = layout (segms m)"
    "\<And>b. byte_at ss b =
      (if unat (b - a) < n then Some (le_bytes n v ! unat (b - a)) else byte_at (segms m) b)"
    using Store_loop_bytes [of "segms m" a c v] assms(1,2) n by (auto simp: mem_ok_def)
  then show ?thesis
    using mem_layout_same(1) [of "m\<lparr>segms := ss\<rparr>" m] assms(1)
    by (auto simp: Store_with_def fun_eq_iff nth_le_bytes)
qed

text \<open>
  C4: A store of a word, a half or a byte replaces exactly the bytes at its four, two or one
  addresses, least significant first, as a view of the whole memory as a map from addresses to
  bytes; the segments keep their number, ranges, sizes and permissions, and the permissions play
  no part.
\<close>

theorem store_updates_byte_map:
  assumes "mem_ok m"
  shows "(accessible (segms m) a 4 \<longrightarrow>
      (\<exists>m'. StoreU32 c m a v32 = Inr m' \<and> layout (segms m') = layout (segms m) \<and> mem_ok m' \<and>
        byte_at (segms m') =
          (\<lambda>b. if unat (b - a) < 4 then Some (ucast (drop_bit (8 * unat (b - a)) v32))
               else byte_at (segms m) b))) \<and>
    (accessible (segms m) a 2 \<longrightarrow>
      (\<exists>m'. StoreU16 c m a v16 = Inr m' \<and> layout (segms m') = layout (segms m) \<and> mem_ok m' \<and>
        byte_at (segms m') =
          (\<lambda>b. if unat (b - a) < 2 then Some (ucast (drop_bit (8 * unat (b - a)) v16))
               else byte_at (segms m) b))) \<and>
    (accessible (segms m) a 1 \<longrightarrow>
      (\<exists>m'. StoreU8 c m a v8 = Inr m' \<and> layout (segms m') = layout (segms m) \<and> mem_ok m' \<and>
        byte_at (segms m') = (byte_at (segms m))(a \<mapsto> v8)))"
proof -
  have one: "(\<lambda>b. if unat (b - a) < 1 then Some (ucast (drop_bit (8 * unat (b - a)) v8)) else byte_at (segms m) b) =
      (byte_at (segms m))(a \<mapsto> v8)"
    by (auto simp: fun_eq_iff unat_eq_0)
  show ?thesis
    using store_writes_bytes [OF assms, where n = 4 and ?'a = 32 and v = v32 and a = a and c = c]
      store_writes_bytes [OF assms, where n = 2 and ?'a = 16 and v = v16 and a = a and c = c]
      store_writes_bytes [OF assms, where n = 1 and ?'a = 8 and v = v8 and a = a and c = c]
    unfolding one by (simp add: StoreU32_def StoreU16_def StoreU8_def)
qed

lemma store_updates_byte_map_witness:
  "(\<exists>m'. StoreU32 \<lparr>ndebug = True\<rparr> sample_memory 0x1004 0xdeadbeef = Inr m' \<and>
     byte_at (segms m') 0x1004 = Some 0xef \<and> byte_at (segms m') 0x2000 = Some 0x80) \<and>
   (\<exists>m'. StoreU16 \<lparr>ndebug = True\<rparr> sample_memory 0x1004 0xbeef = Inr m' \<and>
     byte_at (segms m') 0x1005 = Some 0xbe \<and> byte_at (segms m') 0x1006 = Some 7)"
proof -
  have "accessible (segms sample_memory) 0x1004 4" "accessible (segms sample_memory) 0x1004 2"
    "byte_at (segms sample_memory) 0x2000 = Some 0x80" "byte_at (segms sample_memory) 0x1006 = Some 7"
    by (simp_all add: accessible_def byte_at_def sample_memory_def IsAddrInSegment_def)
  then show ?thesis
    using store_updates_byte_map [OF sample_memory_ok, where a = "0x1004" and c = "\<lparr>ndebug = True\<rparr>"
        and ?v32.0 = "0xdeadbeef" and ?v16.0 = "0xbeef" and ?v8.0 = 0] by auto
qed

text \<open>
  C30: An access outside every segment fails the assertion in a Debug build; in a Release build
  loads read 0, and stores succeed and change nothing.
\<close>

theorem unmapped_access:
  assumes "find_segm (segms m) a = None"
  shows "LoadU32 c m a = (if ndebug c then Inr 0 else Inl (AssertFailed ''no segment matched address'')) \<and>
    LoadU16 c m a = (if ndebug c then Inr 0 else Inl (AssertFailed ''no segment matched address'')) \<and>
    LoadU8 c m a = (if ndebug c then Inr 0 else Inl (AssertFailed ''no segment matched address'')) \<and>
    StoreU32 c m a v32 = (if ndebug c then Inr m else Inl (AssertFailed ''no segment matched address'')) \<and>
    StoreU16 c m a v16 = (if ndebug c then Inr m else Inl (AssertFailed ''no segment matched address'')) \<and>
    StoreU8 c m a v8 = (if ndebug c then Inr m else Inl (AssertFailed ''no segment matched address''))"
  using assms by (simp add: access_defs Load_loop_eq Store_loop_miss)

lemma unmapped_access_witness:
  "LoadU32 \<lparr>ndebug = True\<rparr> sample_memory 0x3000 = Inr 0 \<and>
   StoreU8 \<lparr>ndebug = False\<rparr> sample_memory 0xfff 1 = Inl (AssertFailed ''no segment matched address'')"
proof -
  have "find_segm (segms sample_memory) 0x3000 = None" "find_segm (segms sample_memory) 0xfff = None"
    by (simp_all add: sample_memory_def IsAddrInSegment_def)
  then show ?thesis
    using unmapped_access [where c = "\<lparr>ndebug = True\<rparr>", of sample_memory "0x3000"]
      unmapped_access [where c = "\<lparr>ndebug = False\<rparr>", of sample_memory "0xfff"] by simp
qed

text \<open>
  An access whose first byte lies in a segment but whose last byte lies outside the
  segment's data copies out of bounds, even where the next segment continues the address
  range: only the first byte selects the segment.
\<close>

lemma straddling_access_out_of_bounds:
  assumes "find_segm (segms m) a = Some s" "length (data s) < unat (a - start_addr s) + 4"
  shows "LoadU32 c m a = ub OutOfBounds \<and> StoreU32 c m a v = ub OutOfBounds"
proof -
  obtain xs ys where xs: "segms m = xs @ s # ys" "\<forall>x\<in>set xs. \<not> IsAddrInSegment a x"
    "IsAddrInSegment a s" by (rule find_segm_Some [OF assms(1)])
  show ?thesis
    using assms Store_loop_hit [OF xs(2,3), of c ys v]
    by (simp add: LoadU32_def StoreU32_def Store_with_def Load_loop_eq memcpy_from_def memcpy_to_def
        xs(1) find_segm_skip [OF xs(2,3)] ub_def)
qed

lemma straddling_access_out_of_bounds_witness:
  "LoadU32 \<lparr>ndebug = False\<rparr> sample_memory 0x1005 = ub OutOfBounds"
proof -
  let ?s = "hd (segms sample_memory)"
  have "find_segm (segms sample_memory) 0x1005 = Some ?s"
    "length (data ?s) < unat ((0x1005 :: u32) - start_addr ?s) + 4"
    by (simp_all add: sample_memory_def IsAddrInSegment_def)
  then show ?thesis using straddling_access_out_of_bounds by blast
qed

text \<open>
  What \<open>CopyHostToGuest\<close> writes (the read system call), \<open>CopyGuestToHost\<close> brings back
  (the write system call), for every block whose addresses are all mapped, also across
  segments; bytes outside the block are unchanged.
\<close>

theorem guest_copy_roundtrip:
  assumes "mem_ok m" "length bs < 2 ^ 32" "length buf = length bs"
    and "\<forall>i < length bs. mem_mapped m (a + of_nat i)"
  shows "\<exists>m'. CopyHostToGuest c m a bs (length bs) = Inr m' \<and>
    CopyGuestToHost c m' a buf (length bs) = Inr bs \<and>
    (\<forall>b. length bs \<le> unat (b - a) \<longrightarrow> LoadU8 c m' b = LoadU8 c m b)"
proof -
  have r: "guest.range_mapped m a (length bs)" using assms(4) by (simp add: guest.range_mapped_def)
  then obtain m' where "write_range (StoreU8 c) m a bs = Inr m'"
    "read_range (LoadU8 c) m' a (length bs) = Inr bs"
    "\<forall>b. length bs \<le> unat (b - a) \<longrightarrow> LoadU8 c m' b = LoadU8 c m b"
    using guest.write_range_ok [OF assms(1) r, of c] assms(2) by auto
  then show ?thesis
    using assms(3) by (simp add: CopyHostToGuest_write_range CopyGuestToHost_read_range)
qed

lemma guest_copy_roundtrip_witness:
  "\<exists>m'. CopyHostToGuest \<lparr>ndebug = False\<rparr> sample_memory 0x1006 [65, 66] 2 = Inr m' \<and>
     CopyGuestToHost \<lparr>ndebug = False\<rparr> m' 0x1006 [0, 0] 2 = Inr [65, 66]"
proof -
  have "\<forall>i < length [65, 66 :: u8]. mem_mapped sample_memory (0x1006 + of_nat i)"
    by (simp add: less_Suc_eq mem_mapped_def accessible_def sample_memory_def IsAddrInSegment_def)
  then show ?thesis
    using guest_copy_roundtrip [OF sample_memory_ok, where bs = "[65, 66]" and buf = "[0, 0]" and a = "0x1006"
        and c = "\<lparr>ndebug = False\<rparr>"]
    by (auto simp flip: numeral_2_eq_2)
qed

end
