(* ===== verification/RV_Insn.thy ===== *)
theory RV_Insn
  imports RV_Defs
begin

text \<open>
  Instruction words and their fields: the accessors of \<open>RvInsn\<close> (\<open>isa/rv_insn.hpp\<close>),
  \<open>RvFInsn\<close> (\<open>isa/rvf_insn.hpp\<close>) and \<open>RvCSRInsn\<close> (\<open>isa/rv_csr_insn.hpp\<close>). An object of
  these classes is its \<open>raw_insn_\<close>. An \<open>int32_t\<close> result is the word with its bits, read as a
  number by \<open>sint\<close>. The lemmas give each immediate bit by bit, as the instruction formats of
  the RISC-V manual lay it out, and show that every immediate of a format can be encoded.
\<close>

section \<open>The accessors\<close>

definition SignExtend :: "u32 \<Rightarrow> nat \<Rightarrow> u32" where
  "SignExtend value bits =
     (let sign_bit = push_bit (bits - 1) 1;
          masked = value AND (push_bit bits 1 - 1);
          extended = (masked XOR sign_bit) - sign_bit
      in extended)"

definition Opcode :: "u32 \<Rightarrow> u32" where "Opcode raw_insn = raw_insn AND 0x7F"
definition Rd :: "u32 \<Rightarrow> u32" where "Rd raw_insn = drop_bit 7 raw_insn AND 0x1F"
definition Funct3 :: "u32 \<Rightarrow> u32" where "Funct3 raw_insn = drop_bit 12 raw_insn AND 0x7"
definition Rs1 :: "u32 \<Rightarrow> u32" where "Rs1 raw_insn = drop_bit 15 raw_insn AND 0x1F"
definition Rs2 :: "u32 \<Rightarrow> u32" where "Rs2 raw_insn = drop_bit 20 raw_insn AND 0x1F"
definition Funct7 :: "u32 \<Rightarrow> u32" where "Funct7 raw_insn = drop_bit 25 raw_insn AND 0x7F"
definition Shamt :: "u32 \<Rightarrow> u32" where "Shamt raw_insn = drop_bit 20 raw_insn AND 0x1F"

definition ImmI :: "u32 \<Rightarrow> u32" where
  "ImmI raw_insn = (let imm = drop_bit 20 raw_insn in SignExtend imm 12)"

definition ImmS :: "u32 \<Rightarrow> u32" where
  "ImmS raw_insn =
     (let low = drop_bit 7 raw_insn AND 0x1F;
          high = drop_bit 25 raw_insn AND 0x7F;
          imm = low OR push_bit 5 high
      in SignExtend imm 12)"

definition ImmB :: "u32 \<Rightarrow> u32" where
  "ImmB raw_insn =
     (let bit11 = drop_bit 7 raw_insn AND 0x1;
          bits4_1 = drop_bit 8 raw_insn AND 0xF;
          bits10_5 = drop_bit 25 raw_insn AND 0x3F;
          bit12 = drop_bit 31 raw_insn AND 0x1;
          imm = push_bit 12 bit12 OR push_bit 11 bit11 OR push_bit 5 bits10_5 OR push_bit 1 bits4_1
      in SignExtend imm 13)"

definition ImmU :: "u32 \<Rightarrow> u32" where
  "ImmU raw_insn = raw_insn AND 0xFFFFF000"

definition ImmJ :: "u32 \<Rightarrow> u32" where
  "ImmJ raw_insn =
     (let bit20 = drop_bit 31 raw_insn AND 0x1;
          bits10_1 = drop_bit 21 raw_insn AND 0x3FF;
          bit11 = drop_bit 20 raw_insn AND 0x1;
          bits19_12 = drop_bit 12 raw_insn AND 0xFF;
          imm = push_bit 20 bit20 OR push_bit 12 bits19_12 OR push_bit 11 bit11 OR push_bit 1 bits10_1
      in SignExtend imm 21)"

definition Rs3 :: "u32 \<Rightarrow> u32" where "Rs3 raw_insn = drop_bit 27 raw_insn AND 0x1F"
definition Rm :: "u32 \<Rightarrow> u32" where "Rm raw_insn = drop_bit 12 raw_insn AND 0x7"
definition Fmt :: "u32 \<Rightarrow> u32" where "Fmt raw_insn = drop_bit 25 raw_insn AND 0x3"
definition Funct5 :: "u32 \<Rightarrow> u32" where "Funct5 raw_insn = drop_bit 27 raw_insn AND 0x1F"

definition ImmCSR :: "u32 \<Rightarrow> u32" where "ImmCSR raw_insn = drop_bit 20 raw_insn"

section \<open>Fields are in range\<close>

lemma and_masks [field_simps_rv]:
  "(x :: u32) AND 1 = take_bit 1 x"
  "x AND 3 = take_bit 2 x"
  "x AND 7 = take_bit 3 x"
  "x AND 0xF = take_bit 4 x"
  "x AND 0x1F = take_bit 5 x"
  "x AND 0x3F = take_bit 6 x"
  "x AND 0x7F = take_bit 7 x"
  "x AND 0xFF = take_bit 8 x"
  "x AND 0x3FF = take_bit 10 x"
  by (simp_all add: take_bit_eq_mask mask_eq_exp_minus_1)

lemma take_bit_unat_less: "unat (take_bit n (x :: u32)) < 2 ^ n"
  by (simp add: unsigned_take_bit_eq)

lemma reg_fields_less [simp]:
  "unat (Rd w) < 32" "unat (Rs1 w) < 32" "unat (Rs2 w) < 32" "unat (Rs3 w) < 32"
  "unat (Shamt w) < 32"
  using take_bit_unat_less [of 5]
  by (simp_all add: Rd_def Rs1_def Rs2_def Rs3_def Shamt_def and_masks)

lemma Rm_less [simp]: "unat (Rm w) < 8"
  using take_bit_unat_less [of 3] by (simp add: Rm_def and_masks)

section \<open>Sign extension\<close>

lemma SignExtend_signed_take_bit:
  assumes "0 < n" "n < 32"
  shows "SignExtend v n = signed_take_bit (n - 1) v"
proof -
  obtain k where k: "n = Suc k" "k < 31" using assms by (cases n) auto
  have m: "push_bit n (1 :: u32) - 1 = mask n"
    by (simp add: mask_eq_exp_minus_1)
  have s: "push_bit k (1 :: u32) = 2 ^ k" by simp
  have e: "SignExtend v n = (take_bit (Suc k) v XOR 2 ^ k) - 2 ^ k"
    using k m unfolding SignExtend_def Let_def by (simp add: take_bit_eq_mask)
  show ?thesis
  proof (cases "bit v k")
    case True
    have x: "take_bit (Suc k) v XOR 2 ^ k = take_bit k v"
      using k True by (intro bit_word_eqI) (auto simp: bit_simps less_Suc_eq)
    have "take_bit k v - 2 ^ k = take_bit k v + NOT (mask k)"
      by (simp add: minus_exp_eq_not_mask [symmetric])
    also have "\<dots> = take_bit k v OR NOT (mask k)"
      by (rule disjunctive_add) (simp add: bit_simps)
    finally show ?thesis using e x True k
      by (simp add: signed_take_bit_def)
  next
    case False
    have x: "take_bit (Suc k) v XOR 2 ^ k = take_bit k v OR 2 ^ k"
      using k False by (intro bit_word_eqI) (auto simp: bit_simps less_Suc_eq)
    have "take_bit k v OR 2 ^ k = take_bit k v + 2 ^ k"
      by (rule disjunctive_add [symmetric]) (auto simp: bit_simps)
    then show ?thesis using e x False k
      by (simp add: signed_take_bit_def)
  qed
qed

lemma SignExtend_widths:
  "SignExtend v 12 = signed_take_bit 11 v"
  "SignExtend v 13 = signed_take_bit 12 v"
  "SignExtend v 21 = signed_take_bit 20 v"
  by (simp_all add: SignExtend_signed_take_bit)

lemmas imm_defs = ImmI_def ImmS_def ImmB_def ImmU_def ImmJ_def Let_def
  SignExtend_widths and_masks

section \<open>The immediates, bit by bit\<close>

lemma ImmI_bits: "bit (ImmI w) i \<longleftrightarrow> i < 32 \<and> bit w (20 + min i 11)"
  by (auto simp: imm_defs bit_simps min.commute)

lemma ImmS_bits:
  "bit (ImmS w) i \<longleftrightarrow> i < 32 \<and> (if i < 5 then bit w (i + 7) else bit w (20 + min i 11))"
  by (auto simp: imm_defs bit_simps min_def add.commute bit_word_outside)

lemma ImmU_bits: "bit (ImmU w) i \<longleftrightarrow> 12 \<le> i \<and> bit w i"
proof -
  have m: "(0xFFFFF000 :: u32) = push_bit 12 (mask 20)"
    by (simp add: push_bit_eq_mult mask_eq_exp_minus_1)
  have "i < 32" if "bit w i" using bit_imp_le_length [OF that] by simp
  then show ?thesis unfolding ImmU_def m by (auto simp: bit_simps)
qed

lemma ImmB_bits:
  "bit (ImmB w) i \<longleftrightarrow> i < 32 \<and>
     (if i = 0 then False else if i < 5 then bit w (i + 7)
      else if i < 11 then bit w (i + 20) else if i = 11 then bit w 7 else bit w 31)"
  unfolding imm_defs bit_simps by (auto simp: min_def bit_word_outside add.commute)

lemma ImmJ_bits:
  "bit (ImmJ w) i \<longleftrightarrow> i < 32 \<and>
     (if i = 0 then False else if i < 11 then bit w (i + 20)
      else if i = 11 then bit w 20 else if i < 20 then bit w i else bit w 31)"
  unfolding imm_defs bit_simps by (auto simp: min_def bit_word_outside add.commute)

lemma ImmB_even [simp]: "even (ImmB w)"
  by (simp add: even_word_bit0 ImmB_bits)

lemma ImmJ_even [simp]: "even (ImmJ w)"
  by (simp add: even_word_bit0 ImmJ_bits)

section \<open>Properties\<close>

text \<open>
  The encoders of the manual: the immediate \<open>v\<close> placed in the bits of its format, the other
  bits of the instruction taken from \<open>w\<close>.
\<close>

definition encode_I :: "u32 \<Rightarrow> u32 \<Rightarrow> u32" where
  "encode_I v w = push_bit 20 v OR take_bit 20 w"

definition encode_S :: "u32 \<Rightarrow> u32 \<Rightarrow> u32" where
  "encode_S v w = push_bit 25 (drop_bit 5 v) OR push_bit 7 (take_bit 5 v) OR
     (w AND NOT (push_bit 25 (mask 7)) AND NOT (push_bit 7 (mask 5)))"

definition encode_B :: "u32 \<Rightarrow> u32 \<Rightarrow> u32" where
  "encode_B v w = push_bit 31 (drop_bit 12 v) OR push_bit 25 (take_bit 6 (drop_bit 5 v)) OR
     push_bit 8 (take_bit 4 (drop_bit 1 v)) OR push_bit 7 (take_bit 1 (drop_bit 11 v)) OR
     (w AND NOT (push_bit 25 (mask 7)) AND NOT (push_bit 7 (mask 5)))"

definition encode_U :: "u32 \<Rightarrow> u32 \<Rightarrow> u32" where
  "encode_U v w = (v AND NOT (mask 12)) OR take_bit 12 w"

definition encode_J :: "u32 \<Rightarrow> u32 \<Rightarrow> u32" where
  "encode_J v w = push_bit 31 (drop_bit 20 v) OR push_bit 21 (take_bit 10 (drop_bit 1 v)) OR
     push_bit 20 (take_bit 1 (drop_bit 11 v)) OR push_bit 12 (take_bit 8 (drop_bit 12 v)) OR
     take_bit 12 w"

lemmas encode_defs = encode_I_def encode_S_def encode_B_def encode_U_def encode_J_def

text \<open>
  Each immediate reader inverts the encoding of its format, whatever the other bits of
  the instruction are: \<open>ImmI\<close> and \<open>ImmS\<close> return the encoded value sign-extended from 12
  bits, \<open>ImmB\<close> from 13 and \<open>ImmJ\<close> from 21 bits with bit 0 clear, \<open>ImmU\<close> its upper 20 bits.
\<close>

lemma immediates_invert_encoding:
  "ImmI (encode_I v w) = signed_take_bit 11 v \<and>
   ImmS (encode_S v w) = signed_take_bit 11 v \<and>
   ImmB (encode_B v w) = signed_take_bit 12 (unset_bit 0 v) \<and>
   ImmU (encode_U v w) = v AND NOT (mask 12) \<and>
   ImmJ (encode_J v w) = signed_take_bit 20 (unset_bit 0 v)"
proof (intro conjI)
  show "ImmI (encode_I v w) = signed_take_bit 11 v"
    by (rule bit_word_eqI) (auto simp: ImmI_bits encode_defs bit_simps min_def)
  show "ImmS (encode_S v w) = signed_take_bit 11 v"
    by (rule bit_word_eqI) (auto simp: ImmS_bits encode_defs bit_simps min_def)
  have odd: "even (drop_bit 11 v) \<longleftrightarrow> \<not> bit v 11" by (simp add: bit_iff_odd_drop_bit)
  show "ImmB (encode_B v w) = signed_take_bit 12 (unset_bit 0 v)"
    by (rule bit_word_eqI) (auto simp: ImmB_bits encode_defs bit_simps min_def odd)
  show "ImmU (encode_U v w) = v AND NOT (mask 12)"
    by (rule bit_word_eqI) (auto simp: ImmU_bits encode_defs bit_simps)
  show "ImmJ (encode_J v w) = signed_take_bit 20 (unset_bit 0 v)"
    by (rule bit_word_eqI) (auto simp: ImmJ_bits encode_defs bit_simps min_def odd)
qed

text \<open>
  The fields of an R-type instruction partition its bits: put back at their places they
  give the instruction word, so no bit is read twice or missed; the fields of the R4 type
  split \<open>Funct7\<close> in the same way.
\<close>

lemma fields_partition_word:
  "Opcode w OR push_bit 7 (Rd w) OR push_bit 12 (Funct3 w) OR push_bit 15 (Rs1 w) OR
     push_bit 20 (Rs2 w) OR push_bit 25 (Funct7 w) = w \<and>
   Rm w = Funct3 w \<and> Shamt w = Rs2 w \<and> Funct5 w = Rs3 w \<and>
   Fmt w OR push_bit 2 (Rs3 w) = Funct7 w \<and>
   Rs2 w OR push_bit 5 (Funct7 w) = ImmCSR w"
proof (intro conjI)
  show "Opcode w OR push_bit 7 (Rd w) OR push_bit 12 (Funct3 w) OR push_bit 15 (Rs1 w) OR
     push_bit 20 (Rs2 w) OR push_bit 25 (Funct7 w) = w"
  proof (rule bit_word_eqI)
    fix n :: nat
    have "n < 25 \<or> n = 25 + (n - 25)" by arith
    then show "bit (Opcode w OR push_bit 7 (Rd w) OR push_bit 12 (Funct3 w) OR push_bit 15 (Rs1 w) OR
        push_bit 20 (Rs2 w) OR push_bit 25 (Funct7 w)) n = bit w n" if "n < LENGTH(32)"
      using that
      by (auto simp: Opcode_def Rd_def Funct3_def Rs1_def Rs2_def Funct7_def and_masks bit_simps)
  qed
  show "Fmt w OR push_bit 2 (Rs3 w) = Funct7 w"
    by (rule bit_word_eqI)
      (auto simp: Fmt_def Rs3_def Funct7_def and_masks bit_simps bit_word_outside)
  have "bit w (20 + n) \<Longrightarrow> n < 12" for n using bit_imp_le_length [of w "20 + n"] by simp
  then show "Rs2 w OR push_bit 5 (Funct7 w) = ImmCSR w"
    by (intro bit_word_eqI) (fastforce simp: Rs2_def Funct7_def ImmCSR_def and_masks bit_simps)
qed (simp_all add: Rm_def Funct3_def Shamt_def Rs2_def Funct5_def Rs3_def)

end
