(* ===== verification/RV_Reg_Bank.thy ===== *)
theory RV_Reg_Bank
  imports RV_Prelude
begin

text \<open>
  The interface of a bank of registers, which the instruction callbacks reach through one
  getter and one setter: how many registers there are, which of them can be written, and what
  a read returns after a write. The lemma about whole sequences of writes is proved from these
  laws; the integer and the floating-point registers of the simulator are two banks.
\<close>

fun put_all :: "(nat \<Rightarrow> 'v \<Rightarrow> 's \<Rightarrow> 'e + 's) \<Rightarrow> (nat \<times> 'v) list \<Rightarrow> 's \<Rightarrow> 'e + 's" where
  "put_all put [] s = Inr s"
| "put_all put ((i, v) # ws) s = and_then (put i v s) (put_all put ws)"

text \<open>The value of the last write to register \<open>i\<close>, if there is one.\<close>

fun last_write :: "nat \<Rightarrow> (nat \<times> 'v) list \<Rightarrow> 'v option" where
  "last_write i [] = None"
| "last_write i ((j, v) # ws) =
     (case last_write i ws of Some w \<Rightarrow> Some w | None \<Rightarrow> if i = j then Some v else None)"

locale register_bank =
  fixes get :: "nat \<Rightarrow> 's \<Rightarrow> 'e + 'v"
    and put :: "nat \<Rightarrow> 'v \<Rightarrow> 's \<Rightarrow> 'e + 's"
    and ok :: "'s \<Rightarrow> bool"
    and num_regs :: nat
    and writable :: "nat \<Rightarrow> bool"
  assumes get_total: "ok s \<Longrightarrow> i < num_regs \<Longrightarrow> \<exists>v. get i s = Inr v"
    and put_total: "ok s \<Longrightarrow> i < num_regs \<Longrightarrow> \<exists>s'. put i v s = Inr s'"
    and put_ok: "ok s \<Longrightarrow> i < num_regs \<Longrightarrow> put i v s = Inr s' \<Longrightarrow> ok s'"
    and get_put_same:
      "ok s \<Longrightarrow> i < num_regs \<Longrightarrow> put i v s = Inr s' \<Longrightarrow> writable i \<Longrightarrow> get i s' = Inr v"
    and get_put_other:
      "ok s \<Longrightarrow> i < num_regs \<Longrightarrow> put i v s = Inr s' \<Longrightarrow> j \<noteq> i \<or> \<not> writable i \<Longrightarrow> get j s' = get j s"
begin

lemma put_all_total:
  assumes "ok s" "\<forall>(i, v) \<in> set ws. i < num_regs"
  shows "\<exists>s'. put_all put ws s = Inr s' \<and> ok s'"
  using assms
proof (induction ws arbitrary: s)
  case Nil
  then show ?case by simp
next
  case (Cons w ws)
  obtain i v where w: "w = (i, v)" by (cases w)
  then have i: "i < num_regs" using Cons.prems by auto
  obtain s1 where s1: "put i v s = Inr s1" using put_total [OF Cons.prems(1) i] by blast
  have "ok s1" using put_ok [OF Cons.prems(1) i s1] .
  then show ?case using Cons s1 w by simp
qed

lemma get_put_all:
  assumes "ok s" "\<forall>(i, v) \<in> set ws. i < num_regs" "put_all put ws s = Inr s'"
  shows "get j s' = (case last_write j ws of Some v \<Rightarrow> if writable j then Inr v else get j s
    | None \<Rightarrow> get j s)"
  using assms
proof (induction ws arbitrary: s)
  case Nil
  then show ?case by simp
next
  case (Cons w ws)
  obtain i v where w: "w = (i, v)" by (cases w)
  then have i: "i < num_regs" using Cons.prems by auto
  obtain s1 where s1: "put i v s = Inr s1" "put_all put ws s1 = Inr s'"
    using Cons.prems(3) w by (auto elim: and_then_InrE)
  have "ok s1" using put_ok [OF Cons.prems(1) i s1(1)] .
  moreover have "get j s1 = (if j = i \<and> writable j then Inr v else get j s)"
    using get_put_same [OF Cons.prems(1) i s1(1)] get_put_other [OF Cons.prems(1) i s1(1)] by auto
  ultimately show ?case using Cons.IH [of s1] Cons.prems(2) s1(2) w
    by (auto split: option.splits)
qed

lemma get_unwritable:
  assumes "ok s" "\<forall>(i, v) \<in> set ws. i < num_regs" "put_all put ws s = Inr s'" "\<not> writable j"
  shows "get j s' = get j s"
  using get_put_all [OF assms(1-3)] assms(4) by (simp split: option.splits)

end

end
