(* ===== verification/RV_Sim.thy ===== *)
theory RV_Sim
  imports RV_Memory RV_Insn RV_Reg_Bank
begin

text \<open>
  The state of the simulator, \<open>RVSim\<close> of \<open>sim/rv_sim.hpp\<close>, and its accessors: the integer
  and floating-point registers, the floating-point control and status register with its two
  sub-fields, the instruction pointer. \<open>machine\<close> adds what lies outside the class and still
  changes while a program runs: the two global variables of SoftFloat and the state of the
  host that the system calls act on. \<open>env\<close> holds the parameters of the model: the build
  configuration, the SoftFloat library and the host's \<open>read\<close> and \<open>write\<close>.
\<close>

section \<open>State\<close>

record rvsim =
  memory :: Memory
  ip :: u32
  should_stop :: bool
  xregs :: "u32 list"
  fregs :: "u32 list"
  fcsr :: u32

record 'w machine = rvsim +
  softfloat_roundingMode :: u8
  softfloat_exceptionFlags :: u8
  host :: 'w

text \<open>
  SoftFloat is not part of the repository. Its operations are parameters: each takes the
  rounding mode the library reads from its global variable (where it does) and the operands,
  and returns the result with the exception flags it raises, which the library ORs into its
  global flags. The five rounding-mode codes are the constants of \<open>softfloat.h\<close>.

  \<open>host_read\<close> takes the descriptor, the buffer and the host state and returns the result of
  \<open>read\<close> (an \<open>ssize_t\<close>, two's complement in 64 bits), the buffer afterwards and the host
  state; \<open>host_write\<close> takes the bytes to write.
\<close>

record 'w env = config +
  softfloat_round_near_even :: u8
  softfloat_round_minMag :: u8
  softfloat_round_min :: u8
  softfloat_round_max :: u8
  softfloat_round_near_maxMag :: u8
  f32_add :: "u8 \<Rightarrow> u32 \<Rightarrow> u32 \<Rightarrow> u32 \<times> u8"
  f32_sub :: "u8 \<Rightarrow> u32 \<Rightarrow> u32 \<Rightarrow> u32 \<times> u8"
  f32_mul :: "u8 \<Rightarrow> u32 \<Rightarrow> u32 \<Rightarrow> u32 \<times> u8"
  f32_div :: "u8 \<Rightarrow> u32 \<Rightarrow> u32 \<Rightarrow> u32 \<times> u8"
  f32_sqrt :: "u8 \<Rightarrow> u32 \<Rightarrow> u32 \<times> u8"
  f32_mulAdd :: "u8 \<Rightarrow> u32 \<Rightarrow> u32 \<Rightarrow> u32 \<Rightarrow> u32 \<times> u8"
  f32_le :: "u32 \<Rightarrow> u32 \<Rightarrow> bool \<times> u8"
  f32_lt :: "u32 \<Rightarrow> u32 \<Rightarrow> bool \<times> u8"
  f32_eq :: "u32 \<Rightarrow> u32 \<Rightarrow> bool \<times> u8"
  f32_to_i32 :: "u32 \<Rightarrow> u8 \<Rightarrow> bool \<Rightarrow> u32 \<times> u8"
  f32_to_ui32 :: "u32 \<Rightarrow> u8 \<Rightarrow> bool \<Rightarrow> u32 \<times> u8"
  i32_to_f32 :: "u8 \<Rightarrow> u32 \<Rightarrow> u32 \<times> u8"
  ui32_to_f32 :: "u8 \<Rightarrow> u32 \<Rightarrow> u32 \<times> u8"
  f32_isSignalingNaN :: "u32 \<Rightarrow> bool"
  host_read :: "u32 \<Rightarrow> u8 list \<Rightarrow> 'w \<Rightarrow> u64 \<times> u8 list \<times> 'w"
  host_write :: "u32 \<Rightarrow> u8 list \<Rightarrow> 'w \<Rightarrow> u64 \<times> 'w"

section \<open>Accessors\<close>

definition SetXReg ::
  "'z config_scheme \<Rightarrow> nat \<Rightarrow> u32 \<Rightarrow> 'm rvsim_scheme \<Rightarrow> error + 'm rvsim_scheme" where
  "SetXReg c index value s =
     and_then (cassert c ''index < isa::kNumXRegisters'' (index < kNumXRegisters)) (\<lambda>_.
     if index = XReg_FromEnum X_zero then Inr s
     else and_then (array_set (xregs s) index value) (\<lambda>xs. Inr (s\<lparr>xregs := xs\<rparr>)))"

definition GetXReg :: "'z config_scheme \<Rightarrow> nat \<Rightarrow> 'm rvsim_scheme \<Rightarrow> error + u32" where
  "GetXReg c index s =
     and_then (cassert c ''index < isa::kNumXRegisters'' (index < kNumXRegisters)) (\<lambda>_.
     if index = XReg_FromEnum X_zero then Inr 0 else array_get (xregs s) index)"

definition SetFReg ::
  "'z config_scheme \<Rightarrow> nat \<Rightarrow> u32 \<Rightarrow> 'm rvsim_scheme \<Rightarrow> error + 'm rvsim_scheme" where
  "SetFReg c index value s =
     and_then (cassert c ''index < isa::kNumFRegisters'' (index < kNumFRegisters)) (\<lambda>_.
     and_then (array_set (fregs s) index value) (\<lambda>xs. Inr (s\<lparr>fregs := xs\<rparr>)))"

definition GetFReg :: "'z config_scheme \<Rightarrow> nat \<Rightarrow> 'm rvsim_scheme \<Rightarrow> error + u32" where
  "GetFReg c index s =
     and_then (cassert c ''index < isa::kNumFRegisters'' (index < kNumFRegisters)) (\<lambda>_.
     array_get (fregs s) index)"

definition SetCSR ::
  "'z config_scheme \<Rightarrow> nat \<Rightarrow> u32 \<Rightarrow> 'm rvsim_scheme \<Rightarrow> error + 'm rvsim_scheme" where
  "SetCSR c index value s =
     (case CSR_ToEnum index of
        Some fflags \<Rightarrow> Inr (s\<lparr>fcsr := (fcsr s AND NOT 0x1f) OR (value AND 0x1f)\<rparr>)
      | Some frm \<Rightarrow>
          Inr (s\<lparr>fcsr := (fcsr s AND NOT (push_bit 5 0x7)) OR push_bit 5 (value AND 0x7)\<rparr>)
      | Some fcsr_csr \<Rightarrow> Inr (s\<lparr>fcsr := value AND 0xff\<rparr>)
      | None \<Rightarrow> and_then (cassert c ''unknown csr'' False) (\<lambda>_. Inr s))"

definition GetCSR :: "'z config_scheme \<Rightarrow> nat \<Rightarrow> 'm rvsim_scheme \<Rightarrow> error + u32" where
  "GetCSR c index s =
     (case CSR_ToEnum index of
        Some fflags \<Rightarrow> Inr (fcsr s AND 0x1f)
      | Some frm \<Rightarrow> Inr (drop_bit 5 (fcsr s) AND 0x7)
      | Some fcsr_csr \<Rightarrow> Inr (fcsr s AND 0xff)
      | None \<Rightarrow> and_then (cassert c ''unknown csr'' False) (\<lambda>_. Inr 0))"

definition GetRM :: "'z config_scheme \<Rightarrow> u32 \<Rightarrow> 'm rvsim_scheme \<Rightarrow> error + RoundingMode" where
  "GetRM c rm s =
     (if RM_ToEnum rm = DYN
      then and_then (GetCSR c (CSR_FromEnum frm) s) (\<lambda>v. Inr (RM_ToEnum v))
      else Inr (RM_ToEnum rm))"

definition Step :: "'m rvsim_scheme \<Rightarrow> 'm rvsim_scheme" where
  "Step s = s\<lparr>ip := ip s + kStepSize\<rparr>"

section \<open>Well-formed states\<close>

text \<open>
  Both register files have their 32 entries, \<open>x0\<close> holds 0, and the bits of \<open>fcsr\<close> above
  the eight defined ones are clear.
\<close>

definition sim_ok :: "'m rvsim_scheme \<Rightarrow> bool" where
  "sim_ok s \<longleftrightarrow> length (xregs s) = kNumXRegisters \<and> length (fregs s) = kNumFRegisters \<and>
     xregs s ! 0 = 0 \<and> fcsr s < 256"

text \<open>The registers of a well-formed state as total functions, and their updates.\<close>

definition xreg :: "'m rvsim_scheme \<Rightarrow> nat \<Rightarrow> u32" where
  "xreg s i = (if i = 0 then 0 else xregs s ! i)"

definition xput :: "nat \<Rightarrow> u32 \<Rightarrow> 'm rvsim_scheme \<Rightarrow> 'm rvsim_scheme" where
  "xput i v s = (if i = 0 then s else s\<lparr>xregs := (xregs s)[i := v]\<rparr>)"

definition freg :: "'m rvsim_scheme \<Rightarrow> nat \<Rightarrow> u32" where
  "freg s i = fregs s ! i"

definition fput :: "nat \<Rightarrow> u32 \<Rightarrow> 'm rvsim_scheme \<Rightarrow> 'm rvsim_scheme" where
  "fput i v s = s\<lparr>fregs := (fregs s)[i := v]\<rparr>"

lemma sim_ok_lengths [simp]:
  "sim_ok s \<Longrightarrow> length (xregs s) = 32" "sim_ok s \<Longrightarrow> length (fregs s) = 32"
  "sim_ok s \<Longrightarrow> xregs s ! 0 = 0"
  by (simp_all add: sim_ok_def kNumXRegisters_def kNumFRegisters_def)

lemma GetXReg_ok [simp]: "sim_ok s \<Longrightarrow> i < 32 \<Longrightarrow> GetXReg c i s = Inr (xreg s i)"
  by (simp add: GetXReg_def xreg_def kNumXRegisters_def)

lemma SetXReg_ok [simp]: "sim_ok s \<Longrightarrow> i < 32 \<Longrightarrow> SetXReg c i v s = Inr (xput i v s)"
  by (simp add: SetXReg_def xput_def kNumXRegisters_def)

lemma GetFReg_ok [simp]: "sim_ok s \<Longrightarrow> i < 32 \<Longrightarrow> GetFReg c i s = Inr (freg s i)"
  by (simp add: GetFReg_def freg_def kNumFRegisters_def)

lemma SetFReg_ok [simp]: "sim_ok s \<Longrightarrow> i < 32 \<Longrightarrow> SetFReg c i v s = Inr (fput i v s)"
  by (simp add: SetFReg_def fput_def kNumFRegisters_def)

lemma sim_ok_updates [simp]:
  "sim_ok s \<Longrightarrow> sim_ok (xput i v s)"
  "sim_ok s \<Longrightarrow> sim_ok (fput i v s)"
  "sim_ok (Step s) = sim_ok s"
  "sim_ok (s\<lparr>ip := a\<rparr>) = sim_ok s"
  "sim_ok (s\<lparr>memory := m\<rparr>) = sim_ok s"
  "sim_ok (s\<lparr>should_stop := b\<rparr>) = sim_ok s"
  by (auto simp: sim_ok_def xput_def fput_def Step_def nth_list_update simp del: sim_ok_lengths)

lemma sim_ok_machine_updates [simp]:
  "sim_ok (t\<lparr>softfloat_roundingMode := r\<rparr>) = sim_ok t"
  "sim_ok (t\<lparr>softfloat_exceptionFlags := r\<rparr>) = sim_ok t"
  "sim_ok (t\<lparr>host := w\<rparr>) = sim_ok t"
  by (auto simp: sim_ok_def simp del: sim_ok_lengths)

lemma sim_ok_fcsr: "sim_ok s \<Longrightarrow> w < 256 \<Longrightarrow> sim_ok (s\<lparr>fcsr := w\<rparr>)"
  by (simp add: sim_ok_def del: sim_ok_lengths)

lemma xput_other_fields [simp]:
  "memory (xput i v s) = memory s" "ip (xput i v s) = ip s" "should_stop (xput i v s) = should_stop s"
  "fregs (xput i v s) = fregs s" "fcsr (xput i v s) = fcsr s"
  by (simp_all add: xput_def)

lemma fput_other_fields [simp]:
  "memory (fput i v s) = memory s" "ip (fput i v s) = ip s" "should_stop (fput i v s) = should_stop s"
  "xregs (fput i v s) = xregs s" "fcsr (fput i v s) = fcsr s"
  by (simp_all add: fput_def)

lemma Step_fields [simp]:
  "memory (Step s) = memory s" "ip (Step s) = ip s + 4" "should_stop (Step s) = should_stop s"
  "xregs (Step s) = xregs s" "fregs (Step s) = fregs s" "fcsr (Step s) = fcsr s"
  by (simp_all add: Step_def kStepSize_def)

lemma put_machine_fields [simp]:
  "softfloat_roundingMode (xput i v t) = softfloat_roundingMode t"
  "softfloat_exceptionFlags (xput i v t) = softfloat_exceptionFlags t" "host (xput i v t) = host t"
  "softfloat_roundingMode (fput i v t) = softfloat_roundingMode t"
  "softfloat_exceptionFlags (fput i v t) = softfloat_exceptionFlags t" "host (fput i v t) = host t"
  "softfloat_roundingMode (Step t) = softfloat_roundingMode t"
  "softfloat_exceptionFlags (Step t) = softfloat_exceptionFlags t" "host (Step t) = host t"
  by (simp_all add: xput_def fput_def Step_def)

lemma xreg_0 [simp]: "xreg s 0 = 0"
  by (simp add: xreg_def)

lemma xreg_xput [simp]:
  "sim_ok s \<Longrightarrow> i < 32 \<Longrightarrow> xreg (xput i v s) j = (if j = i \<and> i \<noteq> 0 then v else xreg s j)"
  by (auto simp: xreg_def xput_def nth_list_update)

lemma freg_fput [simp]:
  "sim_ok s \<Longrightarrow> i < 32 \<Longrightarrow> freg (fput i v s) j = (if j = i then v else freg s j)"
  by (auto simp: freg_def fput_def nth_list_update)

lemma reg_other_updates [simp]:
  "xreg (Step s) j = xreg s j" "freg (Step s) j = freg s j"
  "xreg (fput i v s) j = xreg s j" "freg (xput i v s) j = freg s j"
  "xreg (s\<lparr>ip := a\<rparr>) j = xreg s j" "xreg (s\<lparr>memory := m\<rparr>) j = xreg s j"
  "freg (s\<lparr>ip := a\<rparr>) j = freg s j" "freg (s\<lparr>memory := m\<rparr>) j = freg s j"
  "xreg (s\<lparr>fcsr := w\<rparr>) j = xreg s j" "freg (s\<lparr>fcsr := w\<rparr>) j = freg s j"
  "xreg (s\<lparr>should_stop := b\<rparr>) j = xreg s j" "freg (s\<lparr>should_stop := b\<rparr>) j = freg s j"
  by (simp_all add: xreg_def freg_def)

section \<open>The two register banks\<close>

interpretation xbank: register_bank "GetXReg c" "SetXReg c" sim_ok 32 "\<lambda>i. i \<noteq> 0"
  for c :: "'z config_scheme"
proof
  fix s s' :: "'m rvsim_scheme" and i j :: nat and v :: u32
  assume s: "sim_ok s" and i: "i < 32"
  show "\<exists>v. GetXReg c i s = Inr v" "\<exists>s'. SetXReg c i v s = Inr s'" using s i by simp_all
  assume p: "SetXReg c i v s = Inr s'"
  then have s': "s' = xput i v s" using s i by simp
  show "sim_ok s'" using s s' by simp
  show "GetXReg c i s' = Inr v" if "i \<noteq> 0" using s i s' that by simp
  show "GetXReg c j s' = GetXReg c j s" if "j \<noteq> i \<or> \<not> i \<noteq> 0"
    using that unfolding s' by (auto simp: GetXReg_def xput_def array_get_def)
qed

interpretation fbank: register_bank "GetFReg c" "SetFReg c" sim_ok 32 "\<lambda>i. True"
  for c :: "'z config_scheme"
proof
  fix s s' :: "'m rvsim_scheme" and i j :: nat and v :: u32
  assume s: "sim_ok s" and i: "i < 32"
  show "\<exists>v. GetFReg c i s = Inr v" "\<exists>s'. SetFReg c i v s = Inr s'" using s i by simp_all
  assume p: "SetFReg c i v s = Inr s'"
  then have s': "s' = fput i v s" using s i by simp
  show "sim_ok s'" using s s' by simp
  show "GetFReg c i s' = Inr v" using s i s' by simp
  show "GetFReg c j s' = GetFReg c j s" if "j \<noteq> i \<or> \<not> True"
    using that unfolding s' by (auto simp: GetFReg_def fput_def array_get_def)
qed

section \<open>The control and status register\<close>

text \<open>The three registers as reads and writes of the bits of \<open>fcsr\<close>.\<close>

fun csr_bits :: "CSR \<Rightarrow> nat" where
  "csr_bits fflags = 5"
| "csr_bits frm = 3"
| "csr_bits fcsr_csr = 8"

fun csr_read :: "CSR \<Rightarrow> u32 \<Rightarrow> u32" where
  "csr_read fflags w = take_bit 5 w"
| "csr_read frm w = take_bit 3 (drop_bit 5 w)"
| "csr_read fcsr_csr w = take_bit 8 w"

fun csr_write :: "CSR \<Rightarrow> u32 \<Rightarrow> u32 \<Rightarrow> u32" where
  "csr_write fflags v w = (w AND NOT (mask 5)) OR take_bit 5 v"
| "csr_write frm v w = (w AND NOT (push_bit 5 (mask 3))) OR push_bit 5 (take_bit 3 v)"
| "csr_write fcsr_csr v w = take_bit 8 v"

lemma GetCSR_known: "CSR_ToEnum i = Some r \<Longrightarrow> GetCSR c i s = Inr (csr_read r (fcsr s))"
  by (cases r) (simp_all add: GetCSR_def and_masks)

lemma SetCSR_known:
  "CSR_ToEnum i = Some r \<Longrightarrow> SetCSR c i v s = Inr (s\<lparr>fcsr := csr_write r v (fcsr s)\<rparr>)"
proof -
  have m: "(0x1f :: u32) = mask 5" "(7 :: u32) = mask 3" "(0xff :: u32) = mask 8"
    by (simp_all add: mask_eq_exp_minus_1)
  show "CSR_ToEnum i = Some r \<Longrightarrow> SetCSR c i v s = Inr (s\<lparr>fcsr := csr_write r v (fcsr s)\<rparr>)"
    unfolding m SetCSR_def by (cases r) (simp_all add: take_bit_eq_mask)
qed

lemma csr_read_write [simp]: "csr_read r (csr_write r v w) = take_bit (csr_bits r) v"
  by (cases r) (simp_all, (rule bit_word_eqI, auto simp: bit_simps)+)

lemma less_256_take_bit: "(w :: u32) < 256 \<longleftrightarrow> take_bit 8 w = w"
  by (simp add: word_eq_iff_unsigned [where 'a = nat] unsigned_take_bit_eq take_bit_nat_eq_self_iff word_less_nat_alt)

lemma csr_write_read [simp]:
  assumes "w < 256"
  shows "csr_write r (csr_read r w) w = w"
proof -
  have "bit w i \<Longrightarrow> i < 8" for i
    using assms unfolding less_256_take_bit by (metis bit_take_bit_iff)
  then show ?thesis
    by (cases r) (simp_all, (rule bit_word_eqI, auto simp: bit_simps)+)
qed

lemma csr_write_below:
  assumes "w < 256"
  shows "csr_write r v w < 256"
proof -
  have "bit w i \<Longrightarrow> i < 8" for i
    using assms unfolding less_256_take_bit by (metis bit_take_bit_iff)
  then show ?thesis unfolding less_256_take_bit
    by (cases r) (simp_all, (rule bit_word_eqI, auto simp: bit_simps)+)
qed

lemma csr_views_apart [simp]:
  "csr_read frm (csr_write fflags v w) = csr_read frm w"
  "csr_read fflags (csr_write frm v w) = csr_read fflags w"
  by (simp_all, (rule bit_word_eqI, auto simp: bit_simps)+)

lemma fcsr_composed:
  "csr_read fcsr_csr w = push_bit 5 (csr_read frm w) OR csr_read fflags w"
  by simp (rule bit_word_eqI, auto simp: bit_simps)

section \<open>Properties\<close>

text \<open>
  A concrete environment and state for the instances: the host is the bytes written so far,
  the SoftFloat parameters are simple functions on the bits.
\<close>

definition sample_env :: "bool \<Rightarrow> u8 list env" where
  "sample_env release_build =
     \<lparr>ndebug = release_build,
      softfloat_round_near_even = 0, softfloat_round_minMag = 1, softfloat_round_min = 2,
      softfloat_round_max = 3, softfloat_round_near_maxMag = 4,
      f32_add = (\<lambda>rm a b. (a + b, rm)), f32_sub = (\<lambda>rm a b. (a - b, rm)),
      f32_mul = (\<lambda>rm a b. (a * b, rm)), f32_div = (\<lambda>rm a b. (a, 8)),
      f32_sqrt = (\<lambda>rm a. (a, 16)), f32_mulAdd = (\<lambda>rm a b d. (a * b + d, rm)),
      f32_le = (\<lambda>a b. (a \<le> b, 16)), f32_lt = (\<lambda>a b. (a < b, 16)), f32_eq = (\<lambda>a b. (a = b, 0)),
      f32_to_i32 = (\<lambda>a rm exact. (a, rm)), f32_to_ui32 = (\<lambda>a rm exact. (a, rm)),
      i32_to_f32 = (\<lambda>rm a. (a, rm)), ui32_to_f32 = (\<lambda>rm a. (a, rm)),
      f32_isSignalingNaN = (\<lambda>a. \<not> bit a 22),
      host_read = (\<lambda>fd buf w. let n = min (length buf) (length w)
        in (of_nat n, take n w @ drop n buf, drop n w)),
      host_write = (\<lambda>fd bs w. (of_nat (length bs), w @ bs))\<rparr>"

definition sample_machine :: "u8 list machine" where
  "sample_machine =
     \<lparr>memory = sample_memory, ip = 0x1000, should_stop = False,
      xregs = map of_nat [0..<32], fregs = replicate 32 0x3f800000, fcsr = 0x60,
      softfloat_roundingMode = 0, softfloat_exceptionFlags = 0, host = []\<rparr>"

lemma sample_machine_ok: "sim_ok sample_machine"
  by (simp add: sim_ok_def sample_machine_def kNumXRegisters_def kNumFRegisters_def del: sim_ok_lengths)

lemma sample_machine_fields [simp]:
  "fcsr sample_machine = 0x60" "ip sample_machine = 0x1000" "memory sample_machine = sample_memory"
  "softfloat_roundingMode sample_machine = 0" "softfloat_exceptionFlags sample_machine = 0"
  "host sample_machine = []" "should_stop sample_machine = False"
  by (simp_all add: sample_machine_def)

lemma sample_machine_regs: "i < 32 \<Longrightarrow> xreg sample_machine i = of_nat i" "i < 32 \<Longrightarrow> freg sample_machine i = 0x3f800000"
  by (simp_all add: sample_machine_def xreg_def freg_def)

text \<open>
  After any sequence of writes to the integer registers, reading register \<open>j\<close> returns the
  last value written to it, or its old value if there was none; register \<open>x0\<close> always reads 0
  and ignores writes. The writes all succeed, in both builds.
\<close>

theorem xregs_return_last_write:
  assumes "sim_ok s" "list_all (\<lambda>(i, v). i < 32) ws" "j < 32"
  shows "\<exists>s'. put_all (SetXReg c) ws s = Inr s' \<and> sim_ok s' \<and>
    GetXReg c j s' =
      (if j = 0 then Inr 0
       else case last_write j ws of Some v \<Rightarrow> Inr v | None \<Rightarrow> GetXReg c j s)"
proof -
  have ws: "\<forall>(i, v)\<in>set ws. i < 32" using assms(2) by (auto simp: list_all_iff)
  obtain s' where s': "put_all (SetXReg c) ws s = Inr s'" "sim_ok s'"
    using xbank.put_all_total [OF assms(1) ws] by blast
  have "GetXReg c 0 s' = Inr 0" using s'(2) by simp
  then show ?thesis
    using s' xbank.get_put_all [OF assms(1) ws s'(1), of j] by (auto split: option.splits)
qed

lemma xregs_return_last_write_witness:
  "\<exists>s'. put_all (SetXReg \<lparr>ndebug = False\<rparr>) [(5, 7), (0, 9), (5, 8)] sample_machine = Inr s' \<and>
     GetXReg \<lparr>ndebug = False\<rparr> 5 s' = Inr 8"
  using xregs_return_last_write [OF sample_machine_ok, where ws = "[(5, 7), (0, 9), (5, 8)]" and j = 5
      and c = "\<lparr>ndebug = False\<rparr>"] by auto

text \<open>
  \<open>fflags\<close>, \<open>frm\<close> and \<open>fcsr\<close> are three views of one register. Reading a view returns the
  low bits last written to it; writing \<open>fflags\<close> leaves \<open>frm\<close> and writing \<open>frm\<close> leaves
  \<open>fflags\<close>; \<open>fcsr\<close> is \<open>frm\<close> above \<open>fflags\<close>; writing back what was read changes nothing,
  and the bits above the eight defined ones stay clear.
\<close>

lemma csr_views:
  assumes "sim_ok s" "SetCSR c (CSR_FromEnum r) v s = Inr s'"
  shows "GetCSR c (CSR_FromEnum r) s' = Inr (take_bit (csr_bits r) v) \<and>
    (r = fflags \<longrightarrow> GetCSR c (CSR_FromEnum frm) s' = GetCSR c (CSR_FromEnum frm) s) \<and>
    (r = frm \<longrightarrow> GetCSR c (CSR_FromEnum fflags) s' = GetCSR c (CSR_FromEnum fflags) s) \<and>
    GetCSR c (CSR_FromEnum fcsr_csr) s' =
      and_then (GetCSR c (CSR_FromEnum frm) s') (\<lambda>hi. and_then (GetCSR c (CSR_FromEnum fflags) s')
        (\<lambda>lo. Inr (push_bit 5 hi OR lo))) \<and>
    and_then (GetCSR c (CSR_FromEnum r) s) (\<lambda>old. SetCSR c (CSR_FromEnum r) old s) = Inr s \<and>
    sim_ok s'"
proof -
  note known = GetCSR_known [OF CSR_ToEnum_FromEnum] SetCSR_known [OF CSR_ToEnum_FromEnum]
  have s': "s' = s\<lparr>fcsr := csr_write r v (fcsr s)\<rparr>" using assms(2) by (simp add: known)
  have below: "fcsr s < 256" using assms(1) by (simp add: sim_ok_def del: sim_ok_lengths)
  show ?thesis
    using sim_ok_fcsr [OF assms(1) csr_write_below [OF below], of r v] fcsr_composed [of "fcsr s'"]
    unfolding s' known by (simp add: csr_write_read [OF below] del: csr_read.simps csr_write.simps)
qed

lemma csr_views_witness:
  "\<exists>s'. SetCSR \<lparr>ndebug = False\<rparr> 2 5 sample_machine = Inr s' \<and> GetCSR \<lparr>ndebug = False\<rparr> 2 s' = Inr 5"
proof -
  obtain s' where s': "SetCSR \<lparr>ndebug = False\<rparr> (CSR_FromEnum frm) 5 sample_machine = Inr s'"
    by (simp add: SetCSR_def CSR_ToEnum_def)
  have "take_bit 3 (5 :: u32) = 5" by (simp add: take_bit_eq_mod)
  then show ?thesis using s' csr_views [OF sample_machine_ok s'] by simp
qed

end
