(* ===== verification/RV_Mnemonics.thy ===== *)
theory RV_Mnemonics
  imports RV_Prelude
begin

text \<open>
  \<open>isa::InsnMnemonic\<close> of \<open>isa/mnemonics.hpp\<close> and the instruction tables it is generated
  from. The enumeration is the list of \<open>MNEMONIC\<close> lines of \<open>isa_ext.inc\<close>, which includes
  one \<open>.inc\<close> file per extension, so there is one datatype and one list of entries per
  extension here. The enumerators \<open>AND\<close>, \<open>OR\<close>, \<open>XOR\<close>, \<open>MIN\<close> and \<open>MAX\<close> carry the
  suffix \<open>_insn\<close>, since HOL reserves these words. \<open>MnemonicToStr\<close> (\<open>isa/mnemonics.cpp\<close>)
  is the switch over the same lines that gives the name the log shows.
\<close>

datatype ext_i_mnem =
    LUI | AUIPC | JAL | JALR | BEQ | BNE | BLT | BGE | BLTU | BGEU | LB | LH | LW | LBU
    | LHU | SB | SH | SW | ADDI | SLTI | SLTIU | XORI | ORI | ANDI | SLLI | SRLI | SRAI
    | ADD | SUB | SLL | SLT | SLTU | XOR_insn | SRL | SRA | OR_insn | AND_insn | FENCE
    | FENCE_I | ECALL | EBREAK

datatype ext_m_mnem =
    MUL | MULH | MULHSU | MULHU | DIV | DIVU | REM | REMU

datatype ext_zbb_mnem =
    ANDN | ORN | XNOR | MIN_insn | MINU | MAX_insn | MAXU | SEXT_B | SEXT_H | ZEXT_H | CLZ
    | CTZ | CPOP | ROL | ROR | RORI | REV8 | ORC_B

datatype ext_zicsr_mnem =
    CSRRW | CSRRS | CSRRC | CSRRWI | CSRRSI | CSRRCI

datatype ext_f_mnem =
    FLW | FSW | FADD_S | FSUB_S | FMUL_S | FDIV_S | FSQRT_S | FMADD_S | FMSUB_S | FNMSUB_S
    | FNMADD_S | FSGNJ_S | FSGNJN_S | FSGNJX_S | FMIN_S | FMAX_S | FLE_S | FLT_S | FEQ_S
    | FCVT_W_S | FCVT_WU_S | FCVT_S_W | FCVT_S_WU | FMV_X_W | FCLASS_S | FMV_W_X

datatype InsnMnemonic =
    Ext_I ext_i_mnem | Ext_M ext_m_mnem | Ext_Zbb ext_zbb_mnem
  | Ext_Zicsr ext_zicsr_mnem | Ext_F ext_f_mnem | kCount | kInvalid

text \<open>An entry of the table: the name, the bits that are compared, and their values.\<close>

record InsnEntry =
  mnem :: InsnMnemonic
  insn_mask :: u32
  insn_match :: u32

abbreviation MNEMONIC :: "InsnMnemonic \<Rightarrow> u32 \<Rightarrow> u32 \<Rightarrow> InsnEntry" where
  "MNEMONIC name m v \<equiv> \<lparr>mnem = name, insn_mask = m, insn_match = v\<rparr>"

definition ext_i_inc :: "InsnEntry list" where
  "ext_i_inc = [
     MNEMONIC (Ext_I LUI) 0x0000007f 0x00000037,
     MNEMONIC (Ext_I AUIPC) 0x0000007f 0x00000017,
     MNEMONIC (Ext_I JAL) 0x0000007f 0x0000006f,
     MNEMONIC (Ext_I JALR) 0x0000707f 0x00000067,
     MNEMONIC (Ext_I BEQ) 0x0000707f 0x00000063,
     MNEMONIC (Ext_I BNE) 0x0000707f 0x00001063,
     MNEMONIC (Ext_I BLT) 0x0000707f 0x00004063,
     MNEMONIC (Ext_I BGE) 0x0000707f 0x00005063,
     MNEMONIC (Ext_I BLTU) 0x0000707f 0x00006063,
     MNEMONIC (Ext_I BGEU) 0x0000707f 0x00007063,
     MNEMONIC (Ext_I LB) 0x0000707f 0x00000003,
     MNEMONIC (Ext_I LH) 0x0000707f 0x00001003,
     MNEMONIC (Ext_I LW) 0x0000707f 0x00002003,
     MNEMONIC (Ext_I LBU) 0x0000707f 0x00004003,
     MNEMONIC (Ext_I LHU) 0x0000707f 0x00005003,
     MNEMONIC (Ext_I SB) 0x0000707f 0x00000023,
     MNEMONIC (Ext_I SH) 0x0000707f 0x00001023,
     MNEMONIC (Ext_I SW) 0x0000707f 0x00002023,
     MNEMONIC (Ext_I ADDI) 0x0000707f 0x00000013,
     MNEMONIC (Ext_I SLTI) 0x0000707f 0x00002013,
     MNEMONIC (Ext_I SLTIU) 0x0000707f 0x00003013,
     MNEMONIC (Ext_I XORI) 0x0000707f 0x00004013,
     MNEMONIC (Ext_I ORI) 0x0000707f 0x00006013,
     MNEMONIC (Ext_I ANDI) 0x0000707f 0x00007013,
     MNEMONIC (Ext_I SLLI) 0xfe00707f 0x00001013,
     MNEMONIC (Ext_I SRLI) 0xfe00707f 0x00005013,
     MNEMONIC (Ext_I SRAI) 0xfe00707f 0x40005013,
     MNEMONIC (Ext_I ADD) 0xfe00707f 0x00000033,
     MNEMONIC (Ext_I SUB) 0xfe00707f 0x40000033,
     MNEMONIC (Ext_I SLL) 0xfe00707f 0x00001033,
     MNEMONIC (Ext_I SLT) 0xfe00707f 0x00002033,
     MNEMONIC (Ext_I SLTU) 0xfe00707f 0x00003033,
     MNEMONIC (Ext_I XOR_insn) 0xfe00707f 0x00004033,
     MNEMONIC (Ext_I SRL) 0xfe00707f 0x00005033,
     MNEMONIC (Ext_I SRA) 0xfe00707f 0x40005033,
     MNEMONIC (Ext_I OR_insn) 0xfe00707f 0x00006033,
     MNEMONIC (Ext_I AND_insn) 0xfe00707f 0x00007033,
     MNEMONIC (Ext_I FENCE) 0x0000707f 0x0000000f,
     MNEMONIC (Ext_I FENCE_I) 0x0000707f 0x0000100f,
     MNEMONIC (Ext_I ECALL) 0xffffffff 0x00000073,
     MNEMONIC (Ext_I EBREAK) 0xffffffff 0x00100073]"

definition ext_m_inc :: "InsnEntry list" where
  "ext_m_inc = [
     MNEMONIC (Ext_M MUL) 0xfe00707f 0x02000033,
     MNEMONIC (Ext_M MULH) 0xfe00707f 0x02001033,
     MNEMONIC (Ext_M MULHSU) 0xfe00707f 0x02002033,
     MNEMONIC (Ext_M MULHU) 0xfe00707f 0x02003033,
     MNEMONIC (Ext_M DIV) 0xfe00707f 0x02004033,
     MNEMONIC (Ext_M DIVU) 0xfe00707f 0x02005033,
     MNEMONIC (Ext_M REM) 0xfe00707f 0x02006033,
     MNEMONIC (Ext_M REMU) 0xfe00707f 0x02007033]"

definition ext_zbb_inc :: "InsnEntry list" where
  "ext_zbb_inc = [
     MNEMONIC (Ext_Zbb ANDN) 0xfe00707f 0x40007033,
     MNEMONIC (Ext_Zbb ORN) 0xfe00707f 0x40006033,
     MNEMONIC (Ext_Zbb XNOR) 0xfe00707f 0x40004033,
     MNEMONIC (Ext_Zbb MIN_insn) 0xfe00707f 0x0a004033,
     MNEMONIC (Ext_Zbb MINU) 0xfe00707f 0x0a005033,
     MNEMONIC (Ext_Zbb MAX_insn) 0xfe00707f 0x0a006033,
     MNEMONIC (Ext_Zbb MAXU) 0xfe00707f 0x0a007033,
     MNEMONIC (Ext_Zbb SEXT_B) 0xfff0707f 0x60401013,
     MNEMONIC (Ext_Zbb SEXT_H) 0xfff0707f 0x60501013,
     MNEMONIC (Ext_Zbb ZEXT_H) 0xfe00707f 0x08004033,
     MNEMONIC (Ext_Zbb CLZ) 0xfff0707f 0x60001013,
     MNEMONIC (Ext_Zbb CTZ) 0xfff0707f 0x60101013,
     MNEMONIC (Ext_Zbb CPOP) 0xfff0707f 0x60201013,
     MNEMONIC (Ext_Zbb ROL) 0xfe00707f 0x60001033,
     MNEMONIC (Ext_Zbb ROR) 0xfe00707f 0x60005033,
     MNEMONIC (Ext_Zbb RORI) 0xfe00707f 0x60005013,
     MNEMONIC (Ext_Zbb REV8) 0xfff0707f 0x69805013,
     MNEMONIC (Ext_Zbb ORC_B) 0xfff0707f 0x28705013]"

definition ext_zicsr_inc :: "InsnEntry list" where
  "ext_zicsr_inc = [
     MNEMONIC (Ext_Zicsr CSRRW) 0x0000707f 0x00001073,
     MNEMONIC (Ext_Zicsr CSRRS) 0x0000707f 0x00002073,
     MNEMONIC (Ext_Zicsr CSRRC) 0x0000707f 0x00003073,
     MNEMONIC (Ext_Zicsr CSRRWI) 0x0000707f 0x00005073,
     MNEMONIC (Ext_Zicsr CSRRSI) 0x0000707f 0x00006073,
     MNEMONIC (Ext_Zicsr CSRRCI) 0x0000707f 0x00007073]"

definition ext_f_inc :: "InsnEntry list" where
  "ext_f_inc = [
     MNEMONIC (Ext_F FLW) 0x0000707f 0x00002007,
     MNEMONIC (Ext_F FSW) 0x0000707f 0x00002027,
     MNEMONIC (Ext_F FADD_S) 0xfe00007f 0x00000053,
     MNEMONIC (Ext_F FSUB_S) 0xfe00007f 0x08000053,
     MNEMONIC (Ext_F FMUL_S) 0xfe00007f 0x10000053,
     MNEMONIC (Ext_F FDIV_S) 0xfe00007f 0x18000053,
     MNEMONIC (Ext_F FSQRT_S) 0xfff0007f 0x58000053,
     MNEMONIC (Ext_F FMADD_S) 0x0600007f 0x00000043,
     MNEMONIC (Ext_F FMSUB_S) 0x0600007f 0x00000047,
     MNEMONIC (Ext_F FNMSUB_S) 0x0600007f 0x0000004b,
     MNEMONIC (Ext_F FNMADD_S) 0x0600007f 0x0000004f,
     MNEMONIC (Ext_F FSGNJ_S) 0xfe00707f 0x20000053,
     MNEMONIC (Ext_F FSGNJN_S) 0xfe00707f 0x20001053,
     MNEMONIC (Ext_F FSGNJX_S) 0xfe00707f 0x20002053,
     MNEMONIC (Ext_F FMIN_S) 0xfe00707f 0x28000053,
     MNEMONIC (Ext_F FMAX_S) 0xfe00707f 0x28001053,
     MNEMONIC (Ext_F FLE_S) 0xfe00707f 0xa0000053,
     MNEMONIC (Ext_F FLT_S) 0xfe00707f 0xa0001053,
     MNEMONIC (Ext_F FEQ_S) 0xfe00707f 0xa0002053,
     MNEMONIC (Ext_F FCVT_W_S) 0xfff0007f 0xc0000053,
     MNEMONIC (Ext_F FCVT_WU_S) 0xfff0007f 0xc0100053,
     MNEMONIC (Ext_F FCVT_S_W) 0xfff0007f 0xd0000053,
     MNEMONIC (Ext_F FCVT_S_WU) 0xfff0007f 0xd0100053,
     MNEMONIC (Ext_F FMV_X_W) 0xfff0707f 0xe0000053,
     MNEMONIC (Ext_F FCLASS_S) 0xfff0707f 0xe0001053,
     MNEMONIC (Ext_F FMV_W_X) 0xfff0707f 0xf0000053]"

section \<open>The values of the enumerators\<close>

text \<open>
  \<open>static_cast<size_t>\<close> of an enumerator: they are numbered from 0 in the order of the lines,
  and \<open>kCount\<close>, which follows the last one, is their number.
\<close>

fun ext_i_value :: "ext_i_mnem \<Rightarrow> nat" where
  "ext_i_value LUI = 0" | "ext_i_value AUIPC = 1"
| "ext_i_value JAL = 2" | "ext_i_value JALR = 3"
| "ext_i_value BEQ = 4" | "ext_i_value BNE = 5"
| "ext_i_value BLT = 6" | "ext_i_value BGE = 7"
| "ext_i_value BLTU = 8" | "ext_i_value BGEU = 9"
| "ext_i_value LB = 10" | "ext_i_value LH = 11"
| "ext_i_value LW = 12" | "ext_i_value LBU = 13"
| "ext_i_value LHU = 14" | "ext_i_value SB = 15"
| "ext_i_value SH = 16" | "ext_i_value SW = 17"
| "ext_i_value ADDI = 18" | "ext_i_value SLTI = 19"
| "ext_i_value SLTIU = 20" | "ext_i_value XORI = 21"
| "ext_i_value ORI = 22" | "ext_i_value ANDI = 23"
| "ext_i_value SLLI = 24" | "ext_i_value SRLI = 25"
| "ext_i_value SRAI = 26" | "ext_i_value ADD = 27"
| "ext_i_value SUB = 28" | "ext_i_value SLL = 29"
| "ext_i_value SLT = 30" | "ext_i_value SLTU = 31"
| "ext_i_value XOR_insn = 32" | "ext_i_value SRL = 33"
| "ext_i_value SRA = 34" | "ext_i_value OR_insn = 35"
| "ext_i_value AND_insn = 36" | "ext_i_value FENCE = 37"
| "ext_i_value FENCE_I = 38" | "ext_i_value ECALL = 39"
| "ext_i_value EBREAK = 40"

fun ext_m_value :: "ext_m_mnem \<Rightarrow> nat" where
  "ext_m_value MUL = 41" | "ext_m_value MULH = 42"
| "ext_m_value MULHSU = 43" | "ext_m_value MULHU = 44"
| "ext_m_value DIV = 45" | "ext_m_value DIVU = 46"
| "ext_m_value REM = 47" | "ext_m_value REMU = 48"

fun ext_zbb_value :: "ext_zbb_mnem \<Rightarrow> nat" where
  "ext_zbb_value ANDN = 49" | "ext_zbb_value ORN = 50"
| "ext_zbb_value XNOR = 51" | "ext_zbb_value MIN_insn = 52"
| "ext_zbb_value MINU = 53" | "ext_zbb_value MAX_insn = 54"
| "ext_zbb_value MAXU = 55" | "ext_zbb_value SEXT_B = 56"
| "ext_zbb_value SEXT_H = 57" | "ext_zbb_value ZEXT_H = 58"
| "ext_zbb_value CLZ = 59" | "ext_zbb_value CTZ = 60"
| "ext_zbb_value CPOP = 61" | "ext_zbb_value ROL = 62"
| "ext_zbb_value ROR = 63" | "ext_zbb_value RORI = 64"
| "ext_zbb_value REV8 = 65" | "ext_zbb_value ORC_B = 66"

fun ext_zicsr_value :: "ext_zicsr_mnem \<Rightarrow> nat" where
  "ext_zicsr_value CSRRW = 67" | "ext_zicsr_value CSRRS = 68"
| "ext_zicsr_value CSRRC = 69" | "ext_zicsr_value CSRRWI = 70"
| "ext_zicsr_value CSRRSI = 71" | "ext_zicsr_value CSRRCI = 72"

fun ext_f_value :: "ext_f_mnem \<Rightarrow> nat" where
  "ext_f_value FLW = 73" | "ext_f_value FSW = 74"
| "ext_f_value FADD_S = 75" | "ext_f_value FSUB_S = 76"
| "ext_f_value FMUL_S = 77" | "ext_f_value FDIV_S = 78"
| "ext_f_value FSQRT_S = 79" | "ext_f_value FMADD_S = 80"
| "ext_f_value FMSUB_S = 81" | "ext_f_value FNMSUB_S = 82"
| "ext_f_value FNMADD_S = 83" | "ext_f_value FSGNJ_S = 84"
| "ext_f_value FSGNJN_S = 85" | "ext_f_value FSGNJX_S = 86"
| "ext_f_value FMIN_S = 87" | "ext_f_value FMAX_S = 88"
| "ext_f_value FLE_S = 89" | "ext_f_value FLT_S = 90"
| "ext_f_value FEQ_S = 91" | "ext_f_value FCVT_W_S = 92"
| "ext_f_value FCVT_WU_S = 93" | "ext_f_value FCVT_S_W = 94"
| "ext_f_value FCVT_S_WU = 95" | "ext_f_value FMV_X_W = 96"
| "ext_f_value FCLASS_S = 97" | "ext_f_value FMV_W_X = 98"

fun InsnMnemonic_FromEnum :: "InsnMnemonic \<Rightarrow> nat" where
  "InsnMnemonic_FromEnum (Ext_I m) = ext_i_value m"
| "InsnMnemonic_FromEnum (Ext_M m) = ext_m_value m"
| "InsnMnemonic_FromEnum (Ext_Zbb m) = ext_zbb_value m"
| "InsnMnemonic_FromEnum (Ext_Zicsr m) = ext_zicsr_value m"
| "InsnMnemonic_FromEnum (Ext_F m) = ext_f_value m"
| "InsnMnemonic_FromEnum kCount = 99"
| "InsnMnemonic_FromEnum kInvalid = 100"

text \<open>All enumerators in their order; the values are the positions, so they are distinct.\<close>

definition enumerators :: "InsnMnemonic list" where
  "enumerators =
     map mnem (ext_i_inc @ ext_m_inc @ ext_zbb_inc @ ext_zicsr_inc @ ext_f_inc) @ [kCount, kInvalid]"

lemma enumerators_value: "enumerators ! InsnMnemonic_FromEnum m = m"
proof -
  have l: "enumerators ! ext_i_value a = Ext_I a" for a
    by (cases a) (simp_all add: enumerators_def ext_i_inc_def)
  have "enumerators ! ext_m_value a = Ext_M a" for a
    by (cases a) (simp_all add: enumerators_def ext_i_inc_def ext_m_inc_def)
  moreover have "enumerators ! ext_zbb_value a = Ext_Zbb a" for a
    by (cases a) (simp_all add: enumerators_def ext_i_inc_def ext_m_inc_def ext_zbb_inc_def)
  moreover have "enumerators ! ext_zicsr_value a = Ext_Zicsr a" for a
    by (cases a) (simp_all add: enumerators_def ext_i_inc_def ext_m_inc_def ext_zbb_inc_def ext_zicsr_inc_def)
  moreover have "enumerators ! ext_f_value a = Ext_F a" for a
    by (cases a) (simp_all add: enumerators_def ext_i_inc_def ext_m_inc_def ext_zbb_inc_def
      ext_zicsr_inc_def ext_f_inc_def)
  moreover have "enumerators ! 99 = kCount" "enumerators ! 100 = kInvalid"
    by (simp_all add: enumerators_def ext_i_inc_def ext_m_inc_def ext_zbb_inc_def
      ext_zicsr_inc_def ext_f_inc_def)
  ultimately show ?thesis using l by (cases m) simp_all
qed

lemma InsnMnemonic_FromEnum_inject: "InsnMnemonic_FromEnum m = InsnMnemonic_FromEnum m' \<longleftrightarrow> m = m'"
  using enumerators_value by metis

text \<open>Enumerators of a scoped enumeration are compared by their values.\<close>

instantiation InsnMnemonic :: linorder
begin

definition less_eq_InsnMnemonic :: "InsnMnemonic \<Rightarrow> InsnMnemonic \<Rightarrow> bool" where
  "less_eq_InsnMnemonic m m' \<longleftrightarrow> InsnMnemonic_FromEnum m \<le> InsnMnemonic_FromEnum m'"

definition less_InsnMnemonic :: "InsnMnemonic \<Rightarrow> InsnMnemonic \<Rightarrow> bool" where
  "less_InsnMnemonic m m' \<longleftrightarrow> InsnMnemonic_FromEnum m < InsnMnemonic_FromEnum m'"

instance
  by standard (auto simp: less_eq_InsnMnemonic_def less_InsnMnemonic_def InsnMnemonic_FromEnum_inject)

end

section \<open>Names\<close>

fun ext_i_str :: "ext_i_mnem \<Rightarrow> string" where
  "ext_i_str LUI = ''LUI''"
| "ext_i_str AUIPC = ''AUIPC''"
| "ext_i_str JAL = ''JAL''"
| "ext_i_str JALR = ''JALR''"
| "ext_i_str BEQ = ''BEQ''"
| "ext_i_str BNE = ''BNE''"
| "ext_i_str BLT = ''BLT''"
| "ext_i_str BGE = ''BGE''"
| "ext_i_str BLTU = ''BLTU''"
| "ext_i_str BGEU = ''BGEU''"
| "ext_i_str LB = ''LB''"
| "ext_i_str LH = ''LH''"
| "ext_i_str LW = ''LW''"
| "ext_i_str LBU = ''LBU''"
| "ext_i_str LHU = ''LHU''"
| "ext_i_str SB = ''SB''"
| "ext_i_str SH = ''SH''"
| "ext_i_str SW = ''SW''"
| "ext_i_str ADDI = ''ADDI''"
| "ext_i_str SLTI = ''SLTI''"
| "ext_i_str SLTIU = ''SLTIU''"
| "ext_i_str XORI = ''XORI''"
| "ext_i_str ORI = ''ORI''"
| "ext_i_str ANDI = ''ANDI''"
| "ext_i_str SLLI = ''SLLI''"
| "ext_i_str SRLI = ''SRLI''"
| "ext_i_str SRAI = ''SRAI''"
| "ext_i_str ADD = ''ADD''"
| "ext_i_str SUB = ''SUB''"
| "ext_i_str SLL = ''SLL''"
| "ext_i_str SLT = ''SLT''"
| "ext_i_str SLTU = ''SLTU''"
| "ext_i_str XOR_insn = ''XOR''"
| "ext_i_str SRL = ''SRL''"
| "ext_i_str SRA = ''SRA''"
| "ext_i_str OR_insn = ''OR''"
| "ext_i_str AND_insn = ''AND''"
| "ext_i_str FENCE = ''FENCE''"
| "ext_i_str FENCE_I = ''FENCE_I''"
| "ext_i_str ECALL = ''ECALL''"
| "ext_i_str EBREAK = ''EBREAK''"

fun ext_m_str :: "ext_m_mnem \<Rightarrow> string" where
  "ext_m_str MUL = ''MUL''"
| "ext_m_str MULH = ''MULH''"
| "ext_m_str MULHSU = ''MULHSU''"
| "ext_m_str MULHU = ''MULHU''"
| "ext_m_str DIV = ''DIV''"
| "ext_m_str DIVU = ''DIVU''"
| "ext_m_str REM = ''REM''"
| "ext_m_str REMU = ''REMU''"

fun ext_zbb_str :: "ext_zbb_mnem \<Rightarrow> string" where
  "ext_zbb_str ANDN = ''ANDN''"
| "ext_zbb_str ORN = ''ORN''"
| "ext_zbb_str XNOR = ''XNOR''"
| "ext_zbb_str MIN_insn = ''MIN''"
| "ext_zbb_str MINU = ''MINU''"
| "ext_zbb_str MAX_insn = ''MAX''"
| "ext_zbb_str MAXU = ''MAXU''"
| "ext_zbb_str SEXT_B = ''SEXT_B''"
| "ext_zbb_str SEXT_H = ''SEXT_H''"
| "ext_zbb_str ZEXT_H = ''ZEXT_H''"
| "ext_zbb_str CLZ = ''CLZ''"
| "ext_zbb_str CTZ = ''CTZ''"
| "ext_zbb_str CPOP = ''CPOP''"
| "ext_zbb_str ROL = ''ROL''"
| "ext_zbb_str ROR = ''ROR''"
| "ext_zbb_str RORI = ''RORI''"
| "ext_zbb_str REV8 = ''REV8''"
| "ext_zbb_str ORC_B = ''ORC_B''"

fun ext_zicsr_str :: "ext_zicsr_mnem \<Rightarrow> string" where
  "ext_zicsr_str CSRRW = ''CSRRW''"
| "ext_zicsr_str CSRRS = ''CSRRS''"
| "ext_zicsr_str CSRRC = ''CSRRC''"
| "ext_zicsr_str CSRRWI = ''CSRRWI''"
| "ext_zicsr_str CSRRSI = ''CSRRSI''"
| "ext_zicsr_str CSRRCI = ''CSRRCI''"

fun ext_f_str :: "ext_f_mnem \<Rightarrow> string" where
  "ext_f_str FLW = ''FLW''"
| "ext_f_str FSW = ''FSW''"
| "ext_f_str FADD_S = ''FADD_S''"
| "ext_f_str FSUB_S = ''FSUB_S''"
| "ext_f_str FMUL_S = ''FMUL_S''"
| "ext_f_str FDIV_S = ''FDIV_S''"
| "ext_f_str FSQRT_S = ''FSQRT_S''"
| "ext_f_str FMADD_S = ''FMADD_S''"
| "ext_f_str FMSUB_S = ''FMSUB_S''"
| "ext_f_str FNMSUB_S = ''FNMSUB_S''"
| "ext_f_str FNMADD_S = ''FNMADD_S''"
| "ext_f_str FSGNJ_S = ''FSGNJ_S''"
| "ext_f_str FSGNJN_S = ''FSGNJN_S''"
| "ext_f_str FSGNJX_S = ''FSGNJX_S''"
| "ext_f_str FMIN_S = ''FMIN_S''"
| "ext_f_str FMAX_S = ''FMAX_S''"
| "ext_f_str FLE_S = ''FLE_S''"
| "ext_f_str FLT_S = ''FLT_S''"
| "ext_f_str FEQ_S = ''FEQ_S''"
| "ext_f_str FCVT_W_S = ''FCVT_W_S''"
| "ext_f_str FCVT_WU_S = ''FCVT_WU_S''"
| "ext_f_str FCVT_S_W = ''FCVT_S_W''"
| "ext_f_str FCVT_S_WU = ''FCVT_S_WU''"
| "ext_f_str FMV_X_W = ''FMV_X_W''"
| "ext_f_str FCLASS_S = ''FCLASS_S''"
| "ext_f_str FMV_W_X = ''FMV_W_X''"

fun MnemonicToStr :: "InsnMnemonic \<Rightarrow> string" where
  "MnemonicToStr (Ext_I m) = ext_i_str m"
| "MnemonicToStr (Ext_M m) = ext_m_str m"
| "MnemonicToStr (Ext_Zbb m) = ext_zbb_str m"
| "MnemonicToStr (Ext_Zicsr m) = ext_zicsr_str m"
| "MnemonicToStr (Ext_F m) = ext_f_str m"
| "MnemonicToStr _ = ''<unknown>''"

text \<open>Exactly the two enumerators that are no instruction have no name.\<close>

lemma MnemonicToStr_unknown: "MnemonicToStr m = ''<unknown>'' \<longleftrightarrow> m = kCount \<or> m = kInvalid"
proof -
  have "ext_i_str a \<noteq> ''<unknown>''" for a by (cases a) simp_all
  moreover have "ext_m_str a \<noteq> ''<unknown>''" for a by (cases a) simp_all
  moreover have "ext_zbb_str a \<noteq> ''<unknown>''" for a by (cases a) simp_all
  moreover have "ext_zicsr_str a \<noteq> ''<unknown>''" for a by (cases a) simp_all
  moreover have "ext_f_str a \<noteq> ''<unknown>''" for a by (cases a) simp_all
  ultimately show ?thesis by (cases m) auto
qed

end
