(* ===== verification/RV_Ext_I.thy ===== *)
theory RV_Ext_I
  imports RV_Sim RV_Mnemonics
begin

text \<open>
  The callbacks of the base integer instructions, \<open>isa/ext_i_cb.cpp\<close>, all but \<open>ECALL\<close>
  (theory \<open>RV_Syscall\<close>). A callback takes the instruction word and the state; the templates
  \<open>Execute...\<close> it is built from take the operation as a function that may fail, since a C++
  shift by 32 or more is undefined. The lemmas give the effect of every callback on a
  well-formed state.
\<close>

type_synonym ('z, 'm) callback =
  "'z config_scheme \<Rightarrow> u32 \<Rightarrow> 'm rvsim_scheme \<Rightarrow> error + 'm rvsim_scheme"

section \<open>The templates\<close>

definition ArithmRightShift :: "'z config_scheme \<Rightarrow> u32 \<Rightarrow> nat \<Rightarrow> error + u32" where
  "ArithmRightShift c x shift =
     (let num_bits = 32; sign_bit = num_bits - 1; all_ones = - 1; zero = 0 in
      if shift = 0 then Inr x
      else if shift \<ge> num_bits then
        and_then (IsBitSet c x sign_bit) (\<lambda>b. Inr (if b then all_ones else zero))
      else
        and_then (shr x shift) (\<lambda>logical.
        and_then (IsBitSet c x sign_bit) (\<lambda>b.
        if \<not> b then Inr logical
        else and_then (shl all_ones (num_bits - shift)) (\<lambda>fill_mask.
             Inr (logical OR fill_mask)))))"

definition ExecuteRRRBinOp :: "(u32 \<Rightarrow> u32 \<Rightarrow> error + u32) \<Rightarrow> ('z, 'm) callback" where
  "ExecuteRRRBinOp bin_op c insn s =
     and_then (GetXReg c (unat (Rs1 insn)) s) (\<lambda>a.
     and_then (GetXReg c (unat (Rs2 insn)) s) (\<lambda>b.
     and_then (bin_op a b) (\<lambda>v.
     and_then (SetXReg c (unat (Rd insn)) v s) (\<lambda>s.
     Inr (Step s)))))"

definition ExecuteRRIBinOp :: "(u32 \<Rightarrow> u32 \<Rightarrow> error + u32) \<Rightarrow> ('z, 'm) callback" where
  "ExecuteRRIBinOp bin_op c insn s =
     and_then (GetXReg c (unat (Rs1 insn)) s) (\<lambda>a.
     and_then (bin_op a (ImmI insn)) (\<lambda>v.
     and_then (SetXReg c (unat (Rd insn)) v s) (\<lambda>s.
     Inr (Step s))))"

definition ExecuteRRIShift :: "(u32 \<Rightarrow> u32 \<Rightarrow> error + u32) \<Rightarrow> ('z, 'm) callback" where
  "ExecuteRRIShift bin_op c insn s =
     and_then (GetXReg c (unat (Rs1 insn)) s) (\<lambda>a.
     and_then (bin_op a (Shamt insn)) (\<lambda>v.
     and_then (SetXReg c (unat (Rd insn)) v s) (\<lambda>s.
     Inr (Step s))))"

definition ExecuteBranch :: "(u32 \<Rightarrow> u32 \<Rightarrow> bool) \<Rightarrow> ('z, 'm) callback" where
  "ExecuteBranch pred c insn s =
     and_then (GetXReg c (unat (Rs1 insn)) s) (\<lambda>a.
     and_then (GetXReg c (unat (Rs2 insn)) s) (\<lambda>b.
     let should_branch = pred a b in
     if should_branch then Inr (s\<lparr>ip := ip s + ImmB insn\<rparr>) else Inr (Step s)))"

section \<open>The callbacks\<close>

text \<open>
  \<open>kStepSize\<close> is a \<open>size_t\<close>, so the sums with it are formed in 64 bits and truncated on
  assignment; modulo \<open>2 ^ 32\<close> that is the sum below.
\<close>

definition CallbackLUI :: "('z, 'm) callback" where
  "CallbackLUI c insn s =
     and_then (SetXReg c (unat (Rd insn)) (ImmU insn) s) (\<lambda>s.
     Inr (Step s))"

definition CallbackAUIPC :: "('z, 'm) callback" where
  "CallbackAUIPC c insn s =
     and_then (SetXReg c (unat (Rd insn)) (ip s + ImmU insn) s) (\<lambda>s.
     Inr (Step s))"

definition CallbackJAL :: "('z, 'm) callback" where
  "CallbackJAL c insn s =
     and_then (SetXReg c (unat (Rd insn)) (ip s + kStepSize) s) (\<lambda>s.
     Inr (s\<lparr>ip := ip s + ImmJ insn\<rparr>))"

definition CallbackJALR :: "('z, 'm) callback" where
  "CallbackJALR c insn s =
     (let hold_pc = ip s + kStepSize in
      and_then (GetXReg c (unat (Rs1 insn)) s) (\<lambda>rs1.
      let s = s\<lparr>ip := (rs1 + ImmI insn) AND NOT 1\<rparr> in
      SetXReg c (unat (Rd insn)) hold_pc s))"

definition CallbackBEQ :: "('z, 'm) callback" where
  "CallbackBEQ c insn s =
     ExecuteBranch (\<lambda>a b. a = b) c insn s"

definition CallbackBNE :: "('z, 'm) callback" where
  "CallbackBNE c insn s =
     ExecuteBranch (\<lambda>a b. a \<noteq> b) c insn s"

definition CallbackBLT :: "('z, 'm) callback" where
  "CallbackBLT c insn s =
     ExecuteBranch (\<lambda>a b. RegToIReg a < RegToIReg b) c insn s"

definition CallbackBGE :: "('z, 'm) callback" where
  "CallbackBGE c insn s =
     ExecuteBranch (\<lambda>a b. RegToIReg a \<ge> RegToIReg b) c insn s"

definition CallbackBLTU :: "('z, 'm) callback" where
  "CallbackBLTU c insn s =
     ExecuteBranch (\<lambda>a b. a < b) c insn s"

definition CallbackBGEU :: "('z, 'm) callback" where
  "CallbackBGEU c insn s =
     ExecuteBranch (\<lambda>a b. a \<ge> b) c insn s"

definition CallbackLB :: "('z, 'm) callback" where
  "CallbackLB c insn s =
     and_then (GetXReg c (unat (Rs1 insn)) s) (\<lambda>rs1.
     let addr = rs1 + ImmI insn in
     and_then (LoadU8 c (memory s) addr) (\<lambda>mem_val.
     and_then (SetXReg c (unat (Rd insn)) (SignExt mem_val) s) (\<lambda>s.
     Inr (Step s))))"

definition CallbackLH :: "('z, 'm) callback" where
  "CallbackLH c insn s =
     and_then (GetXReg c (unat (Rs1 insn)) s) (\<lambda>rs1.
     let addr = rs1 + ImmI insn in
     and_then (LoadU16 c (memory s) addr) (\<lambda>mem_val.
     and_then (SetXReg c (unat (Rd insn)) (SignExt mem_val) s) (\<lambda>s.
     Inr (Step s))))"

definition CallbackLW :: "('z, 'm) callback" where
  "CallbackLW c insn s =
     and_then (GetXReg c (unat (Rs1 insn)) s) (\<lambda>rs1.
     let addr = rs1 + ImmI insn in
     and_then (LoadU32 c (memory s) addr) (\<lambda>mem_val.
     and_then (SetXReg c (unat (Rd insn)) mem_val s) (\<lambda>s.
     Inr (Step s))))"

definition CallbackLBU :: "('z, 'm) callback" where
  "CallbackLBU c insn s =
     and_then (GetXReg c (unat (Rs1 insn)) s) (\<lambda>rs1.
     let addr = rs1 + ImmI insn in
     and_then (LoadU8 c (memory s) addr) (\<lambda>mem_val.
     and_then (SetXReg c (unat (Rd insn)) (ucast mem_val) s) (\<lambda>s.
     Inr (Step s))))"

definition CallbackLHU :: "('z, 'm) callback" where
  "CallbackLHU c insn s =
     and_then (GetXReg c (unat (Rs1 insn)) s) (\<lambda>rs1.
     let addr = rs1 + ImmI insn in
     and_then (LoadU16 c (memory s) addr) (\<lambda>mem_val.
     and_then (SetXReg c (unat (Rd insn)) (ucast mem_val) s) (\<lambda>s.
     Inr (Step s))))"

definition CallbackSB :: "('z, 'm) callback" where
  "CallbackSB c insn s =
     and_then (GetXReg c (unat (Rs1 insn)) s) (\<lambda>rs1.
     let addr = rs1 + ImmS insn in
     and_then (GetXReg c (unat (Rs2 insn)) s) (\<lambda>rs2.
     let val = TruncHigh rs2 in
     and_then (StoreU8 c (memory s) addr val) (\<lambda>m.
     Inr (Step (s\<lparr>memory := m\<rparr>)))))"

definition CallbackSH :: "('z, 'm) callback" where
  "CallbackSH c insn s =
     and_then (GetXReg c (unat (Rs1 insn)) s) (\<lambda>rs1.
     let addr = rs1 + ImmS insn in
     and_then (GetXReg c (unat (Rs2 insn)) s) (\<lambda>rs2.
     let val = TruncHigh rs2 in
     and_then (StoreU16 c (memory s) addr val) (\<lambda>m.
     Inr (Step (s\<lparr>memory := m\<rparr>)))))"

definition CallbackSW :: "('z, 'm) callback" where
  "CallbackSW c insn s =
     and_then (GetXReg c (unat (Rs1 insn)) s) (\<lambda>rs1.
     let addr = rs1 + ImmS insn in
     and_then (GetXReg c (unat (Rs2 insn)) s) (\<lambda>rs2.
     let val = rs2 in
     and_then (StoreU32 c (memory s) addr val) (\<lambda>m.
     Inr (Step (s\<lparr>memory := m\<rparr>)))))"

definition CallbackADDI :: "('z, 'm) callback" where
  "CallbackADDI c insn s =
     ExecuteRRIBinOp (\<lambda>a b. Inr (a + b)) c insn s"

definition CallbackSLTI :: "('z, 'm) callback" where
  "CallbackSLTI c insn s =
     and_then (GetXReg c (unat (Rs1 insn)) s) (\<lambda>rs1.
     let irs1 = RegToIReg rs1; imm = sint (ImmI insn); is_less_then = irs1 < imm in
     and_then (SetXReg c (unat (Rd insn)) (if is_less_then then 1 else 0) s) (\<lambda>s.
     Inr (Step s)))"

definition CallbackSLTIU :: "('z, 'm) callback" where
  "CallbackSLTIU c insn s =
     and_then (GetXReg c (unat (Rs1 insn)) s) (\<lambda>rs1.
     let is_less_then = rs1 < ImmI insn in
     and_then (SetXReg c (unat (Rd insn)) (if is_less_then then 1 else 0) s) (\<lambda>s.
     Inr (Step s)))"

definition CallbackXORI :: "('z, 'm) callback" where
  "CallbackXORI c insn s =
     ExecuteRRIBinOp (\<lambda>a b. Inr (a XOR b)) c insn s"

definition CallbackORI :: "('z, 'm) callback" where
  "CallbackORI c insn s =
     ExecuteRRIBinOp (\<lambda>a b. Inr (a OR b)) c insn s"

definition CallbackANDI :: "('z, 'm) callback" where
  "CallbackANDI c insn s =
     ExecuteRRIBinOp (\<lambda>a b. Inr (a AND b)) c insn s"

definition CallbackSLLI :: "('z, 'm) callback" where
  "CallbackSLLI c insn s =
     ExecuteRRIShift (\<lambda>a b. shl a (unat b)) c insn s"

definition CallbackSRLI :: "('z, 'm) callback" where
  "CallbackSRLI c insn s =
     ExecuteRRIShift (\<lambda>a b. shr a (unat b)) c insn s"

definition CallbackSRAI :: "('z, 'm) callback" where
  "CallbackSRAI c insn s =
     ExecuteRRIShift (\<lambda>a b. ArithmRightShift c a (unat b)) c insn s"

definition CallbackADD :: "('z, 'm) callback" where
  "CallbackADD c insn s =
     ExecuteRRRBinOp (\<lambda>a b. Inr (a + b)) c insn s"

definition CallbackSUB :: "('z, 'm) callback" where
  "CallbackSUB c insn s =
     ExecuteRRRBinOp (\<lambda>a b. Inr (a - b)) c insn s"

definition CallbackSLL :: "('z, 'm) callback" where
  "CallbackSLL c insn s =
     ExecuteRRRBinOp (\<lambda>a b. shl a (unat b)) c insn s"

definition CallbackSLT :: "('z, 'm) callback" where
  "CallbackSLT c insn s =
     and_then (GetXReg c (unat (Rs1 insn)) s) (\<lambda>rs1.
     and_then (GetXReg c (unat (Rs2 insn)) s) (\<lambda>rs2.
     let irs1 = RegToIReg rs1; irs2 = RegToIReg rs2; is_less_then = irs1 < irs2 in
     and_then (SetXReg c (unat (Rd insn)) (if is_less_then then 1 else 0) s) (\<lambda>s.
     Inr (Step s))))"

definition CallbackSLTU :: "('z, 'm) callback" where
  "CallbackSLTU c insn s =
     and_then (GetXReg c (unat (Rs1 insn)) s) (\<lambda>rs1.
     and_then (GetXReg c (unat (Rs2 insn)) s) (\<lambda>rs2.
     let is_less_then = rs1 < rs2 in
     and_then (SetXReg c (unat (Rd insn)) (if is_less_then then 1 else 0) s) (\<lambda>s.
     Inr (Step s))))"

definition CallbackXOR :: "('z, 'm) callback" where
  "CallbackXOR c insn s =
     ExecuteRRRBinOp (\<lambda>a b. Inr (a XOR b)) c insn s"

definition CallbackSRL :: "('z, 'm) callback" where
  "CallbackSRL c insn s =
     ExecuteRRRBinOp (\<lambda>a b. shr a (unat b)) c insn s"

definition CallbackSRA :: "('z, 'm) callback" where
  "CallbackSRA c insn s =
     ExecuteRRRBinOp (\<lambda>a b. ArithmRightShift c a (unat (b AND (of_nat kXlen - 1)))) c insn s"

definition CallbackOR :: "('z, 'm) callback" where
  "CallbackOR c insn s =
     ExecuteRRRBinOp (\<lambda>a b. Inr (a OR b)) c insn s"

definition CallbackAND :: "('z, 'm) callback" where
  "CallbackAND c insn s =
     ExecuteRRRBinOp (\<lambda>a b. Inr (a AND b)) c insn s"

definition CallbackFENCE :: "('z, 'm) callback" where
  "CallbackFENCE c insn s =
     Inr (Step s)"

definition CallbackFENCE_I :: "('z, 'm) callback" where
  "CallbackFENCE_I c insn s =
     Inr (Step s)"

definition CallbackEBREAK :: "('z, 'm) callback" where
  "CallbackEBREAK c insn s =
     Inr (Step s)"

lemmas execute_defs = ExecuteRRRBinOp_def ExecuteRRIBinOp_def ExecuteRRIShift_def ExecuteBranch_def

lemmas ext_i_defs =
  CallbackLUI_def CallbackAUIPC_def CallbackJAL_def CallbackJALR_def CallbackBEQ_def
  CallbackBNE_def CallbackBLT_def CallbackBGE_def CallbackBLTU_def CallbackBGEU_def
  CallbackLB_def CallbackLH_def CallbackLW_def CallbackLBU_def CallbackLHU_def CallbackSB_def
  CallbackSH_def CallbackSW_def CallbackADDI_def CallbackSLTI_def CallbackSLTIU_def
  CallbackXORI_def CallbackORI_def CallbackANDI_def CallbackSLLI_def CallbackSRLI_def
  CallbackSRAI_def CallbackADD_def CallbackSUB_def CallbackSLL_def CallbackSLT_def
  CallbackSLTU_def CallbackXOR_def CallbackSRL_def CallbackSRA_def CallbackOR_def
  CallbackAND_def CallbackFENCE_def CallbackFENCE_I_def CallbackEBREAK_def

section \<open>Arithmetic right shift\<close>

text \<open>The loop-free code is the arithmetic shift, for every shift amount.\<close>

lemma ArithmRightShift_signed_drop_bit [simp]:
  "ArithmRightShift c x n = Inr (signed_drop_bit n x)"
proof -
  have big: "signed_drop_bit n x = (if bit x 31 then - 1 else 0)" if "32 \<le> n"
    using that by (intro bit_word_eqI) (auto simp: bit_simps)
  have fill: "drop_bit n x OR NOT (mask (32 - n)) = signed_drop_bit n x"
    if "n < 32" "bit x 31"
    using that by (intro bit_word_eqI) (auto simp: bit_simps bit_word_outside)
  have logical: "drop_bit n x = signed_drop_bit n x" if "n < 32" "\<not> bit x 31"
    using that by (intro bit_word_eqI) (auto simp: bit_simps bit_word_outside)
  show ?thesis
    by (auto simp: ArithmRightShift_def Let_def big fill logical)
qed

section \<open>The effect of the callbacks on a well-formed state\<close>

abbreviation rs1_val :: "u32 \<Rightarrow> 'm rvsim_scheme \<Rightarrow> u32" where
  "rs1_val insn s \<equiv> xreg s (unat (Rs1 insn))"

abbreviation rs2_val :: "u32 \<Rightarrow> 'm rvsim_scheme \<Rightarrow> u32" where
  "rs2_val insn s \<equiv> xreg s (unat (Rs2 insn))"

text \<open>The common shape of a register instruction: write one result, go to the next one.\<close>

definition retire :: "u32 \<Rightarrow> u32 \<Rightarrow> 'm rvsim_scheme \<Rightarrow> 'm rvsim_scheme" where
  "retire insn v s = Step (xput (unat (Rd insn)) v s)"

lemma retire_ok [simp]: "sim_ok s \<Longrightarrow> sim_ok (retire insn v s)"
  by (simp add: retire_def)

lemma retire_fields [simp]:
  "ip (retire insn v s) = ip s + 4" "memory (retire insn v s) = memory s"
  "fcsr (retire insn v s) = fcsr s" "should_stop (retire insn v s) = should_stop s"
  "fregs (retire insn v s) = fregs s"
  by (simp_all add: retire_def)

lemma execute_ok:
  assumes "sim_ok s"
  shows "ExecuteRRRBinOp f c insn s =
      and_then (f (rs1_val insn s) (rs2_val insn s)) (\<lambda>v. Inr (retire insn v s))"
    and "ExecuteRRIBinOp f c insn s =
      and_then (f (rs1_val insn s) (ImmI insn)) (\<lambda>v. Inr (retire insn v s))"
    and "ExecuteRRIShift f c insn s =
      and_then (f (rs1_val insn s) (Shamt insn)) (\<lambda>v. Inr (retire insn v s))"
    and "ExecuteBranch p c insn s =
      Inr (if p (rs1_val insn s) (rs2_val insn s) then s\<lparr>ip := ip s + ImmB insn\<rparr> else Step s)"
  using assms by (simp_all add: execute_defs retire_def)

text \<open>
  The results of the R-type and I-type arithmetic as the RISC-V manual defines them, on the
  signed or unsigned values of the operands.
\<close>

fun isa_i_R :: "ext_i_mnem \<Rightarrow> u32 \<Rightarrow> u32 \<Rightarrow> u32 option" where
  "isa_i_R ADD a b = Some (word_of_int (sint a + sint b))"
| "isa_i_R SUB a b = Some (word_of_int (sint a - sint b))"
| "isa_i_R SLL a b = Some (word_of_int (uint a * 2 ^ (unat b mod 32)))"
| "isa_i_R SRL a b = Some (word_of_int (uint a div 2 ^ (unat b mod 32)))"
| "isa_i_R SRA a b = Some (word_of_int (sint a div 2 ^ (unat b mod 32)))"
| "isa_i_R SLT a b = Some (of_bool (sint a < sint b))"
| "isa_i_R SLTU a b = Some (of_bool (uint a < uint b))"
| "isa_i_R XOR_insn a b = Some (a XOR b)"
| "isa_i_R OR_insn a b = Some (a OR b)"
| "isa_i_R AND_insn a b = Some (a AND b)"
| "isa_i_R _ a b = None"

fun isa_i_I :: "ext_i_mnem \<Rightarrow> u32 \<Rightarrow> u32 \<Rightarrow> u32 option" where
  "isa_i_I ADDI a imm = isa_i_R ADD a imm"
| "isa_i_I SLTI a imm = isa_i_R SLT a imm"
| "isa_i_I SLTIU a imm = isa_i_R SLTU a imm"
| "isa_i_I XORI a imm = isa_i_R XOR_insn a imm"
| "isa_i_I ORI a imm = isa_i_R OR_insn a imm"
| "isa_i_I ANDI a imm = isa_i_R AND_insn a imm"
| "isa_i_I _ a imm = None"

fun isa_i_shift :: "ext_i_mnem \<Rightarrow> u32 \<Rightarrow> u32 \<Rightarrow> u32 option" where
  "isa_i_shift SLLI a shamt = isa_i_R SLL a shamt"
| "isa_i_shift SRLI a shamt = isa_i_R SRL a shamt"
| "isa_i_shift SRAI a shamt = isa_i_R SRA a shamt"
| "isa_i_shift _ a shamt = None"

fun isa_i_branch :: "ext_i_mnem \<Rightarrow> u32 \<Rightarrow> u32 \<Rightarrow> bool option" where
  "isa_i_branch BEQ a b = Some (uint a = uint b)"
| "isa_i_branch BNE a b = Some (uint a \<noteq> uint b)"
| "isa_i_branch BLT a b = Some (sint a < sint b)"
| "isa_i_branch BGE a b = Some (sint b \<le> sint a)"
| "isa_i_branch BLTU a b = Some (uint a < uint b)"
| "isa_i_branch BGEU a b = Some (uint b \<le> uint a)"
| "isa_i_branch _ a b = None"

text \<open>The arithmetic readings of the word operations the code uses.\<close>

lemma word_of_int_readings [field_simps_rv]:
  "word_of_int (sint a + sint b) = (a :: u32) + b"
  "word_of_int (sint a - sint b) = a - b"
  "word_of_int (uint a * 2 ^ n) = push_bit n a"
  "word_of_int (uint a div 2 ^ n) = drop_bit n a"
  "word_of_int (sint a div 2 ^ n) = signed_drop_bit n a"
proof -
  show "word_of_int (sint a + sint b) = (a :: u32) + b" "word_of_int (sint a - sint b) = a - b"
    "word_of_int (uint a * 2 ^ n) = push_bit n a"
    by (simp_all add: push_bit_eq_mult)
  have take_bit_uint: "take_bit LENGTH(32) (uint a) = uint a"
    using take_bit_int_eq_self_iff [of 32 "uint a"] uint_lt2p [of a] by simp
  have "word_of_int (uint (drop_bit n a)) = drop_bit n a" by simp
  then show "word_of_int (uint a div 2 ^ n) = drop_bit n a"
    by (simp only: unsigned_drop_bit_eq take_bit_uint drop_bit_eq_div [of n "uint a"])
  have "word_of_int (sint (signed_drop_bit n a)) = signed_drop_bit n a" by simp
  then show "word_of_int (sint a div 2 ^ n) = signed_drop_bit n a"
    by (simp only: sint_signed_drop_bit_eq drop_bit_eq_div [of n "sint a"])
qed

lemma mod_32_and: "unat (b AND 31) = unat (b :: u32) mod 32"
  by (simp only: and_masks unsigned_take_bit_eq) (simp add: take_bit_eq_mod)

text \<open>The callbacks that always succeed: their results as word operations.\<close>

lemma ext_i_alu_effect:
  assumes "sim_ok s"
  shows
  "CallbackLUI c insn s = Inr (retire insn (ImmU insn) s)"
  "CallbackAUIPC c insn s = Inr (retire insn (ip s + ImmU insn) s)"
  "CallbackADDI c insn s = Inr (retire insn (rs1_val insn s + ImmI insn) s)"
  "CallbackSLTI c insn s = Inr (retire insn (of_bool (sint (rs1_val insn s) < sint (ImmI insn))) s)"
  "CallbackSLTIU c insn s = Inr (retire insn (of_bool (rs1_val insn s < ImmI insn)) s)"
  "CallbackXORI c insn s = Inr (retire insn (rs1_val insn s XOR ImmI insn) s)"
  "CallbackORI c insn s = Inr (retire insn (rs1_val insn s OR ImmI insn) s)"
  "CallbackANDI c insn s = Inr (retire insn (rs1_val insn s AND ImmI insn) s)"
  "CallbackSLLI c insn s = Inr (retire insn (push_bit (unat (Shamt insn)) (rs1_val insn s)) s)"
  "CallbackSRLI c insn s = Inr (retire insn (drop_bit (unat (Shamt insn)) (rs1_val insn s)) s)"
  "CallbackSRAI c insn s = Inr (retire insn (signed_drop_bit (unat (Shamt insn)) (rs1_val insn s)) s)"
  "CallbackADD c insn s = Inr (retire insn (rs1_val insn s + rs2_val insn s) s)"
  "CallbackSUB c insn s = Inr (retire insn (rs1_val insn s - rs2_val insn s) s)"
  "CallbackSLT c insn s = Inr (retire insn (of_bool (sint (rs1_val insn s) < sint (rs2_val insn s))) s)"
  "CallbackSLTU c insn s = Inr (retire insn (of_bool (rs1_val insn s < rs2_val insn s)) s)"
  "CallbackXOR c insn s = Inr (retire insn (rs1_val insn s XOR rs2_val insn s) s)"
  "CallbackSRA c insn s = Inr (retire insn (signed_drop_bit (unat (rs2_val insn s) mod 32) (rs1_val insn s)) s)"
  "CallbackOR c insn s = Inr (retire insn (rs1_val insn s OR rs2_val insn s) s)"
  "CallbackAND c insn s = Inr (retire insn (rs1_val insn s AND rs2_val insn s) s)"
  using assms mod_32_and
  by (simp_all add: execute_ok RegToIReg_def retire_def
    CallbackLUI_def CallbackAUIPC_def CallbackADDI_def CallbackSLTI_def CallbackSLTIU_def
    CallbackXORI_def CallbackORI_def CallbackANDI_def CallbackSLLI_def CallbackSRLI_def
    CallbackSRAI_def CallbackADD_def CallbackSUB_def CallbackSLT_def CallbackSLTU_def
    CallbackXOR_def CallbackSRA_def CallbackOR_def CallbackAND_def)

text \<open>
  \<open>SLL\<close> and \<open>SRL\<close> shift by the whole of \<open>rs2\<close>, which is undefined from 32 on.
\<close>

lemma ext_i_shift_effect:
  assumes "sim_ok s"
  shows "CallbackSLL c insn s = and_then (shl (rs1_val insn s) (unat (rs2_val insn s)))
      (\<lambda>v. Inr (retire insn v s))"
    and "CallbackSRL c insn s = and_then (shr (rs1_val insn s) (unat (rs2_val insn s)))
      (\<lambda>v. Inr (retire insn v s))"
  using assms by (simp_all add: CallbackSLL_def CallbackSRL_def execute_ok)

lemma ext_i_branch_effect:
  assumes "sim_ok s"
  shows
  "CallbackBEQ c insn s =
    Inr (if rs1_val insn s = rs2_val insn s then s\<lparr>ip := ip s + ImmB insn\<rparr> else Step s)"
  "CallbackBNE c insn s =
    Inr (if rs1_val insn s \<noteq> rs2_val insn s then s\<lparr>ip := ip s + ImmB insn\<rparr> else Step s)"
  "CallbackBLT c insn s =
    Inr (if sint (rs1_val insn s) < sint (rs2_val insn s) then s\<lparr>ip := ip s + ImmB insn\<rparr> else Step s)"
  "CallbackBGE c insn s =
    Inr (if sint (rs2_val insn s) \<le> sint (rs1_val insn s) then s\<lparr>ip := ip s + ImmB insn\<rparr> else Step s)"
  "CallbackBLTU c insn s =
    Inr (if rs1_val insn s < rs2_val insn s then s\<lparr>ip := ip s + ImmB insn\<rparr> else Step s)"
  "CallbackBGEU c insn s =
    Inr (if rs2_val insn s \<le> rs1_val insn s then s\<lparr>ip := ip s + ImmB insn\<rparr> else Step s)"
  using assms
  by (simp_all add: execute_ok RegToIReg_def
    CallbackBEQ_def CallbackBNE_def CallbackBLT_def CallbackBGE_def CallbackBLTU_def CallbackBGEU_def)

lemma ext_i_jump_effect:
  assumes "sim_ok s"
  shows "CallbackJAL c insn s =
      Inr ((xput (unat (Rd insn)) (ip s + 4) s)\<lparr>ip := ip s + ImmJ insn\<rparr>)"
    and "CallbackJALR c insn s =
      Inr (xput (unat (Rd insn)) (ip s + 4) (s\<lparr>ip := (rs1_val insn s + ImmI insn) AND NOT 1\<rparr>))"
  using assms by (simp_all add: CallbackJAL_def CallbackJALR_def kStepSize_def Let_def)

text \<open>A load or store of a mapped address retires; the others stop as the access does.\<close>

lemma ext_i_load_effect:
  assumes "sim_ok s"
  shows
  "CallbackLB c insn s =
    and_then (LoadU8 c (memory s) (rs1_val insn s + ImmI insn)) (\<lambda>v. Inr (retire insn (scast v) s))"
  "CallbackLH c insn s =
    and_then (LoadU16 c (memory s) (rs1_val insn s + ImmI insn)) (\<lambda>v. Inr (retire insn (scast v) s))"
  "CallbackLW c insn s =
    and_then (LoadU32 c (memory s) (rs1_val insn s + ImmI insn)) (\<lambda>v. Inr (retire insn (v) s))"
  "CallbackLBU c insn s =
    and_then (LoadU8 c (memory s) (rs1_val insn s + ImmI insn)) (\<lambda>v. Inr (retire insn (ucast v) s))"
  "CallbackLHU c insn s =
    and_then (LoadU16 c (memory s) (rs1_val insn s + ImmI insn)) (\<lambda>v. Inr (retire insn (ucast v) s))"
  using assms
  by (simp_all add: CallbackLB_def CallbackLH_def CallbackLW_def CallbackLBU_def CallbackLHU_def
    retire_def Let_def SignExt_scast)

lemma ext_i_store_effect:
  assumes "sim_ok s"
  shows
  "CallbackSB c insn s =
    and_then (StoreU8 c (memory s) (rs1_val insn s + ImmS insn) (ucast (rs2_val insn s)))
      (\<lambda>m. Inr (Step (s\<lparr>memory := m\<rparr>)))"
  "CallbackSH c insn s =
    and_then (StoreU16 c (memory s) (rs1_val insn s + ImmS insn) (ucast (rs2_val insn s)))
      (\<lambda>m. Inr (Step (s\<lparr>memory := m\<rparr>)))"
  "CallbackSW c insn s =
    and_then (StoreU32 c (memory s) (rs1_val insn s + ImmS insn) (rs2_val insn s))
      (\<lambda>m. Inr (Step (s\<lparr>memory := m\<rparr>)))"
  using assms
  by (simp_all add: CallbackSB_def CallbackSH_def CallbackSW_def Let_def TruncHigh_ucast)

lemmas ext_i_effects = ext_i_alu_effect ext_i_shift_effect ext_i_branch_effect
  ext_i_jump_effect ext_i_load_effect ext_i_store_effect

section \<open>Properties\<close>

text \<open>
  \<open>ArithmRightShift\<close> computes the arithmetic right shift for every amount, also from 32
  on: the quotient of the signed value by the power of two, rounded down. None of its shifts is
  undefined.
\<close>

lemma ArithmRightShift_divides:
  "\<exists>r. ArithmRightShift c x n = Inr r \<and> sint r = sint x div 2 ^ n"
  by (simp add: sint_signed_drop_bit_eq drop_bit_eq_div)

text \<open>
  C33: \<open>SLL\<close> and \<open>SRL\<close> are defined exactly when \<open>rs2\<close> is below 32, and then shift by it;
  the manual takes the amount modulo 32. \<open>SRA\<close> does take it modulo 32, and the immediate
  shifts are always defined.
\<close>

theorem register_shift_amounts:
  assumes "sim_ok s"
  shows "CallbackSLL c insn s =
      (if unat (rs2_val insn s) < 32
       then Inr (retire insn (push_bit (unat (rs2_val insn s)) (rs1_val insn s)) s)
       else ub ShiftTooLarge) \<and>
    CallbackSRL c insn s =
      (if unat (rs2_val insn s) < 32
       then Inr (retire insn (drop_bit (unat (rs2_val insn s)) (rs1_val insn s)) s)
       else ub ShiftTooLarge) \<and>
    CallbackSRA c insn s =
      Inr (retire insn (signed_drop_bit (unat (rs2_val insn s) mod 32) (rs1_val insn s)) s) \<and>
    CallbackSLLI c insn s = Inr (retire insn (push_bit (unat (Shamt insn)) (rs1_val insn s)) s) \<and>
    CallbackSRLI c insn s = Inr (retire insn (drop_bit (unat (Shamt insn)) (rs1_val insn s)) s) \<and>
    CallbackSRAI c insn s = Inr (retire insn (signed_drop_bit (unat (Shamt insn)) (rs1_val insn s)) s)"
  using assms by (simp add: ext_i_effects shl_def shr_def ub_def)

text \<open>The instance: \<open>sll x1, x3, x4\<close> on registers that hold their own index.\<close>

lemma register_shift_amounts_witness:
  "CallbackSLL \<lparr>ndebug = True\<rparr> 0x004190b3 sample_machine =
     Inr (retire 0x004190b3 (push_bit 4 3) sample_machine)"
proof -
  have "unat (Rs1 0x004190b3) = 3" "unat (Rs2 0x004190b3) = 4"
    by (simp_all add: Rs1_def Rs2_def)
  then show ?thesis
    using register_shift_amounts [OF sample_machine_ok, where c = "\<lparr>ndebug = True\<rparr>" and insn = "0x004190b3"]
    by (simp add: sample_machine_regs)
qed

text \<open>
  \<open>JAL\<close> and \<open>JALR\<close> store the address of the next instruction in \<open>rd\<close> (unless it is
  \<open>x0\<close>) and go to the target; \<open>JALR\<close> reads \<open>rs1\<close> before it writes \<open>rd\<close>, also where they
  are the same register, and clears the lowest bit. An aligned instruction pointer stays
  aligned to two bytes.
\<close>

theorem jumps_link_and_go:
  assumes "sim_ok s" "even (ip s)"
  shows "\<exists>s1 s2. CallbackJAL c insn s = Inr s1 \<and> CallbackJALR c insn s = Inr s2 \<and>
    ip s1 = ip s + ImmJ insn \<and> ip s2 = unset_bit 0 (rs1_val insn s + ImmI insn) \<and>
    (\<forall>i. xreg s1 i = (if i = unat (Rd insn) \<and> i \<noteq> 0 then ip s + 4 else xreg s i)) \<and>
    (\<forall>i. xreg s2 i = (if i = unat (Rd insn) \<and> i \<noteq> 0 then ip s + 4 else xreg s i)) \<and>
    memory s1 = memory s \<and> memory s2 = memory s \<and> even (ip s1) \<and> even (ip s2)"
proof -
  have "even (unset_bit 0 x)" for x :: u32 by (simp add: even_word_bit0 bit_simps)
  then show ?thesis
    using assms by (simp add: ext_i_jump_effect unset_bit_eq_and_not)
qed

lemma jumps_link_and_go_witness:
  "\<exists>s1. CallbackJALR \<lparr>ndebug = False\<rparr> 0x00008067 sample_machine = Inr s1 \<and> ip s1 = 0"
proof -
  have r: "unat (Rs1 0x00008067) = 1" "ImmI 0x00008067 = 0"
    by (simp_all add: Rs1_def ImmI_def SignExtend_def)
  have "even (ip sample_machine)" by (simp add: even_word_bit0)
  from jumps_link_and_go [OF sample_machine_ok this, where c = "\<lparr>ndebug = False\<rparr>" and insn = "0x00008067"]
  show ?thesis unfolding r by (auto simp: sample_machine_regs unset_bit_eq_and_not)
qed

lemma le_word_prefix:
  assumes "LENGTH('b) \<le> 8 * k" "k \<le> length bs" "LENGTH('b) \<le> LENGTH('a)"
  shows "(le_word (take k bs) :: 'b::len word) = ucast (le_word bs :: 'a::len word)"
proof (rule bit_word_eqI)
  fix i
  assume i: "i < LENGTH('b)"
  then have "i div 8 < k" using assms(1) by (simp add: less_mult_imp_div_less mult.commute)
  then show "bit (le_word (take k bs) :: 'b word) i = bit (ucast (le_word bs :: 'a word) :: 'b word) i"
    using i assms by (auto simp: bit_le_word bit_ucast_iff)
qed

lemma narrow_load:
  assumes "segms_ok ss" "accessible ss a 4" "LENGTH('b) = 8 * k" "k \<le> 4"
  shows "(Load_loop c ss a :: error + 'b::len word) =
    Inr (ucast (le_word (map (\<lambda>i. the (byte_at ss (a + of_nat i))) [0..<4]) :: u32))"
proof -
  let ?f = "\<lambda>i. the (byte_at ss (a + of_nat i))"
  have d: "LENGTH('b) div 8 = k" using assms(3) by simp
  have "accessible ss a k" using accessible_mono [OF assms(2,4)] .
  then have "(Load_loop c ss a :: error + 'b word) = Inr (le_word (map ?f [0..<k]))"
    using Load_loop_bytes [OF assms(1), of a c, where ?'a = 'b] by (simp only: d)
  moreover have "map ?f [0..<k] = take k (map ?f [0..<4])"
    using assms(4) by (simp only: take_map take_upt) simp
  moreover have "(le_word (take k (map ?f [0..<4])) :: 'b word) = ucast (le_word (map ?f [0..<4]) :: u32)"
    using assms(3,4) by (intro le_word_prefix) simp_all
  ultimately show ?thesis by (simp only:)
qed

text \<open>
  The loads fetch the little-endian bytes at \<open>rs1\<close> plus the immediate; \<open>LB\<close> and \<open>LH\<close>
  deliver the signed value, \<open>LBU\<close> and \<open>LHU\<close> the unsigned one, and nothing but \<open>rd\<close> and the
  instruction pointer changes.
\<close>

theorem loads_extend:
  assumes "sim_ok s" "mem_ok (memory s)" "accessible (segms (memory s)) (rs1_val insn s + ImmI insn) 4"
  shows "\<exists>b h w :: u32.
    CallbackLB c insn s = Inr (retire insn b s) \<and> CallbackLH c insn s = Inr (retire insn h s) \<and>
    CallbackLW c insn s = Inr (retire insn w s) \<and>
    CallbackLBU c insn s = Inr (retire insn (take_bit 8 w) s) \<and>
    CallbackLHU c insn s = Inr (retire insn (take_bit 16 w) s) \<and>
    b = signed_take_bit 7 w \<and> h = signed_take_bit 15 w \<and>
    le_bytes 4 w = map (\<lambda>i. the (byte_at (segms (memory s)) (rs1_val insn s + ImmI insn + of_nat i))) [0..<4]"
proof -
  let ?a = "rs1_val insn s + ImmI insn" and ?ss = "segms (memory s)"
  let ?bs = "map (\<lambda>i. the (byte_at ?ss (?a + of_nat i))) [0..<4]"
  have ok: "segms_ok ?ss" using assms(2) by (simp add: mem_ok_def)
  define w :: u32 where "w = le_word ?bs"
  have bytes: "le_bytes 4 w = ?bs"
    using le_bytes_le_word [of ?bs, where ?'a = 32] by (simp add: w_def del: le_word.simps)
  have loads: "LoadU32 c (memory s) ?a = Inr w" "LoadU16 c (memory s) ?a = Inr (ucast w)"
    "LoadU8 c (memory s) ?a = Inr (ucast w)"
    using narrow_load [OF ok assms(3), where k = 4 and ?'b = 32] narrow_load [OF ok assms(3), where k = 2 and ?'b = 16]
      narrow_load [OF ok assms(3), where k = 1 and ?'b = 8]
    by (simp_all add: LoadU32_def LoadU16_def LoadU8_def w_def del: le_word.simps)
  have ext: "(scast (ucast w :: u8) :: u32) = signed_take_bit 7 w" "(scast (ucast w :: u16) :: u32) = signed_take_bit 15 w"
    "(ucast (ucast w :: u8) :: u32) = take_bit 8 w" "(ucast (ucast w :: u16) :: u32) = take_bit 16 w"
    by (rule bit_word_eqI, auto simp: bit_simps min_def)+
  show ?thesis
    by (intro exI [of _ "signed_take_bit 7 w"] exI [of _ "signed_take_bit 15 w"] exI [of _ w])
      (simp add: ext_i_load_effect [OF assms(1)] loads ext bytes)
qed

text \<open>The instance: \<open>lb x1, 0(x2)\<close> and its kin with \<open>x2\<close> at the second segment.\<close>

lemma loads_extend_witness:
  "CallbackLB \<lparr>ndebug = False\<rparr> 0x00010083 (xput 2 0x2000 sample_machine) =
     Inr (retire 0x00010083 (- 128) (xput 2 0x2000 sample_machine))"
proof -
  let ?s = "xput 2 0x2000 sample_machine" and ?i = "0x00010083 :: u32"
  have f: "unat (Rs1 ?i) = 2" "ImmI ?i = 0"
    by (simp_all add: Rs1_def ImmI_def SignExtend_def)
  have x: "xreg ?s 2 = 0x2000" using sample_machine_ok by simp
  have acc: "accessible (segms (memory ?s)) (xreg ?s (unat (Rs1 ?i)) + ImmI ?i) 4"
    by (simp add: f x accessible_def sample_memory_def IsAddrInSegment_def)
  obtain b h w :: u32 where l: "CallbackLB \<lparr>ndebug = False\<rparr> ?i ?s = Inr (retire ?i b ?s)"
    "b = signed_take_bit 7 w"
    "le_bytes 4 w = map (\<lambda>i. the (byte_at (segms (memory ?s)) (xreg ?s (unat (Rs1 ?i)) + ImmI ?i + of_nat i))) [0..<4]"
    using loads_extend [OF _ _ acc, where c = "\<lparr>ndebug = False\<rparr>"] sample_machine_ok sample_memory_ok by auto
  have "w = le_word (le_bytes 4 w)" by simp
  also have "\<dots> = 0xb0a09080"
    unfolding l(3) f x
    by (simp add: byte_at_def sample_memory_def IsAddrInSegment_def upt_conv_Cons)
  finally show ?thesis using l(1,2) by (simp add: signed_take_bit_def mask_eq_exp_minus_1)
qed

end
