(* ===== verification/RV_Ext_M.thy ===== *)
theory RV_Ext_M
  imports RV_Ext_I
begin

text \<open>
  The callbacks of the multiplication and division extension, \<open>isa/ext_m_cb.cpp\<close>. A
  \<open>WIRegister\<close> (\<open>int64_t\<close>) is its value as an integer; a product that does not fit is
  undefined. The lemmas compare every callback with the results the RISC-V manual defines:
  six agree with it, \<open>MULH\<close> multiplies its operands as unsigned numbers and \<open>MULHSU\<close> both of
  them as signed ones.
\<close>

definition mul_i64 :: "int \<Rightarrow> int \<Rightarrow> error + u64" where
  "mul_i64 a b =
     (if - (2 ^ 63) \<le> a * b \<and> a * b < 2 ^ 63 then Inr (word_of_int (a * b)) else ub SignedOverflow)"

definition IRegister_min :: int where "IRegister_min = - (2 ^ 31)"

definition CallbackMUL :: "('z, 'm) callback" where
  "CallbackMUL c insn s =
     and_then (GetXReg c (unat (Rs1 insn)) s) (\<lambda>a.
     and_then (GetXReg c (unat (Rs2 insn)) s) (\<lambda>b.
     let rs1 = (ucast a :: u64); rs2 = (ucast b :: u64);
         mul = rs1 * rs2;
         mul_trunc_low = TruncHigh mul in
     and_then (SetXReg c (unat (Rd insn)) mul_trunc_low s) (\<lambda>s.
     Inr (Step s))))"

definition CallbackMULH :: "('z, 'm) callback" where
  "CallbackMULH c insn s =
     and_then (GetXReg c (unat (Rs1 insn)) s) (\<lambda>a.
     and_then (GetXReg c (unat (Rs2 insn)) s) (\<lambda>b.
     let rs1 = uint a; rs2 = uint b in
     and_then (mul_i64 rs1 rs2) (\<lambda>mul.
     let mul_trunc_high = TruncLow mul in
     and_then (SetXReg c (unat (Rd insn)) mul_trunc_high s) (\<lambda>s.
     Inr (Step s)))))"

definition CallbackMULHSU :: "('z, 'm) callback" where
  "CallbackMULHSU c insn s =
     and_then (GetXReg c (unat (Rs1 insn)) s) (\<lambda>a.
     and_then (GetXReg c (unat (Rs2 insn)) s) (\<lambda>b.
     let rs1 = WRegToWIReg (SignExt a); rs2 = RegToIReg b in
     and_then (mul_i64 rs1 rs2) (\<lambda>mul.
     let mul_trunc_high = TruncLow mul in
     and_then (SetXReg c (unat (Rd insn)) mul_trunc_high s) (\<lambda>s.
     Inr (Step s)))))"

definition CallbackMULHU :: "('z, 'm) callback" where
  "CallbackMULHU c insn s =
     and_then (GetXReg c (unat (Rs1 insn)) s) (\<lambda>a.
     and_then (GetXReg c (unat (Rs2 insn)) s) (\<lambda>b.
     let rs1 = (ucast a :: u64); rs2 = (ucast b :: u64);
         mul = rs1 * rs2;
         mul_trunc_high = TruncLow mul in
     and_then (SetXReg c (unat (Rd insn)) mul_trunc_high s) (\<lambda>s.
     Inr (Step s))))"

text \<open>
  The operators \<open>/\<close> and \<open>%\<close>. Both are undefined for a divisor of 0; signed operands round towards
  zero, \<open>sdiv\<close> and \<open>smod\<close>, and both operators are undefined when the quotient does not fit.
\<close>

definition quotient_fits :: "int \<Rightarrow> int \<Rightarrow> bool" where
  "quotient_fits a b \<longleftrightarrow> - (2 ^ 31) \<le> a sdiv b \<and> a sdiv b < 2 ^ 31"

definition div_i32 :: "int \<Rightarrow> int \<Rightarrow> error + int" where
  "div_i32 a b =
     (if b = 0 then ub DivisionByZero else if quotient_fits a b then Inr (a sdiv b) else ub SignedOverflow)"

definition rem_i32 :: "int \<Rightarrow> int \<Rightarrow> error + int" where
  "rem_i32 a b =
     (if b = 0 then ub DivisionByZero else if quotient_fits a b then Inr (a smod b) else ub SignedOverflow)"

definition div_u32 :: "u32 \<Rightarrow> u32 \<Rightarrow> error + u32" where
  "div_u32 a b = (if b = 0 then ub DivisionByZero else Inr (a div b))"

definition rem_u32 :: "u32 \<Rightarrow> u32 \<Rightarrow> error + u32" where
  "rem_u32 a b = (if b = 0 then ub DivisionByZero else Inr (a mod b))"

definition CallbackDIV :: "('z, 'm) callback" where
  "CallbackDIV c insn s =
     and_then (GetXReg c (unat (Rs1 insn)) s) (\<lambda>a.
     and_then (GetXReg c (unat (Rs2 insn)) s) (\<lambda>b.
     let rs1 = RegToIReg a; rs2 = RegToIReg b in
     and_then (if rs2 = 0 then Inr (- 1)
               else if rs1 = IRegister_min \<and> rs2 = - 1 then Inr IRegister_min
               else div_i32 rs1 rs2) (\<lambda>res.
     and_then (SetXReg c (unat (Rd insn)) (IRegToReg res) s) (\<lambda>s.
     Inr (Step s)))))"

definition CallbackDIVU :: "('z, 'm) callback" where
  "CallbackDIVU c insn s =
     and_then (GetXReg c (unat (Rs1 insn)) s) (\<lambda>rs1.
     and_then (GetXReg c (unat (Rs2 insn)) s) (\<lambda>rs2.
     and_then (if rs2 = 0 then Inr (- 1) else div_u32 rs1 rs2) (\<lambda>res.
     and_then (SetXReg c (unat (Rd insn)) res s) (\<lambda>s.
     Inr (Step s)))))"

definition CallbackREM :: "('z, 'm) callback" where
  "CallbackREM c insn s =
     and_then (GetXReg c (unat (Rs1 insn)) s) (\<lambda>a.
     and_then (GetXReg c (unat (Rs2 insn)) s) (\<lambda>b.
     let rs1 = RegToIReg a; rs2 = RegToIReg b in
     and_then (if rs2 = 0 then Inr (IRegToReg rs1)
               else if rs1 = IRegister_min \<and> rs2 = - 1 then Inr 0
               else and_then (rem_i32 rs1 rs2) (\<lambda>rem. Inr (IRegToReg rem))) (\<lambda>res.
     and_then (SetXReg c (unat (Rd insn)) res s) (\<lambda>s.
     Inr (Step s)))))"

definition CallbackREMU :: "('z, 'm) callback" where
  "CallbackREMU c insn s =
     and_then (GetXReg c (unat (Rs1 insn)) s) (\<lambda>rs1.
     and_then (GetXReg c (unat (Rs2 insn)) s) (\<lambda>rs2.
     and_then (if rs2 = 0 then Inr rs1 else rem_u32 rs1 rs2) (\<lambda>res.
     and_then (SetXReg c (unat (Rd insn)) res s) (\<lambda>s.
     Inr (Step s)))))"

lemmas ext_m_defs = CallbackMUL_def CallbackMULH_def CallbackMULHSU_def CallbackMULHU_def
  CallbackDIV_def CallbackDIVU_def CallbackREM_def CallbackREMU_def

section \<open>The results the manual defines\<close>

fun isa_m :: "ext_m_mnem \<Rightarrow> u32 \<Rightarrow> u32 \<Rightarrow> u32" where
  "isa_m MUL a b = word_of_int (sint a * sint b)"
| "isa_m MULH a b = word_of_int ((sint a * sint b) div 2 ^ 32)"
| "isa_m MULHSU a b = word_of_int ((sint a * uint b) div 2 ^ 32)"
| "isa_m MULHU a b = word_of_int ((uint a * uint b) div 2 ^ 32)"
| "isa_m DIV a b = (if b = 0 then - 1 else word_of_int (sint a sdiv sint b))"
| "isa_m DIVU a b = (if b = 0 then - 1 else word_of_int (uint a div uint b))"
| "isa_m REM a b = (if b = 0 then a else word_of_int (sint a smod sint b))"
| "isa_m REMU a b = (if b = 0 then a else word_of_int (uint a mod uint b))"

text \<open>The two halves of a 64-bit product.\<close>

lemma low_half: "(TruncHigh (word_of_int p :: u64) :: u32) = word_of_int p"
  unfolding TruncHigh_ucast by (rule bit_word_eqI) (simp add: bit_simps)

lemma high_half: "(TruncLow (word_of_int p :: u64) :: u32) = word_of_int (p div 2 ^ 32)"
proof (rule bit_word_eqI)
  fix i
  assume i: "i < LENGTH(32)"
  have "bit (p div 2 ^ 32) i = bit p (32 + i)"
    by (metis bit_drop_bit_eq comp_apply drop_bit_eq_div)
  then show "bit (TruncLow (word_of_int p :: u64) :: u32) i = bit (word_of_int (p div 2 ^ 32) :: u32) i"
    using i by (simp add: TruncLow_drop_bit bit_simps)
qed

lemma wide_product: "(ucast a :: u64) * ucast b = word_of_int (uint (a :: u32) * uint (b :: u32))"
  by (simp add: of_int_mult)

lemma sint_range: "- (2 ^ 31) \<le> sint (a :: u32)" "sint a < 2 ^ 31"
  using sint_greater_eq [of a] sint_less [of a] by simp_all

lemma sint_SignExt: "sint (SignExt (a :: u32) :: u64) = sint a"
  by (simp add: SignExt_scast sint_up_scast is_up)

section \<open>The effect of the callbacks on a well-formed state\<close>

lemma mul_i64_signed: "mul_i64 (sint (a :: u32)) (sint (b :: u32)) = Inr (word_of_int (sint a * sint b))"
proof -
  have "\<bar>sint a\<bar> \<le> 2 ^ 31" "\<bar>sint b\<bar> \<le> 2 ^ 31" using sint_range [of a] sint_range [of b] by auto
  then have "\<bar>sint a\<bar> * \<bar>sint b\<bar> \<le> 2 ^ 31 * 2 ^ 31" by (intro mult_mono) auto
  then have "\<bar>sint a * sint b\<bar> \<le> 2 ^ 62" by (simp add: abs_mult)
  then show ?thesis by (auto simp: mul_i64_def)
qed

lemma mul_i64_unsigned:
  "mul_i64 (uint (a :: u32)) (uint (b :: u32)) =
     (if uint a * uint b < 2 ^ 63 then Inr (word_of_int (uint a * uint b)) else ub SignedOverflow)"
proof -
  have "0 \<le> uint a * uint b" by simp
  then have "- (2 ^ 63) \<le> uint a * uint b" by (rule order_trans [rotated]) simp
  then show ?thesis by (simp add: mul_i64_def)
qed

lemma sint_0_iff: "sint (b :: u32) = 0 \<longleftrightarrow> b = 0"
  by (metis signed_0 signed_word_eqI)

text \<open>The guards of the callbacks leave the operators only operands for which they are defined.\<close>

lemma guarded_quotient_fits:
  assumes "sint (b :: u32) \<noteq> 0" "\<not> (sint (a :: u32) = - (2 ^ 31) \<and> sint b = - 1)"
  shows "quotient_fits (sint a) (sint b)"
proof -
  define x y q r where "x = sint a" and "y = sint b" and "q = x sdiv y" and "r = x smod y"
  have x: "- (2 ^ 31) \<le> x" "x < 2 ^ 31" using sint_range [of a] by (simp_all add: x_def)
  have y: "y \<noteq> 0" "\<not> (x = - (2 ^ 31) \<and> y = - 1)" using assms by (simp_all add: x_def y_def)
  have eq: "q * y + r = x" and r: "\<bar>r\<bar> < \<bar>y\<bar>"
    using sdiv_mult_smod_eq [of x y] smod_int_range [OF y(1), of x] by (auto simp: q_def r_def)
  have q: "\<bar>q\<bar> \<le> \<bar>x\<bar>" using sdiv_int_range [of x y] by (simp add: q_def abs_le_iff)
  have "q \<noteq> 2 ^ 31"
  proof
    assume "q = 2 ^ 31"
    then have "x = - (2 ^ 31)" "2 ^ 31 * y + r = x" using q x eq by auto
    then have "y = - 1" using r by auto
    then show False using y \<open>x = - (2 ^ 31)\<close> by blast
  qed
  then show ?thesis using q x by (auto simp: quotient_fits_def q_def x_def y_def)
qed

lemma guarded_operators:
  "(if RegToIReg b = 0 then Inr (- 1)
    else if RegToIReg a = IRegister_min \<and> RegToIReg b = - 1 then Inr IRegister_min
    else div_i32 (RegToIReg a) (RegToIReg b)) =
    Inr (if RegToIReg b = 0 then - 1
      else if RegToIReg a = IRegister_min \<and> RegToIReg b = - 1 then IRegister_min
      else RegToIReg a sdiv RegToIReg b)"
  "(if RegToIReg b = 0 then Inr (IRegToReg (RegToIReg a))
    else if RegToIReg a = IRegister_min \<and> RegToIReg b = - 1 then Inr 0
    else and_then (rem_i32 (RegToIReg a) (RegToIReg b)) (\<lambda>rem. Inr (IRegToReg rem))) =
    Inr (if RegToIReg b = 0 then IRegToReg (RegToIReg a)
      else if RegToIReg a = IRegister_min \<and> RegToIReg b = - 1 then 0
      else IRegToReg (RegToIReg a smod RegToIReg b))"
  "(if b = 0 then Inr (- 1) else div_u32 a b) = Inr (if b = 0 then - 1 else a div b)"
  "(if b = 0 then Inr a else rem_u32 a b) = Inr (if b = 0 then a else a mod b)"
  using guarded_quotient_fits [of b a]
  by (simp_all add: RegToIReg_def IRegister_min_def div_i32_def rem_i32_def div_u32_def rem_u32_def)

lemma division_results:
  "IRegToReg (if RegToIReg b = 0 then - 1
     else if RegToIReg a = IRegister_min \<and> RegToIReg b = - 1 then IRegister_min
     else RegToIReg a sdiv RegToIReg b) = isa_m DIV a b"
  "(if RegToIReg b = 0 then IRegToReg (RegToIReg a)
    else if RegToIReg a = IRegister_min \<and> RegToIReg b = - 1 then 0
    else IRegToReg (RegToIReg a smod RegToIReg b)) = isa_m REM a b"
  "(if b = 0 then - 1 else a div b) = isa_m DIVU a b"
  "(if b = 0 then a else a mod b) = isa_m REMU a b"
  by (simp_all add: sint_0_iff RegToIReg_def IRegToReg_def IRegister_min_def
      word_div_def word_mod_def signed_modulo_int_def)

lemma ext_m_effect:
  assumes "sim_ok s"
  shows "CallbackMUL c insn s = Inr (retire insn (isa_m MUL (rs1_val insn s) (rs2_val insn s)) s)"
    and "CallbackMULHU c insn s = Inr (retire insn (isa_m MULHU (rs1_val insn s) (rs2_val insn s)) s)"
    and "CallbackDIV c insn s = Inr (retire insn (isa_m DIV (rs1_val insn s) (rs2_val insn s)) s)"
    and "CallbackDIVU c insn s = Inr (retire insn (isa_m DIVU (rs1_val insn s) (rs2_val insn s)) s)"
    and "CallbackREM c insn s = Inr (retire insn (isa_m REM (rs1_val insn s) (rs2_val insn s)) s)"
    and "CallbackREMU c insn s = Inr (retire insn (isa_m REMU (rs1_val insn s) (rs2_val insn s)) s)"
  using assms
  by (simp_all only: ext_m_defs Let_def GetXReg_ok SetXReg_ok reg_fields_less and_then_Inr
      guarded_operators division_results wide_product low_half high_half retire_def)
    (simp_all add: of_int_mult)

text \<open>
  \<open>MULH\<close> delivers the high half of the unsigned product, where that does not overflow
  \<open>int64_t\<close>; \<open>MULHSU\<close> delivers the high half of the signed product.
\<close>

lemma ext_m_high_effect:
  assumes "sim_ok s"
  shows "CallbackMULH c insn s =
      (if uint (rs1_val insn s) * uint (rs2_val insn s) < 2 ^ 63
       then Inr (retire insn (isa_m MULHU (rs1_val insn s) (rs2_val insn s)) s)
       else ub SignedOverflow)"
    and "CallbackMULHSU c insn s =
      Inr (retire insn (isa_m MULH (rs1_val insn s) (rs2_val insn s)) s)"
  using assms
  by (simp_all add: CallbackMULH_def CallbackMULHSU_def mul_i64_unsigned mul_i64_signed
      sint_SignExt RegToIReg_def high_half retire_def ub_def del: of_int_mult)

lemmas ext_m_effects = ext_m_effect ext_m_high_effect

section \<open>Properties\<close>

lemma signed_remainder:
  fixes a b :: u32
  assumes "b \<noteq> 0"
  shows "\<bar>sint a smod sint b\<bar> < \<bar>sint b\<bar>"
    and "0 \<le> sint a \<Longrightarrow> 0 \<le> sint a smod sint b" and "sint a \<le> 0 \<Longrightarrow> sint a smod sint b \<le> 0"
    and "sint (word_of_int (sint a smod sint b) :: u32) = sint a smod sint b"
proof -
  have b: "sint b \<noteq> 0" using assms by (simp add: sint_0_iff)
  show lt: "\<bar>sint a smod sint b\<bar> < \<bar>sint b\<bar>" using smod_int_range [OF b, of "sint a"] by auto
  show "0 \<le> sint a \<Longrightarrow> 0 \<le> sint a smod sint b" "sint a \<le> 0 \<Longrightarrow> sint a smod sint b \<le> 0"
    using b by (auto simp: signed_modulo_int_def sgn_if)
  have "\<bar>sint b\<bar> \<le> 2 ^ 31" using sint_range [of b] by auto
  then show "sint (word_of_int (sint a smod sint b) :: u32) = sint a smod sint b"
    using lt by (simp add: signed_of_int signed_take_bit_int_eq_self)
qed

lemma signed_quotient_identity:
  fixes a b :: u32
  shows "a = word_of_int (sint a sdiv sint b) * b + word_of_int (sint a smod sint b)"
proof -
  have "word_of_int (sint a sdiv sint b * sint b + sint a smod sint b) = (word_of_int (sint a) :: u32)"
    by (simp only: sdiv_mult_smod_eq)
  then show ?thesis by (simp only: of_int_add of_int_mult of_int_sint scast_id)
qed

text \<open>
  C22: Division and remainder, signed and unsigned, satisfy the division identity: for a divisor
  other than 0 the dividend is quotient times divisor plus remainder, the remainder is smaller
  in magnitude than the divisor and has the dividend's sign; division by 0 gives all ones and
  the dividend. The overflowing case is included, and none of the four callbacks fails.
\<close>

theorem division_identity:
  assumes "sim_ok s"
  shows "\<exists>q r qu ru.
    CallbackDIV c insn s = Inr (retire insn q s) \<and> CallbackREM c insn s = Inr (retire insn r s) \<and>
    CallbackDIVU c insn s = Inr (retire insn qu s) \<and> CallbackREMU c insn s = Inr (retire insn ru s) \<and>
    (let a = rs1_val insn s; b = rs2_val insn s in
      if b = 0 then q = - 1 \<and> qu = - 1 \<and> r = a \<and> ru = a
      else a = q * b + r \<and> \<bar>sint r\<bar> < \<bar>sint b\<bar> \<and> (0 \<le> sint a \<longrightarrow> 0 \<le> sint r) \<and>
        (sint a \<le> 0 \<longrightarrow> sint r \<le> 0) \<and> a = qu * b + ru \<and> ru < b)"
proof -
  let ?a = "rs1_val insn s" and ?b = "rs2_val insn s"
  note d = ext_m_effect(3-6) [OF assms, of c insn]
  have u: "?a = (?a div ?b) * ?b + ?a mod ?b" by (simp add: div_mult_mod_eq)
  show ?thesis
    using signed_remainder [of ?b ?a] signed_quotient_identity [of ?a ?b] u word_mod_less_divisor [of ?b ?a]
    unfolding d Let_def
    by (intro exI conjI) (auto simp: word_gt_0 word_div_def word_mod_def)
qed

lemma division_identity_witness:
  "\<exists>q r. CallbackDIV \<lparr>ndebug = False\<rparr> 0x0223c1b3 sample_machine = Inr (retire 0x0223c1b3 q sample_machine) \<and>
     CallbackREM \<lparr>ndebug = False\<rparr> 0x0223c1b3 sample_machine = Inr (retire 0x0223c1b3 r sample_machine) \<and>
     7 = q * 2 + r \<and> \<bar>sint r\<bar> < 2"
proof -
  let ?i = "0x0223c1b3 :: u32"
  have "unat (Rs1 ?i) = 7" "unat (Rs2 ?i) = 2" by (simp_all add: Rs1_def Rs2_def)
  then have v: "rs1_val ?i sample_machine = 7" "rs2_val ?i sample_machine = 2"
    by (simp_all add: sample_machine_regs)
  show ?thesis
    using division_identity [OF sample_machine_ok, of "\<lparr>ndebug = False\<rparr>" ?i] unfolding v Let_def by auto
qed

text \<open>
  C32: \<open>MUL\<close> delivers the low half and \<open>MULHU\<close> the high half of the product, as the manual
  says. \<open>MULH\<close> does not multiply signed numbers: it delivers \<open>MULHU\<close>'s result, and where the
  unsigned product reaches \<open>2 ^ 63\<close> its \<open>int64_t\<close> multiplication overflows, which is
  undefined. \<open>MULHSU\<close> delivers the signed-by-signed result of the manual's \<open>MULH\<close>.
\<close>

theorem multiplication_results:
  assumes "sim_ok s"
  shows "CallbackMUL c insn s = Inr (retire insn (isa_m MUL (rs1_val insn s) (rs2_val insn s)) s) \<and>
    CallbackMULHU c insn s = Inr (retire insn (isa_m MULHU (rs1_val insn s) (rs2_val insn s)) s) \<and>
    CallbackMULH c insn s =
      (if uint (rs1_val insn s) * uint (rs2_val insn s) < 2 ^ 63
       then Inr (retire insn (isa_m MULHU (rs1_val insn s) (rs2_val insn s)) s)
       else ub SignedOverflow) \<and>
    CallbackMULHSU c insn s = Inr (retire insn (isa_m MULH (rs1_val insn s) (rs2_val insn s)) s)"
  by (intro conjI ext_m_effects assms)

lemma multiplication_results_witness:
  "CallbackMULH \<lparr>ndebug = True\<rparr> 0x022091b3 (xput 1 (- 1) (xput 2 (- 1) sample_machine)) = ub SignedOverflow"
proof -
  let ?s = "xput 1 (- 1) (xput 2 (- 1) sample_machine)" and ?i = "0x022091b3 :: u32"
  have "unat (Rs1 ?i) = 1" "unat (Rs2 ?i) = 2" by (simp_all add: Rs1_def Rs2_def)
  moreover have "uint (- 1 :: u32) = 2 ^ 32 - 1" by (simp add: unsigned_minus_1_eq_mask mask_eq_exp_minus_1)
  moreover have "sim_ok ?s" using sample_machine_ok by simp
  ultimately show ?thesis
    using multiplication_results [of ?s "\<lparr>ndebug = True\<rparr>" ?i] sample_machine_ok by simp
qed

end
