(* ===== verification/RV_Ext_Zbb.thy ===== *)
theory RV_Ext_Zbb
  imports RV_Ext_I
begin

text \<open>
  The callbacks of the bit-manipulation extension, \<open>isa/ext_zbb_cb.cpp\<close>, with their loops,
  and the results the RISC-V manual defines for them. Every callback agrees with the manual,
  but the rotations are undefined for a rotation by 0: the code shifts by
  \<open>kXlen - shamt\<close>, which is then the whole width.
\<close>

section \<open>The loops\<close>

text \<open>\<open>for (i = kXlen - 1; i >= 0; i--)\<close>; the argument is the number of bits left to test.\<close>

fun CLZ_loop :: "'z config_scheme \<Rightarrow> u32 \<Rightarrow> nat \<Rightarrow> error + int" where
  "CLZ_loop c rs 0 = Inr (- 1)"
| "CLZ_loop c rs (Suc i) =
     and_then (IsBitSet c rs i) (\<lambda>b. if b then Inr (int i) else CLZ_loop c rs i)"

text \<open>\<open>for (i = 0; i <= kXlen - 1; i++)\<close>; the second number counts the iterations left.\<close>

fun CTZ_loop :: "'z config_scheme \<Rightarrow> u32 \<Rightarrow> nat \<Rightarrow> nat \<Rightarrow> error + nat" where
  "CTZ_loop c rs i 0 = Inr kXlen"
| "CTZ_loop c rs i (Suc n) =
     and_then (IsBitSet c rs i) (\<lambda>b. if b then Inr i else CTZ_loop c rs (Suc i) n)"

fun CPOP_loop :: "'z config_scheme \<Rightarrow> u32 \<Rightarrow> nat \<Rightarrow> nat \<Rightarrow> nat \<Rightarrow> error + nat" where
  "CPOP_loop c rs bcount i 0 = Inr bcount"
| "CPOP_loop c rs bcount i (Suc n) =
     and_then (IsBitSet c rs i) (\<lambda>b.
     CPOP_loop c rs (if b then Suc bcount else bcount) (Suc i) n)"

text \<open>\<open>for (i = 0; i < kXlenByte; i++, j--)\<close> with \<open>j = kXlenByte - 1\<close> at the start.\<close>

fun REV8_loop :: "'z config_scheme \<Rightarrow> u32 \<Rightarrow> u32 \<Rightarrow> nat \<Rightarrow> nat \<Rightarrow> nat \<Rightarrow> error + u32" where
  "REV8_loop c rs val i j 0 = Inr val"
| "REV8_loop c rs val i j (Suc n) =
     and_then (GetByte c rs j) (\<lambda>b.
     and_then (SetByte c val b i) (\<lambda>val.
     REV8_loop c rs val (Suc i) (j - 1) n))"

fun ORC_B_loop :: "'z config_scheme \<Rightarrow> u32 \<Rightarrow> u32 \<Rightarrow> nat \<Rightarrow> nat \<Rightarrow> error + u32" where
  "ORC_B_loop c rs val i 0 = Inr val"
| "ORC_B_loop c rs val i (Suc n) =
     and_then (GetByte c rs i) (\<lambda>b.
     and_then (if b = 0 then SetByte c val 0 i else SetByte c val (NOT 0) i) (\<lambda>val.
     ORC_B_loop c rs val (Suc i) n))"

section \<open>The callbacks\<close>

definition CallbackANDN :: "('z, 'm) callback" where
  "CallbackANDN c insn s =
     and_then (GetXReg c (unat (Rs1 insn)) s) (\<lambda>rs1.
     and_then (GetXReg c (unat (Rs2 insn)) s) (\<lambda>rs2.
     let res = rs1 AND NOT rs2 in
     and_then (SetXReg c (unat (Rd insn)) res s) (\<lambda>s.
     Inr (Step s))))"

definition CallbackORN :: "('z, 'm) callback" where
  "CallbackORN c insn s =
     and_then (GetXReg c (unat (Rs1 insn)) s) (\<lambda>rs1.
     and_then (GetXReg c (unat (Rs2 insn)) s) (\<lambda>rs2.
     let res = rs1 OR NOT rs2 in
     and_then (SetXReg c (unat (Rd insn)) res s) (\<lambda>s.
     Inr (Step s))))"

definition CallbackXNOR :: "('z, 'm) callback" where
  "CallbackXNOR c insn s =
     and_then (GetXReg c (unat (Rs1 insn)) s) (\<lambda>rs1.
     and_then (GetXReg c (unat (Rs2 insn)) s) (\<lambda>rs2.
     let res = NOT (rs1 XOR rs2) in
     and_then (SetXReg c (unat (Rd insn)) res s) (\<lambda>s.
     Inr (Step s))))"

definition CallbackMIN :: "('z, 'm) callback" where
  "CallbackMIN c insn s =
     and_then (GetXReg c (unat (Rs1 insn)) s) (\<lambda>rs1.
     and_then (GetXReg c (unat (Rs2 insn)) s) (\<lambda>rs2.
     let res = (if RegToIReg rs1 < RegToIReg rs2 then rs1 else rs2) in
     and_then (SetXReg c (unat (Rd insn)) res s) (\<lambda>s.
     Inr (Step s))))"

definition CallbackMINU :: "('z, 'm) callback" where
  "CallbackMINU c insn s =
     and_then (GetXReg c (unat (Rs1 insn)) s) (\<lambda>rs1.
     and_then (GetXReg c (unat (Rs2 insn)) s) (\<lambda>rs2.
     let res = (if rs1 < rs2 then rs1 else rs2) in
     and_then (SetXReg c (unat (Rd insn)) res s) (\<lambda>s.
     Inr (Step s))))"

definition CallbackMAX :: "('z, 'm) callback" where
  "CallbackMAX c insn s =
     and_then (GetXReg c (unat (Rs1 insn)) s) (\<lambda>rs1.
     and_then (GetXReg c (unat (Rs2 insn)) s) (\<lambda>rs2.
     let res = (if RegToIReg rs1 < RegToIReg rs2 then rs2 else rs1) in
     and_then (SetXReg c (unat (Rd insn)) res s) (\<lambda>s.
     Inr (Step s))))"

definition CallbackMAXU :: "('z, 'm) callback" where
  "CallbackMAXU c insn s =
     and_then (GetXReg c (unat (Rs1 insn)) s) (\<lambda>rs1.
     and_then (GetXReg c (unat (Rs2 insn)) s) (\<lambda>rs2.
     let res = (if rs1 < rs2 then rs2 else rs1) in
     and_then (SetXReg c (unat (Rd insn)) res s) (\<lambda>s.
     Inr (Step s))))"

definition CallbackSEXT_B :: "('z, 'm) callback" where
  "CallbackSEXT_B c insn s =
     and_then (GetXReg c (unat (Rs1 insn)) s) (\<lambda>rs.
     let res = SignExt (TruncHigh rs :: u8) in
     and_then (SetXReg c (unat (Rd insn)) res s) (\<lambda>s.
     Inr (Step s)))"

definition CallbackSEXT_H :: "('z, 'm) callback" where
  "CallbackSEXT_H c insn s =
     and_then (GetXReg c (unat (Rs1 insn)) s) (\<lambda>rs.
     let res = SignExt (TruncHigh rs :: u16) in
     and_then (SetXReg c (unat (Rd insn)) res s) (\<lambda>s.
     Inr (Step s)))"

definition CallbackZEXT_H :: "('z, 'm) callback" where
  "CallbackZEXT_H c insn s =
     and_then (GetXReg c (unat (Rs1 insn)) s) (\<lambda>rs.
     let res = ucast (TruncHigh rs :: u16) in
     and_then (SetXReg c (unat (Rd insn)) res s) (\<lambda>s.
     Inr (Step s)))"

text \<open>
  \<open>(kXlen - 1) - highest_set\<close> mixes \<open>size_t\<close> with \<open>int64_t\<close>: a 64-bit difference, truncated.
\<close>

definition CallbackCLZ :: "('z, 'm) callback" where
  "CallbackCLZ c insn s =
     and_then (GetXReg c (unat (Rs1 insn)) s) (\<lambda>rs.
     and_then (CLZ_loop c rs kXlen) (\<lambda>highest_set.
     and_then (SetXReg c (unat (Rd insn)) (ucast ((of_nat (kXlen - 1) :: u64) - word_of_int highest_set)) s) (\<lambda>s.
     Inr (Step s))))"

definition CallbackCTZ :: "('z, 'm) callback" where
  "CallbackCTZ c insn s =
     and_then (GetXReg c (unat (Rs1 insn)) s) (\<lambda>rs.
     and_then (CTZ_loop c rs 0 kXlen) (\<lambda>lowest_set.
     and_then (SetXReg c (unat (Rd insn)) (of_nat lowest_set) s) (\<lambda>s.
     Inr (Step s))))"

definition CallbackCPOP :: "('z, 'm) callback" where
  "CallbackCPOP c insn s =
     and_then (GetXReg c (unat (Rs1 insn)) s) (\<lambda>rs.
     and_then (CPOP_loop c rs 0 0 kXlen) (\<lambda>bcount.
     and_then (SetXReg c (unat (Rd insn)) (of_nat bcount) s) (\<lambda>s.
     Inr (Step s))))"

definition CallbackROL :: "('z, 'm) callback" where
  "CallbackROL c insn s =
     and_then (GetXReg c (unat (Rs2 insn)) s) (\<lambda>rs2.
     let shamt = unat (rs2 AND (of_nat kXlen - 1)) in
     and_then (GetXReg c (unat (Rs1 insn)) s) (\<lambda>rs1.
     and_then (shl rs1 shamt) (\<lambda>x.
     and_then (shr rs1 (kXlen - shamt)) (\<lambda>y.
     and_then (SetXReg c (unat (Rd insn)) (x OR y) s) (\<lambda>s.
     Inr (Step s))))))"

definition CallbackROR :: "('z, 'm) callback" where
  "CallbackROR c insn s =
     and_then (GetXReg c (unat (Rs2 insn)) s) (\<lambda>rs2.
     let shamt = unat (rs2 AND (of_nat kXlen - 1)) in
     and_then (GetXReg c (unat (Rs1 insn)) s) (\<lambda>rs1.
     and_then (shr rs1 shamt) (\<lambda>x.
     and_then (shl rs1 (kXlen - shamt)) (\<lambda>y.
     and_then (SetXReg c (unat (Rd insn)) (x OR y) s) (\<lambda>s.
     Inr (Step s))))))"

definition CallbackRORI :: "('z, 'm) callback" where
  "CallbackRORI c insn s =
     (let shamt = unat (Shamt insn) in
     and_then (GetXReg c (unat (Rs1 insn)) s) (\<lambda>rs1.
     and_then (shr rs1 shamt) (\<lambda>x.
     and_then (shl rs1 (kXlen - shamt)) (\<lambda>y.
     and_then (SetXReg c (unat (Rd insn)) (x OR y) s) (\<lambda>s.
     Inr (Step s))))))"

definition CallbackREV8 :: "('z, 'm) callback" where
  "CallbackREV8 c insn s =
     and_then (GetXReg c (unat (Rs1 insn)) s) (\<lambda>rs.
     and_then (REV8_loop c rs 0 0 (kXlenByte - 1) kXlenByte) (\<lambda>val.
     and_then (SetXReg c (unat (Rd insn)) (val) s) (\<lambda>s.
     Inr (Step s))))"

definition CallbackORC_B :: "('z, 'm) callback" where
  "CallbackORC_B c insn s =
     and_then (GetXReg c (unat (Rs1 insn)) s) (\<lambda>rs.
     and_then (ORC_B_loop c rs 0 0 kXlenByte) (\<lambda>val.
     and_then (SetXReg c (unat (Rd insn)) (val) s) (\<lambda>s.
     Inr (Step s))))"

lemmas ext_zbb_defs =
  CallbackANDN_def CallbackORN_def CallbackXNOR_def CallbackMIN_def CallbackMINU_def
  CallbackMAX_def CallbackMAXU_def CallbackSEXT_B_def CallbackSEXT_H_def CallbackZEXT_H_def
  CallbackCLZ_def CallbackCTZ_def CallbackCPOP_def CallbackROL_def CallbackROR_def
  CallbackRORI_def CallbackREV8_def CallbackORC_B_def

section \<open>The results the manual defines\<close>

fun isa_zbb :: "ext_zbb_mnem \<Rightarrow> u32 \<Rightarrow> u32 \<Rightarrow> u32" where
  "isa_zbb ANDN a b = a AND NOT b"
| "isa_zbb ORN a b = a OR NOT b"
| "isa_zbb XNOR a b = NOT (a XOR b)"
| "isa_zbb MIN_insn a b = word_of_int (min (sint a) (sint b))"
| "isa_zbb MINU a b = word_of_int (min (uint a) (uint b))"
| "isa_zbb MAX_insn a b = word_of_int (max (sint a) (sint b))"
| "isa_zbb MAXU a b = word_of_int (max (uint a) (uint b))"
| "isa_zbb SEXT_B a b = signed_take_bit 7 a"
| "isa_zbb SEXT_H a b = signed_take_bit 15 a"
| "isa_zbb ZEXT_H a b = take_bit 16 a"
| "isa_zbb CLZ a b = of_nat (length (takeWhile Not (map (bit a) (rev [0..<32]))))"
| "isa_zbb CTZ a b = of_nat (length (takeWhile Not (map (bit a) [0..<32])))"
| "isa_zbb CPOP a b = of_nat (length (filter (bit a) [0..<32]))"
| "isa_zbb ROL a b = word_rotl (unat b mod 32) a"
| "isa_zbb ROR a b = word_rotr (unat b mod 32) a"
| "isa_zbb RORI a b = word_rotr (unat b mod 32) a"
| "isa_zbb REV8 a b = le_word (rev (le_bytes 4 a))"
| "isa_zbb ORC_B a b = le_word (map (\<lambda>x. if x = 0 then 0 else - 1) (le_bytes 4 a))"

section \<open>What the loops compute\<close>

lemma CLZ_loop_ok:
  "n \<le> 32 \<Longrightarrow>
    CLZ_loop c rs n = Inr (int n - 1 - int (length (takeWhile Not (map (bit rs) (rev [0..<n])))))"
  by (induction n) auto

lemma CTZ_loop_ok:
  "i + n = 32 \<Longrightarrow>
    CTZ_loop c rs i n = Inr (i + length (takeWhile Not (map (bit rs) [i..<32])))"
proof (induction n arbitrary: i)
  case 0
  then show ?case by simp
next
  case (Suc n)
  then have "[i..<32] = i # [Suc i..<32]" by (simp add: upt_conv_Cons)
  then show ?case using Suc by simp
qed

lemma CPOP_loop_ok:
  "i + n = 32 \<Longrightarrow>
    CPOP_loop c rs k i n = Inr (k + length (filter (bit rs) [i..<32]))"
proof (induction n arbitrary: i k)
  case 0
  then show ?case by simp
next
  case (Suc n)
  then have "[i..<32] = i # [Suc i..<32]" by (simp add: upt_conv_Cons)
  then show ?case using Suc by simp
qed

lemma CLZ_result:
  "ucast ((of_nat 31 :: u64) - word_of_int (int 32 - 1 - int n)) = (of_nat n :: u32)"
proof -
  have "ucast (of_nat n :: u64) = (of_nat n :: u32)"
    by (rule bit_word_eqI) (simp add: bit_simps)
  then show ?thesis by simp
qed

lemma GetByte_ok [simp]: "i < 4 \<Longrightarrow> GetByte c (v :: u32) i = Inr (ucast (drop_bit (8 * i) v))"
  by (simp add: GetByte_def TruncHigh_ucast mult.commute)

text \<open>
  \<open>SetByte\<close> keeps the bytes below the one it writes and clears those above: its mask is
  right for loops that fill a word from byte 0 upwards, as its two callers do.
\<close>

lemma SetByte_ok:
  assumes "i < 4"
  shows "SetByte c v b i = Inr (take_bit (8 * i) v OR push_bit (8 * i) (ucast b))"
proof -
  have "NOT (push_bit (i * 8) (NOT 0 :: u32)) = mask (i * 8)"
    by (rule bit_word_eqI) (auto simp: bit_simps)
  then show ?thesis using assms
    by (simp add: SetByte_def take_bit_eq_mask mult.commute Let_def)
qed

text \<open>On a value made of bytes \<open>0\<close> to \<open>i - 1\<close>, \<open>SetByte\<close> at \<open>i\<close> appends a byte.\<close>

lemma SetByte_appends:
  assumes "length bs < 4" "i = length bs"
  shows "SetByte c (le_word bs) b i = Inr (le_word (bs @ [b]))"
proof -
  have "take_bit (8 * length bs) (le_word bs :: u32) OR push_bit (8 * length bs) (ucast b) =
      (le_word (bs @ [b]) :: u32)"
  proof (rule bit_word_eqI)
    fix i
    assume i: "i < LENGTH(32)"
    show "bit (take_bit (8 * length bs) (le_word bs :: u32) OR push_bit (8 * length bs) (ucast b)) i =
        bit (le_word (bs @ [b]) :: u32) i"
    proof (cases "i < 8 * length bs")
      case True
      then have "i div 8 < length bs" by auto
      then show ?thesis using i True
        by (simp add: bit_or_iff bit_take_bit_iff bit_push_bit_iff bit_le_word nth_append)
    next
      case False
      then obtain r where r: "i = 8 * length bs + r" by (metis le_Suc_ex not_less)
      have "bit b r \<Longrightarrow> r < 8" using bit_imp_le_length [of b r] by simp
      then show ?thesis using i r
        by (auto simp: bit_or_iff bit_take_bit_iff bit_push_bit_iff bit_ucast_iff bit_le_word nth_append)
    qed
  qed
  then show ?thesis using assms by (simp add: SetByte_ok)
qed

lemma GetByte_le_bytes: "i < 4 \<Longrightarrow> GetByte c (v :: u32) i = Inr (le_bytes 4 v ! i)"
  by (simp add: nth_le_bytes)

lemma le_bytes_4: "le_bytes 4 v = [le_bytes 4 v ! 0, le_bytes 4 v ! 1, le_bytes 4 v ! 2, le_bytes 4 v ! 3]"
  by (simp add: eval_nat_numeral)

lemma REV8_loop_ok: "REV8_loop c a 0 0 3 4 = Inr (le_word (rev (le_bytes 4 a)))"
proof -
  have "REV8_loop c a (le_word []) 0 3 4 =
      Inr (le_word ([le_bytes 4 a ! 3] @ [le_bytes 4 a ! 2] @ [le_bytes 4 a ! 1] @ [le_bytes 4 a ! 0]))"
    using SetByte_appends [of "[]" _ c, OF _ refl] SetByte_appends [of "[x]" _ c for x, OF _ refl]
      SetByte_appends [of "[x, y]" _ c for x y, OF _ refl]
      SetByte_appends [of "[x, y, z]" _ c for x y z, OF _ refl]
    by (simp add: eval_nat_numeral GetByte_le_bytes del: le_word.simps le_bytes.simps GetByte_ok)
  then show ?thesis by (subst le_bytes_4) simp
qed

lemma ORC_B_loop_ok:
  "ORC_B_loop c a 0 0 4 = Inr (le_word (map (\<lambda>x. if x = 0 then 0 else - 1) (le_bytes 4 a)))"
proof -
  let ?f = "\<lambda>x :: u8. if x = 0 then 0 else - 1 :: u8"
  have set: "(if b = 0 then SetByte c v 0 i else SetByte c v (NOT 0) i) = SetByte c v (?f b) i"
    for v b i by simp
  have "ORC_B_loop c a (le_word []) 0 4 =
      Inr (le_word ([?f (le_bytes 4 a ! 0)] @ [?f (le_bytes 4 a ! 1)] @ [?f (le_bytes 4 a ! 2)]
        @ [?f (le_bytes 4 a ! 3)]))"
    using SetByte_appends [of "[]" _ c, OF _ refl] SetByte_appends [of "[x]" _ c for x, OF _ refl]
      SetByte_appends [of "[x, y]" _ c for x y, OF _ refl]
      SetByte_appends [of "[x, y, z]" _ c for x y z, OF _ refl]
    by (simp add: eval_nat_numeral GetByte_le_bytes set
        del: le_word.simps le_bytes.simps GetByte_ok split del: if_split)
  then show ?thesis by (subst le_bytes_4) simp
qed

lemma rotations:
  assumes "n < 32"
  shows "push_bit n a OR drop_bit (32 - n) a = word_rotl n (a :: u32)"
    and "drop_bit n a OR push_bit (32 - n) a = word_rotr n (a :: u32)"
proof -
  have r: "(i + n) mod 32 = (if i + n < 32 then i + n else i + n - 32)" if "i < 32" for i
    using that assms by (auto simp: mod_if)
  show "drop_bit n a OR push_bit (32 - n) a = word_rotr n a"
    using assms by (intro bit_word_eqI) (auto simp: bit_simps r bit_word_outside add.commute)
  have l: "(i + 32 - n) mod 32 = (if i < n then 32 + i - n else i - n)" if "i < 32" for i
    using that assms by (auto simp: mod_if)
  show "push_bit n a OR drop_bit (32 - n) a = word_rotl n a"
    using assms by (intro bit_word_eqI) (auto simp: bit_simps l bit_word_outside)
qed

section \<open>The effect of the callbacks on a well-formed state\<close>

lemma minmax_results:
  "(if RegToIReg a < RegToIReg b then a else b) = isa_zbb MIN_insn a b"
  "(if a < b then a else b) = isa_zbb MINU a b"
  "(if RegToIReg a < RegToIReg b then b else a) = isa_zbb MAX_insn a b"
  "(if a < b then b else a) = isa_zbb MAXU a b"
  by (simp_all add: RegToIReg_def min_def max_def word_less_def)

lemma extension_results:
  "SignExt (TruncHigh a :: u8) = signed_take_bit 7 (a :: u32)"
  "SignExt (TruncHigh a :: u16) = signed_take_bit 15 (a :: u32)"
  "ucast (TruncHigh a :: u16) = take_bit 16 (a :: u32)"
  by (simp_all add: SignExt_scast TruncHigh_ucast, (rule bit_word_eqI, auto simp: bit_simps min_def)+)

lemma ext_zbb_effect:
  assumes "sim_ok s"
  shows
  "CallbackANDN c insn s = Inr (retire insn (isa_zbb ANDN (rs1_val insn s) (rs2_val insn s)) s)"
  "CallbackORN c insn s = Inr (retire insn (isa_zbb ORN (rs1_val insn s) (rs2_val insn s)) s)"
  "CallbackXNOR c insn s = Inr (retire insn (isa_zbb XNOR (rs1_val insn s) (rs2_val insn s)) s)"
  "CallbackMIN c insn s = Inr (retire insn (isa_zbb MIN_insn (rs1_val insn s) (rs2_val insn s)) s)"
  "CallbackMINU c insn s = Inr (retire insn (isa_zbb MINU (rs1_val insn s) (rs2_val insn s)) s)"
  "CallbackMAX c insn s = Inr (retire insn (isa_zbb MAX_insn (rs1_val insn s) (rs2_val insn s)) s)"
  "CallbackMAXU c insn s = Inr (retire insn (isa_zbb MAXU (rs1_val insn s) (rs2_val insn s)) s)"
  "CallbackSEXT_B c insn s = Inr (retire insn (isa_zbb SEXT_B (rs1_val insn s) (rs2_val insn s)) s)"
  "CallbackSEXT_H c insn s = Inr (retire insn (isa_zbb SEXT_H (rs1_val insn s) (rs2_val insn s)) s)"
  "CallbackZEXT_H c insn s = Inr (retire insn (isa_zbb ZEXT_H (rs1_val insn s) (rs2_val insn s)) s)"
  "CallbackCLZ c insn s = Inr (retire insn (isa_zbb CLZ (rs1_val insn s) (rs2_val insn s)) s)"
  "CallbackCTZ c insn s = Inr (retire insn (isa_zbb CTZ (rs1_val insn s) (rs2_val insn s)) s)"
  "CallbackCPOP c insn s = Inr (retire insn (isa_zbb CPOP (rs1_val insn s) (rs2_val insn s)) s)"
  "CallbackREV8 c insn s = Inr (retire insn (isa_zbb REV8 (rs1_val insn s) (rs2_val insn s)) s)"
  "CallbackORC_B c insn s = Inr (retire insn (isa_zbb ORC_B (rs1_val insn s) (rs2_val insn s)) s)"
  using assms
  by (simp_all only: ext_zbb_defs Let_def GetXReg_ok SetXReg_ok reg_fields_less and_then_Inr
      minmax_results kXlen_eq CLZ_loop_ok CTZ_loop_ok CPOP_loop_ok retire_def)
    (simp_all add: extension_results REV8_loop_ok ORC_B_loop_ok kXlenByte_def CLZ_loop_ok CTZ_loop_ok CPOP_loop_ok
      CLZ_result [simplified])

text \<open>The rotations: undefined for 0, right for every other amount.\<close>

lemma ext_zbb_rotate_effect:
  assumes "sim_ok s"
  shows "CallbackROL c insn s =
      (if unat (rs2_val insn s) mod 32 = 0 then ub ShiftTooLarge
       else Inr (retire insn (isa_zbb ROL (rs1_val insn s) (rs2_val insn s)) s))"
    and "CallbackROR c insn s =
      (if unat (rs2_val insn s) mod 32 = 0 then ub ShiftTooLarge
       else Inr (retire insn (isa_zbb ROR (rs1_val insn s) (rs2_val insn s)) s))"
    and "CallbackRORI c insn s =
      (if Shamt insn = 0 then ub ShiftTooLarge
       else Inr (retire insn (isa_zbb RORI (rs1_val insn s) (Shamt insn)) s))"
proof -
  have b: "unat (x AND 31) = unat x mod 32" for x :: u32 by (rule mod_32_and)
  have full: "shl a 32 = ub ShiftTooLarge" "shr a 32 = ub ShiftTooLarge" for a :: u32
    by (simp_all add: shl_def shr_def)
  have stop: "and_then (ub u) f = ub u" for u and f :: "u32 \<Rightarrow> error + 'm rvsim_scheme"
    by (simp add: ub_def)
  show "CallbackROL c insn s =
      (if unat (rs2_val insn s) mod 32 = 0 then ub ShiftTooLarge
       else Inr (retire insn (isa_zbb ROL (rs1_val insn s) (rs2_val insn s)) s))"
    "CallbackROR c insn s =
      (if unat (rs2_val insn s) mod 32 = 0 then ub ShiftTooLarge
       else Inr (retire insn (isa_zbb ROR (rs1_val insn s) (rs2_val insn s)) s))"
    using assms by (simp_all add: CallbackROL_def CallbackROR_def Let_def b full stop rotations retire_def)
  have m: "unat (Shamt insn) mod 32 = unat (Shamt insn)" using reg_fields_less(5) by simp
  show "CallbackRORI c insn s =
      (if Shamt insn = 0 then ub ShiftTooLarge
       else Inr (retire insn (isa_zbb RORI (rs1_val insn s) (Shamt insn)) s))"
    using assms by (simp add: CallbackRORI_def Let_def full stop rotations m retire_def unat_eq_0 unat_gt_0)
qed

lemmas ext_zbb_effects = ext_zbb_effect ext_zbb_rotate_effect

section \<open>Properties\<close>

text \<open>
  C26: The 18 bit-manipulation callbacks deliver the results the manual defines, in both builds,
  the rotations for every amount but 0 (modulo 32) and the others for every operand: the loops of
  \<open>CLZ\<close>, \<open>CTZ\<close> and \<open>CPOP\<close> count leading zeros, trailing zeros and ones, those of \<open>REV8\<close> and
  \<open>ORC_B\<close> reverse the bytes and widen each nonzero byte to all ones, minimum and maximum compare
  as signed and unsigned numbers, and the extensions take the low bits.
\<close>

theorem zbb_results:
  assumes "sim_ok s"
  shows
  "CallbackANDN c insn s = Inr (retire insn (isa_zbb ANDN (rs1_val insn s) (rs2_val insn s)) s) \<and>
   CallbackORN c insn s = Inr (retire insn (isa_zbb ORN (rs1_val insn s) (rs2_val insn s)) s) \<and>
   CallbackXNOR c insn s = Inr (retire insn (isa_zbb XNOR (rs1_val insn s) (rs2_val insn s)) s) \<and>
   CallbackMIN c insn s = Inr (retire insn (isa_zbb MIN_insn (rs1_val insn s) (rs2_val insn s)) s) \<and>
   CallbackMINU c insn s = Inr (retire insn (isa_zbb MINU (rs1_val insn s) (rs2_val insn s)) s) \<and>
   CallbackMAX c insn s = Inr (retire insn (isa_zbb MAX_insn (rs1_val insn s) (rs2_val insn s)) s) \<and>
   CallbackMAXU c insn s = Inr (retire insn (isa_zbb MAXU (rs1_val insn s) (rs2_val insn s)) s) \<and>
   CallbackSEXT_B c insn s = Inr (retire insn (isa_zbb SEXT_B (rs1_val insn s) (rs2_val insn s)) s) \<and>
   CallbackSEXT_H c insn s = Inr (retire insn (isa_zbb SEXT_H (rs1_val insn s) (rs2_val insn s)) s) \<and>
   CallbackZEXT_H c insn s = Inr (retire insn (isa_zbb ZEXT_H (rs1_val insn s) (rs2_val insn s)) s) \<and>
   CallbackCLZ c insn s = Inr (retire insn (isa_zbb CLZ (rs1_val insn s) (rs2_val insn s)) s) \<and>
   CallbackCTZ c insn s = Inr (retire insn (isa_zbb CTZ (rs1_val insn s) (rs2_val insn s)) s) \<and>
   CallbackCPOP c insn s = Inr (retire insn (isa_zbb CPOP (rs1_val insn s) (rs2_val insn s)) s) \<and>
   CallbackREV8 c insn s = Inr (retire insn (isa_zbb REV8 (rs1_val insn s) (rs2_val insn s)) s) \<and>
   CallbackORC_B c insn s = Inr (retire insn (isa_zbb ORC_B (rs1_val insn s) (rs2_val insn s)) s) \<and>
   (unat (rs2_val insn s) mod 32 \<noteq> 0 \<longrightarrow>
     CallbackROL c insn s = Inr (retire insn (isa_zbb ROL (rs1_val insn s) (rs2_val insn s)) s) \<and>
     CallbackROR c insn s = Inr (retire insn (isa_zbb ROR (rs1_val insn s) (rs2_val insn s)) s)) \<and>
   (Shamt insn \<noteq> 0 \<longrightarrow>
     CallbackRORI c insn s = Inr (retire insn (isa_zbb RORI (rs1_val insn s) (Shamt insn)) s))"
  by (intro conjI impI ext_zbb_effect assms) (simp_all add: ext_zbb_rotate_effect assms del: isa_zbb.simps)

lemma zbb_results_witness:
  "CallbackORC_B \<lparr>ndebug = False\<rparr> 0x2872d093 sample_machine = Inr (retire 0x2872d093 0xff sample_machine) \<and>
   CallbackREV8 \<lparr>ndebug = False\<rparr> 0x2872d093 sample_machine = Inr (retire 0x2872d093 0x05000000 sample_machine)"
proof -
  have "unat (Rs1 0x2872d093) = 5" by (simp add: Rs1_def)
  then have v: "rs1_val 0x2872d093 sample_machine = 5" by (simp add: sample_machine_regs)
  have "le_bytes 4 (5 :: u32) = [5, 0, 0, 0]" by (subst le_bytes_4) (simp add: nth_le_bytes)
  then have "isa_zbb ORC_B 5 b = 0xff" "isa_zbb REV8 5 b = 0x05000000" for b
    by (simp_all add: unsigned_minus_1_eq_mask mask_eq_exp_minus_1)
  then show ?thesis
    using zbb_results [OF sample_machine_ok, of "\<lparr>ndebug = False\<rparr>" "0x2872d093"] unfolding v
    by (simp del: isa_zbb.simps)
qed

text \<open>
  C34: The rotations are right for every amount from 1 to 31 (modulo 32 for the register forms)
  and undefined for 0: the complementary shift is then by the full width.
\<close>

theorem zbb_rotations:
  assumes "sim_ok s"
  shows "CallbackROL c insn s =
      (if unat (rs2_val insn s) mod 32 = 0 then ub ShiftTooLarge
       else Inr (retire insn (word_rotl (unat (rs2_val insn s) mod 32) (rs1_val insn s)) s)) \<and>
    CallbackROR c insn s =
      (if unat (rs2_val insn s) mod 32 = 0 then ub ShiftTooLarge
       else Inr (retire insn (word_rotr (unat (rs2_val insn s) mod 32) (rs1_val insn s)) s)) \<and>
    CallbackRORI c insn s =
      (if Shamt insn = 0 then ub ShiftTooLarge
       else Inr (retire insn (word_rotr (unat (Shamt insn)) (rs1_val insn s)) s))"
  using ext_zbb_rotate_effect [OF assms, of c insn] reg_fields_less(5) [of insn] by simp

lemma zbb_rotations_witness:
  "CallbackROL \<lparr>ndebug = True\<rparr> 0x600290b3 sample_machine = ub ShiftTooLarge"
proof -
  have "unat (Rs2 0x600290b3) = 0" by (simp add: Rs2_def)
  then show ?thesis using zbb_rotations [OF sample_machine_ok, of "\<lparr>ndebug = True\<rparr>" "0x600290b3"] by simp
qed

text \<open>
  \<open>GetByte\<close> reads a byte at each of the four positions, \<open>SetByte\<close> writes one, keeps the
  bytes below it and clears those above it; read after write returns the byte.
\<close>

lemma byte_accessors:
  assumes "i < 4"
  shows "GetByte c (v :: u32) i = Inr (le_bytes 4 v ! i) \<and>
    (\<exists>w. SetByte c v b i = Inr w \<and> GetByte c w i = Inr b \<and>
      le_bytes 4 w = take i (le_bytes 4 v) @ b # replicate (3 - i) 0)"
proof -
  let ?w = "take_bit (8 * i) v OR push_bit (8 * i) (ucast b)"
  have nth: "le_bytes 4 ?w ! j = (take i (le_bytes 4 v) @ b # replicate (3 - i) 0) ! j" if "j < 4" for j
  proof -
    have w: "le_bytes 4 ?w ! j = ucast (drop_bit (8 * j) ?w)" using that by (rule nth_le_bytes)
    consider "j < i" | "j = i" | "i < j" by linarith
    then show ?thesis
    proof cases
      case 1
      then have "8 * j + n < 8 * i" if "n < 8" for n using that by linarith
      then have "ucast (drop_bit (8 * j) ?w) = (ucast (drop_bit (8 * j) v) :: u8)"
        using 1 that assms by (intro bit_word_eqI) (simp add: bit_simps)
      then show ?thesis using 1 that assms unfolding w by (simp add: nth_append nth_le_bytes)
    next
      case 2
      have "ucast (drop_bit (8 * j) ?w) = b"
        using 2 that by (intro bit_word_eqI) (simp add: bit_simps)
      then show ?thesis using 2 assms unfolding w by (simp add: nth_append)
    next
      case 3
      then have "\<not> 8 * j + n < 8 * i" "\<not> bit b (8 * j + n - 8 * i)" for n
        using bit_imp_le_length [of b "8 * j + n - 8 * i"] by auto
      then have "ucast (drop_bit (8 * j) ?w) = (0 :: u8)"
        by (intro bit_word_eqI) (simp add: bit_simps)
      then show ?thesis using 3 that assms unfolding w by (auto simp: nth_append nth_Cons')
    qed
  qed
  have "le_bytes 4 ?w = take i (le_bytes 4 v) @ b # replicate (3 - i) 0"
    using assms nth by (intro nth_equalityI) simp_all
  then show ?thesis
    using assms nth [OF assms] by (simp add: SetByte_ok GetByte_le_bytes nth_append del: GetByte_ok)
qed

end
