(* ===== verification/RV_Ext_Zicsr.thy ===== *)
theory RV_Ext_Zicsr
  imports RV_Ext_I
begin

text \<open>
  The callbacks of the CSR extension, \<open>isa/ext_zicsr_cb.cpp\<close>. Each reads the register,
  writes it and then writes the old value to \<open>rd\<close>; the immediate forms use the \<open>rs1\<close> field
  itself as the operand. The three floating-point registers are the only ones the simulator
  knows; any other index fails an assertion in Debug, reads as 0 and ignores writes in Release.
\<close>

definition CallbackCSRRW :: "('z, 'm) callback" where
  "CallbackCSRRW c insn s =
     (let csr_idx = unat (ImmCSR insn) in
     and_then (GetCSR c csr_idx s) (\<lambda>tmp.
     and_then (GetXReg c (unat (Rs1 insn)) s) (\<lambda>rs1.
     and_then (SetCSR c csr_idx (rs1) s) (\<lambda>s.
     and_then (SetXReg c (unat (Rd insn)) tmp s) (\<lambda>s.
     Inr (Step s))))))"

definition CallbackCSRRS :: "('z, 'm) callback" where
  "CallbackCSRRS c insn s =
     (let csr_idx = unat (ImmCSR insn) in
     and_then (GetCSR c csr_idx s) (\<lambda>tmp.
     and_then (GetXReg c (unat (Rs1 insn)) s) (\<lambda>rs1.
     and_then (SetCSR c csr_idx (tmp OR rs1) s) (\<lambda>s.
     and_then (SetXReg c (unat (Rd insn)) tmp s) (\<lambda>s.
     Inr (Step s))))))"

definition CallbackCSRRC :: "('z, 'm) callback" where
  "CallbackCSRRC c insn s =
     (let csr_idx = unat (ImmCSR insn) in
     and_then (GetCSR c csr_idx s) (\<lambda>tmp.
     and_then (GetXReg c (unat (Rs1 insn)) s) (\<lambda>rs1.
     and_then (SetCSR c csr_idx (tmp AND NOT rs1) s) (\<lambda>s.
     and_then (SetXReg c (unat (Rd insn)) tmp s) (\<lambda>s.
     Inr (Step s))))))"

definition CallbackCSRRWI :: "('z, 'm) callback" where
  "CallbackCSRRWI c insn s =
     (let csr_idx = unat (ImmCSR insn) in
     and_then (GetCSR c csr_idx s) (\<lambda>tmp.
     let uimm = Rs1 insn in
     and_then (SetCSR c csr_idx (uimm) s) (\<lambda>s.
     and_then (SetXReg c (unat (Rd insn)) tmp s) (\<lambda>s.
     Inr (Step s)))))"

definition CallbackCSRRSI :: "('z, 'm) callback" where
  "CallbackCSRRSI c insn s =
     (let csr_idx = unat (ImmCSR insn) in
     and_then (GetCSR c csr_idx s) (\<lambda>tmp.
     let uimm = Rs1 insn in
     and_then (SetCSR c csr_idx (tmp OR uimm) s) (\<lambda>s.
     and_then (SetXReg c (unat (Rd insn)) tmp s) (\<lambda>s.
     Inr (Step s)))))"

definition CallbackCSRRCI :: "('z, 'm) callback" where
  "CallbackCSRRCI c insn s =
     (let csr_idx = unat (ImmCSR insn) in
     and_then (GetCSR c csr_idx s) (\<lambda>tmp.
     let uimm = Rs1 insn in
     and_then (SetCSR c csr_idx (tmp AND NOT uimm) s) (\<lambda>s.
     and_then (SetXReg c (unat (Rd insn)) tmp s) (\<lambda>s.
     Inr (Step s)))))"

lemmas ext_zicsr_defs =
  CallbackCSRRW_def CallbackCSRRS_def CallbackCSRRC_def
  CallbackCSRRWI_def CallbackCSRRSI_def CallbackCSRRCI_def

section \<open>The effect of the callbacks\<close>

text \<open>The value an instruction writes, from the old value and its operand.\<close>

fun isa_csr :: "ext_zicsr_mnem \<Rightarrow> u32 \<Rightarrow> u32 \<Rightarrow> u32" where
  "isa_csr CSRRW old v = v"
| "isa_csr CSRRS old v = old OR v"
| "isa_csr CSRRC old v = old AND NOT v"
| "isa_csr CSRRWI old v = v"
| "isa_csr CSRRSI old v = old OR v"
| "isa_csr CSRRCI old v = old AND NOT v"

definition csr_swap :: "CSR \<Rightarrow> u32 \<Rightarrow> u32 \<Rightarrow> 'm rvsim_scheme \<Rightarrow> 'm rvsim_scheme" where
  "csr_swap r insn v s =
     retire insn (csr_read r (fcsr s)) (s\<lparr>fcsr := csr_write r v (fcsr s)\<rparr>)"

lemma fcsr_below [simp]: "sim_ok s \<Longrightarrow> fcsr s < 256"
  by (simp add: sim_ok_def del: sim_ok_lengths)

lemma sim_ok_csr_write [simp]: "sim_ok s \<Longrightarrow> sim_ok (s\<lparr>fcsr := csr_write r v (fcsr s)\<rparr>)"
  by (intro sim_ok_fcsr csr_write_below) simp_all

lemma sim_ok_csr_swap [simp]: "sim_ok s \<Longrightarrow> sim_ok (csr_swap r insn v s)"
  by (simp add: csr_swap_def)

lemma ext_zicsr_effect:
  assumes "sim_ok s" "CSR_ToEnum (unat (ImmCSR insn)) = Some r"
  shows
  "CallbackCSRRW c insn s = Inr (csr_swap r insn (isa_csr CSRRW (csr_read r (fcsr s)) (rs1_val insn s)) s)"
  "CallbackCSRRS c insn s = Inr (csr_swap r insn (isa_csr CSRRS (csr_read r (fcsr s)) (rs1_val insn s)) s)"
  "CallbackCSRRC c insn s = Inr (csr_swap r insn (isa_csr CSRRC (csr_read r (fcsr s)) (rs1_val insn s)) s)"
  "CallbackCSRRWI c insn s = Inr (csr_swap r insn (isa_csr CSRRWI (csr_read r (fcsr s)) (Rs1 insn)) s)"
  "CallbackCSRRSI c insn s = Inr (csr_swap r insn (isa_csr CSRRSI (csr_read r (fcsr s)) (Rs1 insn)) s)"
  "CallbackCSRRCI c insn s = Inr (csr_swap r insn (isa_csr CSRRCI (csr_read r (fcsr s)) (Rs1 insn)) s)"
  using assms
  by (simp_all add: ext_zicsr_defs Let_def GetCSR_known SetCSR_known csr_swap_def retire_def
      del: csr_read.simps csr_write.simps)

lemma ext_zicsr_unknown:
  assumes "sim_ok s" "CSR_ToEnum (unat (ImmCSR insn)) = None"
  shows
  "CallbackCSRRW c insn s = (if ndebug c then Inr (retire insn 0 s) else Inl (AssertFailed ''unknown csr''))"
  "CallbackCSRRS c insn s = (if ndebug c then Inr (retire insn 0 s) else Inl (AssertFailed ''unknown csr''))"
  "CallbackCSRRC c insn s = (if ndebug c then Inr (retire insn 0 s) else Inl (AssertFailed ''unknown csr''))"
  "CallbackCSRRWI c insn s = (if ndebug c then Inr (retire insn 0 s) else Inl (AssertFailed ''unknown csr''))"
  "CallbackCSRRSI c insn s = (if ndebug c then Inr (retire insn 0 s) else Inl (AssertFailed ''unknown csr''))"
  "CallbackCSRRCI c insn s = (if ndebug c then Inr (retire insn 0 s) else Inl (AssertFailed ''unknown csr''))"
  using assms
  by (cases "ndebug c"; simp add: ext_zicsr_defs GetCSR_def SetCSR_def retire_def)+

lemmas ext_zicsr_effects = ext_zicsr_effect ext_zicsr_unknown

section \<open>Properties\<close>

text \<open>
  C27: A CSR instruction on one of the three registers returns the old value in \<open>rd\<close> and
  writes the new value of its kind, both at once; the set and clear forms with \<open>x0\<close>, or with
  the immediate 0, leave \<open>fcsr\<close> as it is. With any other CSR index a Debug build stops and a
  Release build reads 0 and writes nothing.
\<close>

theorem csr_instructions:
  assumes "sim_ok s"
  shows "case CSR_ToEnum (unat (ImmCSR insn)) of
      None \<Rightarrow>
        (let stop = (if ndebug c then Inr (retire insn 0 s) else Inl (AssertFailed ''unknown csr'')) in
          CallbackCSRRW c insn s = stop \<and> CallbackCSRRS c insn s = stop \<and>
          CallbackCSRRC c insn s = stop \<and> CallbackCSRRWI c insn s = stop \<and>
          CallbackCSRRSI c insn s = stop \<and> CallbackCSRRCI c insn s = stop)
    | Some r \<Rightarrow>
        (let old = csr_read r (fcsr s); x = rs1_val insn s; imm = Rs1 insn in
          CallbackCSRRW c insn s = Inr (csr_swap r insn x s) \<and>
          CallbackCSRRS c insn s = Inr (csr_swap r insn (old OR x) s) \<and>
          CallbackCSRRC c insn s = Inr (csr_swap r insn (old AND NOT x) s) \<and>
          CallbackCSRRWI c insn s = Inr (csr_swap r insn imm s) \<and>
          CallbackCSRRSI c insn s = Inr (csr_swap r insn (old OR imm) s) \<and>
          CallbackCSRRCI c insn s = Inr (csr_swap r insn (old AND NOT imm) s) \<and>
          (x = 0 \<longrightarrow> fcsr (csr_swap r insn (old OR x) s) = fcsr s \<and>
            fcsr (csr_swap r insn (old AND NOT x) s) = fcsr s))"
proof (cases "CSR_ToEnum (unat (ImmCSR insn))")
  case None
  then show ?thesis using ext_zicsr_unknown [OF assms None, of c] by (simp only: Let_def option.case simp_thms)
next
  case (Some r)
  have "csr_write r (csr_read r (fcsr s)) (fcsr s) = fcsr s"
    using assms by (intro csr_write_read) (rule fcsr_below)
  then show ?thesis
    using Some ext_zicsr_effect [OF assms Some, of c]
    by (simp add: Let_def csr_swap_def del: csr_read.simps csr_write.simps)
qed

lemma csr_instructions_witness:
  "CallbackCSRRS \<lparr>ndebug = False\<rparr> 0x002022f3 sample_machine =
     Inr (csr_swap frm 0x002022f3 3 sample_machine)"
proof -
  have i: "unat (ImmCSR 0x002022f3) = 2" "unat (Rs1 0x002022f3) = 0"
    by (simp_all add: ImmCSR_def Rs1_def)
  have r: "CSR_ToEnum 2 = Some frm" by (simp add: CSR_ToEnum_def)
  have "take_bit 3 (3 :: u32) = 3" by (simp add: take_bit_eq_mod)
  then show ?thesis
    using csr_instructions [OF sample_machine_ok, of "\<lparr>ndebug = False\<rparr>" "0x002022f3"]
    by (simp add: i r Let_def)
qed

end
