(* ===== verification/RV_Syscall.thy ===== *)
theory RV_Syscall
  imports RV_Ext_I
begin

text \<open>
  The system calls, \<open>isa/syscall_handler.cpp\<close>, and the \<open>ECALL\<close> callback of
  \<open>isa/ext_i_cb.cpp\<close> that invokes them. The number is in \<open>a7\<close>, the arguments are in \<open>a0\<close>
  to \<open>a2\<close>, the result goes to \<open>a0\<close>. The host's \<open>read\<close> and \<open>write\<close> are parameters of the
  environment. Allocation of the host buffer is taken to succeed.
\<close>

type_synonym 'w callback_env = "'w env \<Rightarrow> u32 \<Rightarrow> 'w machine \<Rightarrow> error + 'w machine"

datatype SyscallId = kRead | kWrite | kExit

fun SyscallId_FromEnum :: "SyscallId \<Rightarrow> u32" where
  "SyscallId_FromEnum kRead = 63"
| "SyscallId_FromEnum kWrite = 64"
| "SyscallId_FromEnum kExit = 93"

definition sys_exit :: "'w machine \<Rightarrow> error + 'w machine" where
  "sys_exit s = Inr (s\<lparr>should_stop := True\<rparr>)"

definition sys_read :: "'w env \<Rightarrow> 'w machine \<Rightarrow> error + 'w machine" where
  "sys_read e s =
     and_then (GetXReg e (XReg_FromEnum X_a0) s) (\<lambda>fd.
     and_then (GetXReg e (XReg_FromEnum X_a1) s) (\<lambda>guest_buf_ptr.
     and_then (GetXReg e (XReg_FromEnum X_a2) s) (\<lambda>sz.
     let buf = replicate (unat sz) 0;
         (rc, buf, w) = host_read e fd buf (host s);
         s = s\<lparr>host := w\<rparr> in
     and_then
       (if sint rc \<ge> 0 then
          and_then (CopyHostToGuest e (memory s) guest_buf_ptr buf (unat rc)) (\<lambda>m.
          Inr (s\<lparr>memory := m\<rparr>))
        else Inr s) (\<lambda>s.
     SetXReg e (XReg_FromEnum X_a0) (ucast rc) s))))"

definition sys_write :: "'w env \<Rightarrow> 'w machine \<Rightarrow> error + 'w machine" where
  "sys_write e s =
     and_then (GetXReg e (XReg_FromEnum X_a0) s) (\<lambda>fd.
     and_then (GetXReg e (XReg_FromEnum X_a1) s) (\<lambda>guest_buf_ptr.
     and_then (GetXReg e (XReg_FromEnum X_a2) s) (\<lambda>sz.
     let buf = replicate (unat sz) 0 in
     and_then (CopyGuestToHost e (memory s) guest_buf_ptr buf (unat sz)) (\<lambda>buf.
     let (wc, w) = host_write e fd buf (host s);
         s = s\<lparr>host := w\<rparr> in
     SetXReg e (XReg_FromEnum X_a0) (ucast wc) s))))"

definition SyscallHandler :: "'w env \<Rightarrow> 'w machine \<Rightarrow> error + 'w machine" where
  "SyscallHandler e s =
     and_then (GetXReg e (XReg_FromEnum X_a7) s) (\<lambda>syscall_id.
     if syscall_id = SyscallId_FromEnum kExit then sys_exit s
     else if syscall_id = SyscallId_FromEnum kRead then sys_read e s
     else if syscall_id = SyscallId_FromEnum kWrite then sys_write e s
     else and_then (cassert e ''unknown syscall id'' False) (\<lambda>_. Inr s))"

definition CallbackECALL :: "'w callback_env" where
  "CallbackECALL e insn s = and_then (SyscallHandler e s) (\<lambda>s. Inr (Step s))"

section \<open>The effect of the calls\<close>

lemma sys_read_effect:
  assumes "sim_ok s" "host_read e (xreg s 10) (replicate (unat (xreg s 12)) 0) (host s) = (rc, buf, w)"
  shows "sys_read e s =
    (if sint rc < 0 then Inr (xput 10 (ucast rc) (s\<lparr>host := w\<rparr>))
     else and_then (CopyHostToGuest e (memory s) (xreg s 11) buf (unat rc))
       (\<lambda>m. Inr (xput 10 (ucast rc) (s\<lparr>host := w, memory := m\<rparr>))))"
  using assms
  by (simp add: sys_read_def and_then_assoc split: prod.splits)

lemma sys_write_effect:
  assumes "sim_ok s"
  shows "sys_write e s =
    and_then (read_range (LoadU8 e) (memory s) (xreg s 11) (unat (xreg s 12))) (\<lambda>bs.
      let (wc, w) = host_write e (xreg s 10) bs (host s)
      in Inr (xput 10 (ucast wc) (s\<lparr>host := w\<rparr>)))"
  using assms
  by (simp add: sys_write_def CopyGuestToHost_read_range and_then_assoc Let_def split: prod.splits)

lemma ecall_effect:
  assumes "sim_ok s"
  shows "CallbackECALL e insn s =
    (if xreg s 17 = 93 then Inr (Step (s\<lparr>should_stop := True\<rparr>))
     else if xreg s 17 = 63 then and_then (sys_read e s) (\<lambda>s. Inr (Step s))
     else if xreg s 17 = 64 then and_then (sys_write e s) (\<lambda>s. Inr (Step s))
     else if ndebug e then Inr (Step s) else Inl (AssertFailed ''unknown syscall id''))"
  using assms by (simp add: CallbackECALL_def SyscallHandler_def sys_exit_def)

section \<open>Properties\<close>

text \<open>The second segment of the sample memory, byte by byte.\<close>

lemma sample_memory_bytes:
  assumes "i < 4"
  shows "mem_mapped sample_memory (0x2000 + of_nat i)"
    and "LoadU8 c sample_memory (0x2000 + of_nat i) = Inr ([0x80, 0x90, 0xa0, 0xb0] ! i)"
proof -
  have "i = 0 \<or> i = 1 \<or> i = 2 \<or> i = 3" using assms by linarith
  then show "mem_mapped sample_memory (0x2000 + of_nat i)"
    "LoadU8 c sample_memory (0x2000 + of_nat i) = Inr ([0x80, 0x90, 0xa0, 0xb0] ! i)"
    by (elim disjE; simp add: mem_mapped_def accessible_def LoadU8_def Load_loop_eq memcpy_from_def
        sample_memory_def IsAddrInSegment_def take_Cons')+
qed

text \<open>
  \<open>ECALL\<close> with 93 in \<open>a7\<close> stops the simulation and changes nothing else but the
  instruction pointer; a number other than 63, 64 and 93 fails an assertion in a Debug build
  and is skipped in a Release build, with \<open>a0\<close> left as it was.
\<close>

lemma ecall_exit_and_unknown:
  assumes "sim_ok s" "xreg s 17 \<noteq> 63" "xreg s 17 \<noteq> 64"
  shows "CallbackECALL e insn s =
    (if xreg s 17 = 93 then Inr (s\<lparr>should_stop := True, ip := ip s + 4\<rparr>)
     else if ndebug e then Inr (s\<lparr>ip := ip s + 4\<rparr>)
     else Inl (AssertFailed ''unknown syscall id''))"
  using assms by (simp add: ecall_effect Step_def kStepSize_def)

lemma ecall_exit_and_unknown_witness:
  "CallbackECALL (sample_env False) 0x73 sample_machine = Inl (AssertFailed ''unknown syscall id'')"
proof -
  have "xreg sample_machine 17 = 17" by (simp add: sample_machine_regs)
  then show ?thesis
    using ecall_exit_and_unknown [OF sample_machine_ok, of "sample_env False" "0x73"]
    by (simp add: sample_env_def)
qed

text \<open>
  C20: The write call hands the host exactly the bytes of the guest's buffer, in order, and
  returns the host's answer in \<open>a0\<close>; guest memory and the other registers do not change. The
  buffer may span segments; every byte of it must be mapped.
\<close>

theorem ecall_write:
  assumes "sim_ok s" "mem_ok (memory s)" "xreg s 17 = 64"
    and "\<forall>i < unat (xreg s 12). mem_mapped (memory s) (xreg s 11 + of_nat i)"
  shows "\<exists>bs. length bs = unat (xreg s 12) \<and>
    (\<forall>i < unat (xreg s 12). LoadU8 e (memory s) (xreg s 11 + of_nat i) = Inr (bs ! i)) \<and>
    CallbackECALL e insn s =
      (let (wc, w) = host_write e (xreg s 10) bs (host s)
       in Inr (Step (xput 10 (ucast wc) (s\<lparr>host := w\<rparr>))))"
proof -
  let ?n = "unat (xreg s 12)"
  have r: "guest.range_mapped (memory s) (xreg s 11) ?n" using assms(4) by (simp add: guest.range_mapped_def)
  obtain bs where bs: "read_range (LoadU8 e) (memory s) (xreg s 11) ?n = Inr bs" "length bs = ?n"
    using guest.read_range_ok [OF assms(2) r, of e] by blast
  have "LoadU8 e (memory s) (xreg s 11 + of_nat i) = Inr (bs ! i)" if "i < ?n" for i
    using read_range_nth [OF bs(1) that] by simp
  then show ?thesis
    using assms(1,3) bs by (auto simp: ecall_effect sys_write_effect Let_def split: prod.splits)
qed

lemma ecall_write_witness:
  "CallbackECALL (sample_env False) 0x73
      (xput 17 64 (xput 12 4 (xput 11 0x2000 sample_machine))) =
     Inr (Step (xput 10 4 ((xput 17 64 (xput 12 4 (xput 11 0x2000 sample_machine)))
       \<lparr>host := [0x80, 0x90, 0xa0, 0xb0]\<rparr>)))"
proof -
  let ?s = "xput 17 64 (xput 12 4 (xput 11 0x2000 sample_machine))"
  have x: "xreg ?s 17 = 64" "xreg ?s 12 = 4" "xreg ?s 11 = 0x2000" using sample_machine_ok by simp_all
  have ok: "sim_ok ?s" "mem_ok (memory ?s)" using sample_machine_ok sample_memory_ok by simp_all
  have m: "\<forall>i < unat (xreg ?s 12). mem_mapped (memory ?s) (xreg ?s 11 + of_nat i)"
    unfolding x by (simp add: sample_memory_bytes)
  obtain bs where bs: "length bs = 4"
    "\<forall>i < 4. LoadU8 (sample_env False) sample_memory (0x2000 + of_nat i) = Inr (bs ! i)"
    "CallbackECALL (sample_env False) 0x73 ?s =
      (let (wc, w) = host_write (sample_env False) (xreg ?s 10) bs (host ?s)
       in Inr (Step (xput 10 (ucast wc) (?s\<lparr>host := w\<rparr>))))"
    using ecall_write [OF ok x(1) m, of "sample_env False" "0x73"] by (auto simp: x)
  have "bs = [0x80, 0x90, 0xa0, 0xb0]"
    using bs(1,2) by (intro nth_equalityI) (auto simp: sample_memory_bytes(2) simp del: nth_Cons_numeral)
  then show ?thesis using bs(3) by (simp add: sample_env_def)
qed

text \<open>
  C28: The read call gives the host a zeroed buffer of the length in \<open>a2\<close>. If the host reports
  an error, a negative count, guest memory is unchanged, whatever is in the buffer; otherwise the
  bytes it reports are stored from the guest's buffer address on and read back unchanged, and every
  other address keeps its byte, provided the host's count is within its buffer and the guest's
  buffer is mapped. \<open>a0\<close> receives the host's answer.
\<close>

theorem ecall_read:
  assumes "sim_ok s" "mem_ok (memory s)" "xreg s 17 = 63"
    and "host_read e (xreg s 10) (replicate (unat (xreg s 12)) 0) (host s) = (rc, buf, w)"
    and "0 \<le> sint rc \<Longrightarrow> unat rc \<le> length buf \<and> length buf < 2 ^ 32 \<and>
      (\<forall>i < unat rc. mem_mapped (memory s) (xreg s 11 + of_nat i))"
  shows "if sint rc < 0 then CallbackECALL e insn s = Inr (Step (xput 10 (ucast rc) (s\<lparr>host := w\<rparr>)))
    else (\<exists>m. CallbackECALL e insn s = Inr (Step (xput 10 (ucast rc) (s\<lparr>host := w, memory := m\<rparr>))) \<and>
      read_range (LoadU8 e) m (xreg s 11) (unat rc) = Inr (take (unat rc) buf) \<and>
      (\<forall>b. unat rc \<le> unat (b - xreg s 11) \<longrightarrow> LoadU8 e m b = LoadU8 e (memory s) b))"
proof (cases "sint rc < 0")
  case True
  then show ?thesis using assms(1,3) by (simp add: ecall_effect sys_read_effect [OF assms(1,4)])
next
  case False
  then have fits: "unat rc \<le> length buf" "length buf < 2 ^ 32"
    and mapped: "\<forall>i < unat rc. mem_mapped (memory s) (xreg s 11 + of_nat i)" using assms(5) by simp_all
  let ?bs = "take (unat rc) buf"
  have len: "length ?bs = unat rc" using fits by simp
  have r: "guest.range_mapped (memory s) (xreg s 11) (length ?bs)"
    using mapped unfolding len by (simp add: guest.range_mapped_def)
  obtain m where m: "write_range (StoreU8 e) (memory s) (xreg s 11) ?bs = Inr m"
    "read_range (LoadU8 e) m (xreg s 11) (length ?bs) = Inr ?bs"
    "\<forall>b. length ?bs \<le> unat (b - xreg s 11) \<longrightarrow> LoadU8 e m b = LoadU8 e (memory s) b"
    using guest.write_range_ok [OF assms(2) r, of e] fits by auto
  have "CopyHostToGuest e (memory s) (xreg s 11) buf (unat rc) = Inr m"
    using m(1) fits by (simp add: CopyHostToGuest_write_range)
  then show ?thesis
    using False assms(1,3) m(2,3) unfolding len
    by (auto simp: ecall_effect sys_read_effect [OF assms(1,4)])
qed

lemma ecall_read_witness:
  "(\<exists>m. CallbackECALL (sample_env False) 0x73
      ((xput 17 63 (xput 12 2 (xput 11 0x2000 sample_machine)))\<lparr>host := [65, 66, 67]\<rparr>) =
     Inr (Step (xput 10 2 ((xput 17 63 (xput 12 2 (xput 11 0x2000 sample_machine)))\<lparr>host := [67], memory := m\<rparr>))) \<and>
     read_range (LoadU8 (sample_env False)) m 0x2000 2 = Inr [65, 66]) \<and>
   CallbackECALL ((sample_env False)\<lparr>host_read := \<lambda>fd buf w. (- 1, buf, w)\<rparr>) 0x73 (xput 17 63 sample_machine) =
     Inr (Step (xput 10 (- 1) (xput 17 63 sample_machine)))"
proof -
  let ?s = "(xput 17 63 (xput 12 2 (xput 11 0x2000 sample_machine)))\<lparr>host := [65, 66, 67]\<rparr>"
  have x: "xreg ?s 17 = 63" "xreg ?s 12 = 2" "xreg ?s 11 = 0x2000" "host ?s = [65, 66, 67]"
    using sample_machine_ok by (simp_all add: xreg_def xput_def nth_list_update)
  have ok: "sim_ok ?s" "mem_ok (memory ?s)" using sample_machine_ok sample_memory_ok by simp_all
  have n2: "unat (2 :: u32) = Suc (Suc 0)" by simp
  have h: "host_read (sample_env False) (xreg ?s 10) (replicate (unat (xreg ?s 12)) 0) (host ?s) = (2, [65, 66], [67])"
    unfolding x n2 by (simp add: sample_env_def Let_def)
  have m: "\<forall>i < unat (2 :: u64). mem_mapped (memory ?s) (xreg ?s 11 + of_nat i)"
    unfolding x by (simp add: sample_memory_bytes)
  have good: "\<exists>m. CallbackECALL (sample_env False) 0x73 ?s =
      Inr (Step (xput 10 2 ((xput 17 63 (xput 12 2 (xput 11 0x2000 sample_machine)))\<lparr>host := [67], memory := m\<rparr>))) \<and>
      read_range (LoadU8 (sample_env False)) m 0x2000 2 = Inr [65, 66]"
    using ecall_read [OF ok x(1) h, of "0x73"] m unfolding x by auto
  let ?e = "(sample_env False)\<lparr>host_read := \<lambda>fd buf w. (- 1, buf, w)\<rparr>" and ?t = "xput 17 63 sample_machine"
  have t: "sim_ok ?t" "mem_ok (memory ?t)" "xreg ?t 17 = 63" using sample_machine_ok sample_memory_ok by simp_all
  have "CallbackECALL ?e 0x73 ?t = Inr (Step (xput 10 (ucast (- 1 :: u64)) (?t\<lparr>host := host ?t\<rparr>)))"
    using ecall_read [OF t, of ?e "- 1" "replicate (unat (xreg ?t 12)) 0" "host ?t" "0x73"] by simp
  moreover have "(ucast (- 1 :: u64) :: u32) = - 1" by (rule bit_word_eqI) (simp add: bit_simps)
  moreover have "?t\<lparr>host := host ?t\<rparr> = ?t" by simp
  ultimately have "CallbackECALL ?e 0x73 ?t = Inr (Step (xput 10 (- 1) ?t))" by (simp only:)
  with good show ?thesis by blast
qed

end
