(* ===== verification/RV_Ext_F.thy ===== *)
theory RV_Ext_F
  imports RV_Syscall
begin

text \<open>
  The callbacks of the single-precision floating-point extension, \<open>isa/ext_f_cb.cpp\<close>.
  SoftFloat is a parameter: an operation reads the global rounding mode and ORs the flags it
  raises into the global \<open>softfloat_exceptionFlags\<close> (\<open>softfloat_call\<close>). The code around
  those calls is modelled as it stands: clearing the global flags, selecting the rounding
  mode, copying the flags into \<open>fflags\<close>, and the sign and classification instructions that
  work on the bits.
\<close>

section \<open>SoftFloat's global state\<close>

definition softfloat_call ::
  "(u8 \<Rightarrow> 'a \<times> u8) \<Rightarrow> 'w machine \<Rightarrow> 'a \<times> 'w machine" where
  "softfloat_call f s =
     (let (res, flags) = f (softfloat_roundingMode s)
      in (res, s\<lparr>softfloat_exceptionFlags := softfloat_exceptionFlags s OR flags\<rparr>))"

text \<open>
  The value returned is what \<open>FCVT_W_S\<close> and \<open>FCVT_WU_S\<close> pass on as their rounding mode; a
  mode outside the enumeration falls through the \<open>switch\<close> and leaves the global untouched.
\<close>

definition SoftFloatSetRM :: "'w env \<Rightarrow> RoundingMode \<Rightarrow> 'w machine \<Rightarrow> error + u8 \<times> 'w machine" where
  "SoftFloatSetRM e rm s =
     (let set = (\<lambda>code. Inr (code, s\<lparr>softfloat_roundingMode := code\<rparr>)) in
      case rm of
        RNE \<Rightarrow> set (softfloat_round_near_even e)
      | RTZ \<Rightarrow> set (softfloat_round_minMag e)
      | RDN \<Rightarrow> set (softfloat_round_min e)
      | RUP \<Rightarrow> set (softfloat_round_max e)
      | RMM \<Rightarrow> set (softfloat_round_near_maxMag e)
      | DYN \<Rightarrow> and_then (cassert e ''what?'' False) (\<lambda>_. Inr (0, s))
      | RM_unnamed _ \<Rightarrow> Inr (0, s))"

definition SoftFloatClearFExcp :: "'w machine \<Rightarrow> 'w machine" where
  "SoftFloatClearFExcp s = s\<lparr>softfloat_exceptionFlags := 0\<rparr>"

definition SoftFloatSetFExcp :: "'w env \<Rightarrow> 'w machine \<Rightarrow> error + 'w machine" where
  "SoftFloatSetFExcp e s =
     (let excp_flags = (ucast (softfloat_exceptionFlags s) :: u32) AND 0x1f in
      if excp_flags = 0 then Inr s
      else and_then (GetCSR e (CSR_FromEnum fflags) s) (\<lambda>sim_flags.
           SetCSR e (CSR_FromEnum fflags) (sim_flags OR excp_flags) s))"

definition f32_min :: "'w env \<Rightarrow> u32 \<Rightarrow> u32 \<Rightarrow> 'w machine \<Rightarrow> u32 \<times> 'w machine" where
  "f32_min e a b s =
     (let (le, s) = softfloat_call (\<lambda>_. f32_le e a b) s in (if le then a else b, s))"

definition f32_max :: "'w env \<Rightarrow> u32 \<Rightarrow> u32 \<Rightarrow> 'w machine \<Rightarrow> u32 \<times> 'w machine" where
  "f32_max e a b s =
     (let (le, s) = softfloat_call (\<lambda>_. f32_le e a b) s in (if le then b else a, s))"

definition f32_neg :: "u32 \<Rightarrow> u32" where
  "f32_neg v =
     (let sign_bit = push_bit 31 1 in ((v XOR sign_bit) AND sign_bit) OR (v AND NOT sign_bit))"

section \<open>The templates\<close>

definition ExecuteRRRFBinOp ::
  "(u32 \<Rightarrow> u32 \<Rightarrow> 'w machine \<Rightarrow> u32 \<times> 'w machine) \<Rightarrow> 'w callback_env" where
  "ExecuteRRRFBinOp fbin_op e insn s =
     (let s = SoftFloatClearFExcp s in
      and_then (GetRM e (Rm insn) s) (\<lambda>rm.
      and_then (SoftFloatSetRM e rm s) (\<lambda>(_, s).
      and_then (GetFReg e (unat (Rs1 insn)) s) (\<lambda>rs1.
      and_then (GetFReg e (unat (Rs2 insn)) s) (\<lambda>rs2.
      let (res, s) = fbin_op rs1 rs2 s in
      and_then (SetFReg e (unat (Rd insn)) res s) (\<lambda>s.
      and_then (SoftFloatSetFExcp e s) (\<lambda>s.
      Inr (Step s))))))))"

definition ExecuteRRRRFTernOp ::
  "(u32 \<Rightarrow> u32 \<Rightarrow> u32 \<Rightarrow> 'w machine \<Rightarrow> u32 \<times> 'w machine) \<Rightarrow> 'w callback_env" where
  "ExecuteRRRRFTernOp ftern_op e insn s =
     (let s = SoftFloatClearFExcp s in
      and_then (GetRM e (Rm insn) s) (\<lambda>rm.
      and_then (SoftFloatSetRM e rm s) (\<lambda>(_, s).
      and_then (GetFReg e (unat (Rs1 insn)) s) (\<lambda>rs1.
      and_then (GetFReg e (unat (Rs2 insn)) s) (\<lambda>rs2.
      and_then (GetFReg e (unat (Rs3 insn)) s) (\<lambda>rs3.
      let (res, s) = ftern_op rs1 rs2 rs3 s in
      and_then (SetFReg e (unat (Rd insn)) res s) (\<lambda>s.
      and_then (SoftFloatSetFExcp e s) (\<lambda>s.
      Inr (Step s)))))))))"

definition ExecuteRRRCmpOp ::
  "(u32 \<Rightarrow> u32 \<Rightarrow> 'w machine \<Rightarrow> bool \<times> 'w machine) \<Rightarrow> 'w callback_env" where
  "ExecuteRRRCmpOp fcmp_op e insn s =
     (let s = SoftFloatClearFExcp s in
      and_then (GetFReg e (unat (Rs1 insn)) s) (\<lambda>rs1.
      and_then (GetFReg e (unat (Rs2 insn)) s) (\<lambda>rs2.
      let (cmp, s) = fcmp_op rs1 rs2 s in
      and_then (SetXReg e (unat (Rd insn)) (if cmp then 1 else 0) s) (\<lambda>s.
      and_then (SoftFloatSetFExcp e s) (\<lambda>s.
      Inr (Step s))))))"

section \<open>The callbacks\<close>

definition CallbackFLW :: "'w callback_env" where
  "CallbackFLW e insn s =
     and_then (GetXReg e (unat (Rs1 insn)) s) (\<lambda>rs1.
     let addr = rs1 + ImmI insn in
     and_then (LoadU32 e (memory s) addr) (\<lambda>v.
     and_then (SetFReg e (unat (Rd insn)) (RegToFReg v) s) (\<lambda>s.
     Inr (Step s))))"

definition CallbackFSW :: "'w callback_env" where
  "CallbackFSW e insn s =
     and_then (GetXReg e (unat (Rs1 insn)) s) (\<lambda>rs1.
     let addr = rs1 + ImmS insn in
     and_then (GetFReg e (unat (Rs2 insn)) s) (\<lambda>v.
     let mem_val = FRegToReg v in
     and_then (StoreU32 e (memory s) addr mem_val) (\<lambda>m.
     Inr (Step (s\<lparr>memory := m\<rparr>)))))"

definition CallbackFADD_S :: "'w callback_env" where
  "CallbackFADD_S e insn s =
     ExecuteRRRFBinOp (\<lambda>rs1 rs2. softfloat_call (\<lambda>rm. f32_add e rm rs1 rs2)) e insn s"

definition CallbackFSUB_S :: "'w callback_env" where
  "CallbackFSUB_S e insn s =
     ExecuteRRRFBinOp (\<lambda>rs1 rs2. softfloat_call (\<lambda>rm. f32_sub e rm rs1 rs2)) e insn s"

definition CallbackFMUL_S :: "'w callback_env" where
  "CallbackFMUL_S e insn s =
     ExecuteRRRFBinOp (\<lambda>rs1 rs2. softfloat_call (\<lambda>rm. f32_mul e rm rs1 rs2)) e insn s"

definition CallbackFDIV_S :: "'w callback_env" where
  "CallbackFDIV_S e insn s =
     ExecuteRRRFBinOp (\<lambda>rs1 rs2. softfloat_call (\<lambda>rm. f32_div e rm rs1 rs2)) e insn s"

definition CallbackFSQRT_S :: "'w callback_env" where
  "CallbackFSQRT_S e insn s =
     (let s = SoftFloatClearFExcp s in
      and_then (GetRM e (Rm insn) s) (\<lambda>rm.
      and_then (SoftFloatSetRM e rm s) (\<lambda>(_, s).
      and_then (GetFReg e (unat (Rs1 insn)) s) (\<lambda>rs1.
      let (res, s) = softfloat_call (\<lambda>rm. f32_sqrt e rm rs1) s in
      and_then (SetFReg e (unat (Rd insn)) res s) (\<lambda>s.
      and_then (SoftFloatSetFExcp e s) (\<lambda>s.
      Inr (Step s)))))))"

definition CallbackFMADD_S :: "'w callback_env" where
  "CallbackFMADD_S e insn s =
     ExecuteRRRRFTernOp
       (\<lambda>rs1 rs2 rs3. softfloat_call (\<lambda>rm. f32_mulAdd e rm rs1 rs2 rs3)) e insn s"

definition CallbackFMSUB_S :: "'w callback_env" where
  "CallbackFMSUB_S e insn s =
     ExecuteRRRRFTernOp
       (\<lambda>rs1 rs2 rs3. softfloat_call (\<lambda>rm. f32_mulAdd e rm rs1 rs2 (f32_neg rs3))) e insn s"

definition CallbackFNMSUB_S :: "'w callback_env" where
  "CallbackFNMSUB_S e insn s =
     ExecuteRRRRFTernOp
       (\<lambda>rs1 rs2 rs3. softfloat_call (\<lambda>rm. f32_mulAdd e rm (f32_neg rs1) rs2 rs3)) e insn s"

definition CallbackFNMADD_S :: "'w callback_env" where
  "CallbackFNMADD_S e insn s =
     ExecuteRRRRFTernOp
       (\<lambda>rs1 rs2 rs3 s.
          let (res, s) = softfloat_call (\<lambda>rm. f32_mulAdd e rm rs1 rs2 rs3) s in (f32_neg res, s))
       e insn s"

definition CallbackFSGNJ_S :: "'w callback_env" where
  "CallbackFSGNJ_S e insn s =
     and_then (GetFReg e (unat (Rs1 insn)) s) (\<lambda>rs1.
     and_then (GetFReg e (unat (Rs2 insn)) s) (\<lambda>rs2.
     let high_bit = push_bit 31 1;
         res = (rs2 AND high_bit) OR (rs1 AND NOT high_bit) in
     and_then (SetFReg e (unat (Rd insn)) res s) (\<lambda>s.
     Inr (Step s))))"

definition CallbackFSGNJN_S :: "'w callback_env" where
  "CallbackFSGNJN_S e insn s =
     and_then (GetFReg e (unat (Rs1 insn)) s) (\<lambda>rs1.
     and_then (GetFReg e (unat (Rs2 insn)) s) (\<lambda>rs2.
     let high_bit = push_bit 31 1;
         res = ((rs2 XOR high_bit) AND high_bit) OR (rs1 AND NOT high_bit) in
     and_then (SetFReg e (unat (Rd insn)) res s) (\<lambda>s.
     Inr (Step s))))"

definition CallbackFSGNJX_S :: "'w callback_env" where
  "CallbackFSGNJX_S e insn s =
     and_then (GetFReg e (unat (Rs1 insn)) s) (\<lambda>rs1.
     and_then (GetFReg e (unat (Rs2 insn)) s) (\<lambda>rs2.
     let high_bit = push_bit 31 1;
         res = ((rs1 AND high_bit) XOR (rs2 AND high_bit)) OR (rs1 AND NOT high_bit) in
     and_then (SetFReg e (unat (Rd insn)) res s) (\<lambda>s.
     Inr (Step s))))"

definition CallbackFMIN_S :: "'w callback_env" where
  "CallbackFMIN_S e insn s =
     and_then (GetFReg e (unat (Rs1 insn)) s) (\<lambda>rs1.
     and_then (GetFReg e (unat (Rs2 insn)) s) (\<lambda>rs2.
     let (res, s) = f32_min e rs1 rs2 s in
     and_then (SetFReg e (unat (Rd insn)) res s) (\<lambda>s.
     Inr (Step s))))"

definition CallbackFMAX_S :: "'w callback_env" where
  "CallbackFMAX_S e insn s =
     and_then (GetFReg e (unat (Rs1 insn)) s) (\<lambda>rs1.
     and_then (GetFReg e (unat (Rs2 insn)) s) (\<lambda>rs2.
     let (res, s) = f32_max e rs1 rs2 s in
     and_then (SetFReg e (unat (Rd insn)) res s) (\<lambda>s.
     Inr (Step s))))"

definition CallbackFLE_S :: "'w callback_env" where
  "CallbackFLE_S e insn s =
     ExecuteRRRCmpOp (\<lambda>rs1 rs2. softfloat_call (\<lambda>_. f32_le e rs1 rs2)) e insn s"

definition CallbackFLT_S :: "'w callback_env" where
  "CallbackFLT_S e insn s =
     ExecuteRRRCmpOp (\<lambda>rs1 rs2. softfloat_call (\<lambda>_. f32_lt e rs1 rs2)) e insn s"

definition CallbackFEQ_S :: "'w callback_env" where
  "CallbackFEQ_S e insn s =
     ExecuteRRRCmpOp (\<lambda>rs1 rs2. softfloat_call (\<lambda>_. f32_eq e rs1 rs2)) e insn s"

text \<open>
  \<open>f32_to_i32\<close> returns an \<open>int_fast32_t\<close>; \<open>IRegToReg\<close> takes its low 32 bits, which is what
  the parameter returns.
\<close>

definition CallbackFCVT_W_S :: "'w callback_env" where
  "CallbackFCVT_W_S e insn s =
     (let s = SoftFloatClearFExcp s in
      and_then (GetFReg e (unat (Rs1 insn)) s) (\<lambda>frs1.
      let raise_inexact = True in
      and_then (GetRM e (Rm insn) s) (\<lambda>rm.
      and_then (SoftFloatSetRM e rm s) (\<lambda>(code, s).
      let (conv, s) = softfloat_call (\<lambda>_. f32_to_i32 e frs1 code raise_inexact) s in
      and_then (SetXReg e (unat (Rd insn)) conv s) (\<lambda>s.
      and_then (SoftFloatSetFExcp e s) (\<lambda>s.
      Inr (Step s)))))))"

definition CallbackFCVT_WU_S :: "'w callback_env" where
  "CallbackFCVT_WU_S e insn s =
     (let s = SoftFloatClearFExcp s in
      and_then (GetFReg e (unat (Rs1 insn)) s) (\<lambda>frs1.
      let raise_inexact = True in
      and_then (GetRM e (Rm insn) s) (\<lambda>rm.
      and_then (SoftFloatSetRM e rm s) (\<lambda>(code, s).
      let (conv, s) = softfloat_call (\<lambda>_. f32_to_ui32 e frs1 code raise_inexact) s in
      and_then (SetXReg e (unat (Rd insn)) conv s) (\<lambda>s.
      and_then (SoftFloatSetFExcp e s) (\<lambda>s.
      Inr (Step s)))))))"

definition CallbackFCVT_S_W :: "'w callback_env" where
  "CallbackFCVT_S_W e insn s =
     (let s = SoftFloatClearFExcp s in
      and_then (GetXReg e (unat (Rs1 insn)) s) (\<lambda>rs1.
      let (conv, s) = softfloat_call (\<lambda>rm. i32_to_f32 e rm rs1) s in
      and_then (SetFReg e (unat (Rd insn)) conv s) (\<lambda>s.
      and_then (SoftFloatSetFExcp e s) (\<lambda>s.
      Inr (Step s)))))"

definition CallbackFCVT_S_WU :: "'w callback_env" where
  "CallbackFCVT_S_WU e insn s =
     (let s = SoftFloatClearFExcp s in
      and_then (GetXReg e (unat (Rs1 insn)) s) (\<lambda>rs1.
      let (conv, s) = softfloat_call (\<lambda>rm. ui32_to_f32 e rm rs1) s in
      and_then (SetFReg e (unat (Rd insn)) conv s) (\<lambda>s.
      and_then (SoftFloatSetFExcp e s) (\<lambda>s.
      Inr (Step s)))))"

definition CallbackFMV_X_W :: "'w callback_env" where
  "CallbackFMV_X_W e insn s =
     and_then (GetFReg e (unat (Rs1 insn)) s) (\<lambda>frs1.
     and_then (SetXReg e (unat (Rd insn)) (FRegToReg frs1) s) (\<lambda>s.
     Inr (Step s)))"

definition CallbackFMV_W_X :: "'w callback_env" where
  "CallbackFMV_W_X e insn s =
     and_then (GetXReg e (unat (Rs1 insn)) s) (\<lambda>rs1.
     and_then (SetFReg e (unat (Rd insn)) (RegToFReg rs1) s) (\<lambda>s.
     Inr (Step s)))"

text \<open>
  \<open>std::fpclassify\<close> and \<open>std::signbit\<close> of a \<open>float\<close>, an IEEE 754 single on the hosts the
  simulator is built for (\<open>bit_cast\<close> from the register's bits).
\<close>

datatype fp_class = FP_INFINITE | FP_NAN | FP_NORMAL | FP_SUBNORMAL | FP_ZERO

definition fpclassify :: "u32 \<Rightarrow> fp_class" where
  "fpclassify v =
     (let exponent = drop_bit 23 v AND 0xff; significand = v AND 0x7fffff in
      if exponent = 0xff then (if significand = 0 then FP_INFINITE else FP_NAN)
      else if exponent = 0 then (if significand = 0 then FP_ZERO else FP_SUBNORMAL)
      else FP_NORMAL)"

definition signbit :: "u32 \<Rightarrow> bool" where
  "signbit v = bit v 31"

definition CallbackFCLASS_S :: "'w callback_env" where
  "CallbackFCLASS_S e insn s =
     and_then (GetFReg e (unat (Rs1 insn)) s) (\<lambda>rs.
     let hot_bit = (1 :: u32);
         classify = fpclassify rs;
         shift = (case classify of
             FP_INFINITE \<Rightarrow> if signbit rs then 0 else 7
           | FP_NAN \<Rightarrow> if f32_isSignalingNaN e rs then 8 else 9
           | FP_NORMAL \<Rightarrow> if signbit rs then 1 else 6
           | FP_SUBNORMAL \<Rightarrow> if signbit rs then 2 else 5
           | FP_ZERO \<Rightarrow> if signbit rs then 3 else 4) in
     and_then (shl hot_bit shift) (\<lambda>hot_bit.
     and_then (SetXReg e (unat (Rd insn)) hot_bit s) (\<lambda>s.
     Inr (Step s))))"

section \<open>Rounding mode and flags\<close>

text \<open>The mode an instruction selects: its \<open>rm\<close> field, or \<open>frm\<close> where that says dynamic.\<close>

definition selected_rm :: "u32 \<Rightarrow> 'm rvsim_scheme \<Rightarrow> RoundingMode" where
  "selected_rm insn s =
     (if Rm insn = 7 then RM_ToEnum (csr_read frm (fcsr s)) else RM_ToEnum (Rm insn))"

fun rm_code :: "'w env \<Rightarrow> RoundingMode \<Rightarrow> u8 option" where
  "rm_code e RNE = Some (softfloat_round_near_even e)"
| "rm_code e RTZ = Some (softfloat_round_minMag e)"
| "rm_code e RDN = Some (softfloat_round_min e)"
| "rm_code e RUP = Some (softfloat_round_max e)"
| "rm_code e RMM = Some (softfloat_round_near_maxMag e)"
| "rm_code e DYN = None"
| "rm_code e (RM_unnamed v) = None"

lemma RM_ToEnum_DYN: "RM_ToEnum v = DYN \<longleftrightarrow> v = 7"
  by (auto simp: RM_ToEnum_def)

lemmas named_csr = GetCSR_known [OF CSR_ToEnum_FromEnum] SetCSR_known [OF CSR_ToEnum_FromEnum]

lemma GetRM_selected [simp]: "GetRM c (Rm insn) s = Inr (selected_rm insn s)"
  by (simp add: GetRM_def selected_rm_def RM_ToEnum_DYN named_csr del: CSR_FromEnum.simps)

lemma SoftFloatSetRM_named:
  "rm_code e r = Some code \<Longrightarrow> SoftFloatSetRM e r s = Inr (code, s\<lparr>softfloat_roundingMode := code\<rparr>)"
  by (cases r) (simp_all add: SoftFloatSetRM_def)

text \<open>Every other mode leaves the mode of an earlier instruction in force.\<close>

lemma SoftFloatSetRM_other:
  "rm_code e r = None \<Longrightarrow> SoftFloatSetRM e r s =
     (if r = DYN \<and> \<not> ndebug e then Inl (AssertFailed ''what?'') else Inr (0, s))"
  by (cases r) (simp_all add: SoftFloatSetRM_def)

text \<open>
  Setting the mode an instruction selects leaves SoftFloat in the mode \<open>code\<close>, and returns \<open>k\<close>:
  the same for a named mode; 0 and the mode in force for any other that is no error.
\<close>

definition mode_set :: "'w env \<Rightarrow> u32 \<Rightarrow> 'w machine \<Rightarrow> u8 \<Rightarrow> u8 \<Rightarrow> bool" where
  "mode_set e insn s k code \<longleftrightarrow>
     (\<forall>t. softfloat_roundingMode t = softfloat_roundingMode s \<longrightarrow>
       SoftFloatSetRM e (selected_rm insn s) t = Inr (k, t\<lparr>softfloat_roundingMode := code\<rparr>))"

lemma mode_set_named: "rm_code e (selected_rm insn s) = Some code \<Longrightarrow> mode_set e insn s code code"
  by (simp add: mode_set_def SoftFloatSetRM_named)

lemma mode_set_stale:
  assumes "rm_code e (selected_rm insn s) = None" "\<not> (selected_rm insn s = DYN \<and> \<not> ndebug e)"
  shows "mode_set e insn s 0 (softfloat_roundingMode s)"
  unfolding mode_set_def
proof (intro allI impI)
  fix t :: "'a machine"
  assume "softfloat_roundingMode t = softfloat_roundingMode s"
  then have "t\<lparr>softfloat_roundingMode := softfloat_roundingMode s\<rparr> = t" by (cases t) simp
  then show "SoftFloatSetRM e (selected_rm insn s) t = Inr (0, t\<lparr>softfloat_roundingMode := softfloat_roundingMode s\<rparr>)"
    using SoftFloatSetRM_other [OF assms(1), of t] assms(2) by auto
qed

lemma mode_setD:
  "mode_set e insn s k code \<Longrightarrow> softfloat_roundingMode t = softfloat_roundingMode s \<Longrightarrow>
    SoftFloatSetRM e (selected_rm insn s) t = Inr (k, t\<lparr>softfloat_roundingMode := code\<rparr>)"
  by (simp add: mode_set_def)

lemma selected_rm_updates [simp]:
  "selected_rm insn (SoftFloatClearFExcp s) = selected_rm insn s"
  by (simp add: selected_rm_def SoftFloatClearFExcp_def)

text \<open>Copying the flags ORs the five defined ones into \<open>fcsr\<close> and changes nothing else.\<close>

lemma fflags_accrue:
  "csr_write fflags (csr_read fflags w OR (x AND 0x1f)) w = w OR (x AND 0x1f)"
proof -
  have m: "(0x1f :: u32) = mask 5" by (simp add: mask_eq_exp_minus_1)
  show ?thesis unfolding m by simp (rule bit_word_eqI, auto simp: bit_simps)
qed

lemma SoftFloatSetFExcp_accrues [simp]:
  "SoftFloatSetFExcp e s =
     Inr (s\<lparr>fcsr := fcsr s OR (ucast (softfloat_exceptionFlags s) AND 0x1f)\<rparr>)"
  by (simp add: SoftFloatSetFExcp_def named_csr fflags_accrue Let_def
      del: CSR_FromEnum.simps csr_read.simps csr_write.simps)

lemma accrue_below: "w < 256 \<Longrightarrow> (w :: u32) OR (x AND 0x1f) < 256"
  using csr_write_below [of w fflags "csr_read fflags w OR (x AND 0x1f)"]
  by (simp only: fflags_accrue)

section \<open>The effect of the callbacks on a well-formed state\<close>

text \<open>
  \<open>fp_done code flags put s\<close>: the state after an instruction that ran SoftFloat under the
  mode \<open>code\<close>, raised \<open>flags\<close> and wrote its result with \<open>put\<close>.
\<close>

definition fp_done :: "u8 \<Rightarrow> u8 \<Rightarrow> ('w machine \<Rightarrow> 'w machine) \<Rightarrow> 'w machine \<Rightarrow> 'w machine" where
  "fp_done code flags put s =
     (let s = put (s\<lparr>softfloat_roundingMode := code, softfloat_exceptionFlags := flags\<rparr>)
      in Step (s\<lparr>fcsr := fcsr s OR (ucast flags AND 0x1f)\<rparr>))"

abbreviation "frs1_val insn s \<equiv> freg s (unat (Rs1 insn))"
abbreviation "frs2_val insn s \<equiv> freg s (unat (Rs2 insn))"
abbreviation "frs3_val insn s \<equiv> freg s (unat (Rs3 insn))"

lemma softfloat_updates [simp]:
  "freg (t\<lparr>softfloat_roundingMode := r\<rparr>) i = freg t i" "xreg (t\<lparr>softfloat_roundingMode := r\<rparr>) i = xreg t i"
  "freg (t\<lparr>softfloat_exceptionFlags := x\<rparr>) i = freg t i" "xreg (t\<lparr>softfloat_exceptionFlags := x\<rparr>) i = xreg t i"
  by (simp_all add: freg_def xreg_def)

lemma SoftFloatClearFExcp_fields [simp]:
  "sim_ok (SoftFloatClearFExcp s) = sim_ok s" "freg (SoftFloatClearFExcp s) i = freg s i"
  "xreg (SoftFloatClearFExcp s) i = xreg s i" "softfloat_exceptionFlags (SoftFloatClearFExcp s) = 0"
  "softfloat_roundingMode (SoftFloatClearFExcp s) = softfloat_roundingMode s"
  by (simp_all add: SoftFloatClearFExcp_def)

lemma fp_binop_effect:
  assumes "sim_ok s" "mode_set e insn s k code"
  shows "ExecuteRRRFBinOp (\<lambda>a b. softfloat_call (\<lambda>rm. f rm a b)) e insn s =
    (let (v, flags) = f code (frs1_val insn s) (frs2_val insn s)
     in Inr (fp_done code flags (fput (unat (Rd insn)) v) s))"
  using assms
  by (simp add: ExecuteRRRFBinOp_def mode_setD [OF assms(2)] softfloat_call_def fp_done_def
      split: prod.splits) (simp add: SoftFloatClearFExcp_def fput_def)

lemma fp_ternop_effect:
  assumes "sim_ok s" "mode_set e insn s k code"
  shows "ExecuteRRRRFTernOp (\<lambda>a b d. softfloat_call (\<lambda>rm. f rm a b d)) e insn s =
    (let (v, flags) = f code (frs1_val insn s) (frs2_val insn s) (frs3_val insn s)
     in Inr (fp_done code flags (fput (unat (Rd insn)) v) s))"
  using assms
  by (simp add: ExecuteRRRRFTernOp_def mode_setD [OF assms(2)] softfloat_call_def fp_done_def
      split: prod.splits) (simp add: SoftFloatClearFExcp_def fput_def)

lemma fp_cmpop_effect:
  assumes "sim_ok s"
  shows "ExecuteRRRCmpOp (\<lambda>a b. softfloat_call (\<lambda>_. f a b)) e insn s =
    (let (b, flags) = f (frs1_val insn s) (frs2_val insn s)
     in Inr (fp_done (softfloat_roundingMode s) flags (xput (unat (Rd insn)) (if b then 1 else 0)) s))"
  using assms
  by (simp add: ExecuteRRRCmpOp_def softfloat_call_def fp_done_def split: prod.splits)
    (simp add: SoftFloatClearFExcp_def xput_def)

text \<open>The value and the flags of the rounded operations, from the three source registers.\<close>

fun fp_arith :: "'w env \<Rightarrow> ext_f_mnem \<Rightarrow> u8 \<Rightarrow> u32 \<Rightarrow> u32 \<Rightarrow> u32 \<Rightarrow> u32 \<times> u8" where
  "fp_arith e FADD_S rm a b d = f32_add e rm a b"
| "fp_arith e FSUB_S rm a b d = f32_sub e rm a b"
| "fp_arith e FMUL_S rm a b d = f32_mul e rm a b"
| "fp_arith e FDIV_S rm a b d = f32_div e rm a b"
| "fp_arith e FSQRT_S rm a b d = f32_sqrt e rm a"
| "fp_arith e FMADD_S rm a b d = f32_mulAdd e rm a b d"
| "fp_arith e FMSUB_S rm a b d = f32_mulAdd e rm a b (f32_neg d)"
| "fp_arith e FNMSUB_S rm a b d = f32_mulAdd e rm (f32_neg a) b d"
| "fp_arith e FNMADD_S rm a b d = apfst f32_neg (f32_mulAdd e rm a b d)"
| "fp_arith e _ rm a b d = (0, 0)"

definition fp_arith_step :: "'w env \<Rightarrow> ext_f_mnem \<Rightarrow> u8 \<Rightarrow> u32 \<Rightarrow> 'w machine \<Rightarrow> 'w machine" where
  "fp_arith_step e m code insn s =
     (let (v, flags) = fp_arith e m code (frs1_val insn s) (frs2_val insn s) (frs3_val insn s)
      in fp_done code flags (fput (unat (Rd insn)) v) s)"

lemma FNMADD_call:
  "(let (res, s) = softfloat_call (\<lambda>rm. f32_mulAdd e rm a b d) s in (f32_neg res, s)) =
   softfloat_call (\<lambda>rm. apfst f32_neg (f32_mulAdd e rm a b d)) s"
  by (simp add: softfloat_call_def split: prod.splits)

lemma ext_f_arith_mode:
  assumes "sim_ok s" "mode_set e insn s k code"
  shows "CallbackFADD_S e insn s = Inr (fp_arith_step e FADD_S code insn s)"
    and "CallbackFSUB_S e insn s = Inr (fp_arith_step e FSUB_S code insn s)"
    and "CallbackFMUL_S e insn s = Inr (fp_arith_step e FMUL_S code insn s)"
    and "CallbackFDIV_S e insn s = Inr (fp_arith_step e FDIV_S code insn s)"
    and "CallbackFMADD_S e insn s = Inr (fp_arith_step e FMADD_S code insn s)"
    and "CallbackFMSUB_S e insn s = Inr (fp_arith_step e FMSUB_S code insn s)"
    and "CallbackFNMSUB_S e insn s = Inr (fp_arith_step e FNMSUB_S code insn s)"
    and "CallbackFNMADD_S e insn s = Inr (fp_arith_step e FNMADD_S code insn s)"
  by (simp_all add: CallbackFADD_S_def CallbackFSUB_S_def CallbackFMUL_S_def CallbackFDIV_S_def
      CallbackFMADD_S_def CallbackFMSUB_S_def CallbackFNMSUB_S_def CallbackFNMADD_S_def FNMADD_call
      fp_binop_effect [OF assms] fp_ternop_effect [OF assms] fp_arith_step_def
      del: apfst_conv split: prod.splits)

lemma ext_f_sqrt_mode:
  assumes "sim_ok s" "mode_set e insn s k code"
  shows "CallbackFSQRT_S e insn s = Inr (fp_arith_step e FSQRT_S code insn s)"
  using assms
  by (simp add: CallbackFSQRT_S_def mode_setD [OF assms(2)] softfloat_call_def fp_done_def
      fp_arith_step_def split: prod.splits) (simp add: SoftFloatClearFExcp_def fput_def)

lemmas ext_f_arith_effect = ext_f_arith_mode [OF _ mode_set_named]
lemmas ext_f_sqrt_effect = ext_f_sqrt_mode [OF _ mode_set_named]

text \<open>Comparisons and conversions. The conversions from integers round in the mode in force.\<close>

definition fp_compare_step :: "('a \<Rightarrow> u32) \<Rightarrow> 'a \<times> u8 \<Rightarrow> u32 \<Rightarrow> 'w machine \<Rightarrow> 'w machine" where
  "fp_compare_step f r insn s =
     fp_done (softfloat_roundingMode s) (snd r) (xput (unat (Rd insn)) (f (fst r))) s"

lemma ext_f_compare_effect:
  assumes "sim_ok s"
  shows "CallbackFLE_S e insn s =
      Inr (fp_compare_step of_bool (f32_le e (frs1_val insn s) (frs2_val insn s)) insn s)"
    and "CallbackFLT_S e insn s =
      Inr (fp_compare_step of_bool (f32_lt e (frs1_val insn s) (frs2_val insn s)) insn s)"
    and "CallbackFEQ_S e insn s =
      Inr (fp_compare_step of_bool (f32_eq e (frs1_val insn s) (frs2_val insn s)) insn s)"
  by (simp_all add: CallbackFLE_S_def CallbackFLT_S_def CallbackFEQ_S_def fp_cmpop_effect [OF assms]
      fp_compare_step_def of_bool_def split: prod.splits)

lemma ext_f_to_int_mode:
  assumes "sim_ok s" "mode_set e insn s k code"
  shows "CallbackFCVT_W_S e insn s =
      (let (v, flags) = f32_to_i32 e (frs1_val insn s) k True
       in Inr (fp_done code flags (xput (unat (Rd insn)) v) s))"
    and "CallbackFCVT_WU_S e insn s =
      (let (v, flags) = f32_to_ui32 e (frs1_val insn s) k True
       in Inr (fp_done code flags (xput (unat (Rd insn)) v) s))"
  using assms
  by (simp_all add: CallbackFCVT_W_S_def CallbackFCVT_WU_S_def mode_setD [OF assms(2)]
      softfloat_call_def fp_done_def split: prod.splits)
    (simp_all add: SoftFloatClearFExcp_def xput_def)

lemmas ext_f_to_int_effect = ext_f_to_int_mode [OF _ mode_set_named]

lemma ext_f_from_int_effect:
  assumes "sim_ok s"
  shows "CallbackFCVT_S_W e insn s =
      (let (v, flags) = i32_to_f32 e (softfloat_roundingMode s) (rs1_val insn s)
       in Inr (fp_done (softfloat_roundingMode s) flags (fput (unat (Rd insn)) v) s))"
    and "CallbackFCVT_S_WU e insn s =
      (let (v, flags) = ui32_to_f32 e (softfloat_roundingMode s) (rs1_val insn s)
       in Inr (fp_done (softfloat_roundingMode s) flags (fput (unat (Rd insn)) v) s))"
  using assms
  by (simp_all add: CallbackFCVT_S_W_def CallbackFCVT_S_WU_def
      softfloat_call_def fp_done_def split: prod.splits)
    (simp_all add: SoftFloatClearFExcp_def fput_def)

text \<open>
  Minimum and maximum run the comparison without clearing the flags before it and without
  copying them into \<open>fflags\<close> after it.
\<close>

definition fretire :: "u32 \<Rightarrow> u32 \<Rightarrow> 'm rvsim_scheme \<Rightarrow> 'm rvsim_scheme" where
  "fretire insn v s = Step (fput (unat (Rd insn)) v s)"

lemma ext_f_minmax_effect:
  assumes "sim_ok s" "f32_le e (frs1_val insn s) (frs2_val insn s) = (le, flags)"
  shows "CallbackFMIN_S e insn s =
      Inr (fretire insn (if le then frs1_val insn s else frs2_val insn s)
        (s\<lparr>softfloat_exceptionFlags := softfloat_exceptionFlags s OR flags\<rparr>))"
    and "CallbackFMAX_S e insn s =
      Inr (fretire insn (if le then frs2_val insn s else frs1_val insn s)
        (s\<lparr>softfloat_exceptionFlags := softfloat_exceptionFlags s OR flags\<rparr>))"
  using assms
  by (simp_all add: CallbackFMIN_S_def CallbackFMAX_S_def f32_min_def f32_max_def
      softfloat_call_def fretire_def)

section \<open>Signs, moves, loads and stores\<close>

definition with_sign :: "bool \<Rightarrow> u32 \<Rightarrow> u32" where
  "with_sign b v = (if b then set_bit 31 v else unset_bit 31 v)"

lemma bit_with_sign: "bit (with_sign b v) i \<longleftrightarrow> (if i = 31 then b else bit v i)"
  by (auto simp: with_sign_def bit_simps)

lemma sign_results:
  "(b AND push_bit 31 1) OR (a AND NOT (push_bit 31 1)) = with_sign (bit b 31) a"
  "bit (b XOR push_bit 31 1) 31 \<longleftrightarrow> \<not> bit (b :: u32) 31"
  "((a AND push_bit 31 1) XOR (b AND push_bit 31 1)) OR (a AND NOT (push_bit 31 1)) =
     with_sign (bit a 31 \<noteq> bit b 31) a"
  by (auto intro!: bit_word_eqI simp: bit_with_sign bit_simps simp del: push_bit_of_1 split: if_splits)

lemma f32_neg_flips: "f32_neg v = with_sign (\<not> bit v 31) v"
  by (simp only: f32_neg_def Let_def sign_results)

lemma f32_neg_f32_neg [simp]: "f32_neg (f32_neg v) = v"
  by (rule bit_word_eqI) (auto simp: f32_neg_flips bit_with_sign)

lemma ext_f_sign_effect:
  assumes "sim_ok s"
  shows "CallbackFSGNJ_S e insn s =
      Inr (fretire insn (with_sign (bit (frs2_val insn s) 31) (frs1_val insn s)) s)"
    and "CallbackFSGNJN_S e insn s =
      Inr (fretire insn (with_sign (\<not> bit (frs2_val insn s) 31) (frs1_val insn s)) s)"
    and "CallbackFSGNJX_S e insn s =
      Inr (fretire insn
        (with_sign (bit (frs1_val insn s) 31 \<noteq> bit (frs2_val insn s) 31) (frs1_val insn s)) s)"
  using assms
  by (simp_all only: CallbackFSGNJ_S_def CallbackFSGNJN_S_def CallbackFSGNJX_S_def Let_def
      GetFReg_ok SetFReg_ok reg_fields_less and_then_Inr sign_results fretire_def)

lemma ext_f_move_effect:
  assumes "sim_ok s"
  shows "CallbackFMV_X_W e insn s = Inr (retire insn (frs1_val insn s) s)"
    and "CallbackFMV_W_X e insn s = Inr (fretire insn (rs1_val insn s) s)"
  using assms by (simp_all add: CallbackFMV_X_W_def CallbackFMV_W_X_def retire_def fretire_def)

lemma ext_f_memory_effect:
  assumes "sim_ok s"
  shows "CallbackFLW e insn s =
      and_then (LoadU32 e (memory s) (rs1_val insn s + ImmI insn)) (\<lambda>v. Inr (fretire insn v s))"
    and "CallbackFSW e insn s =
      and_then (StoreU32 e (memory s) (rs1_val insn s + ImmS insn) (frs2_val insn s))
        (\<lambda>m. Inr (Step (s\<lparr>memory := m\<rparr>)))"
  using assms by (simp_all add: CallbackFLW_def CallbackFSW_def fretire_def)

section \<open>Classification\<close>

text \<open>The class of a number by the range its bits lie in, as the manual numbers the classes.\<close>

definition isa_fclass :: "(u32 \<Rightarrow> bool) \<Rightarrow> u32 \<Rightarrow> nat" where
  "isa_fclass signaling v =
     (let neg = bit v 31; magnitude = unat v mod 2 ^ 31 in
      if magnitude = 0 then (if neg then 3 else 4)
      else if magnitude < 0x00800000 then (if neg then 2 else 5)
      else if magnitude < 0x7f800000 then (if neg then 1 else 6)
      else if magnitude = 0x7f800000 then (if neg then 0 else 7)
      else if signaling v then 8 else 9)"

lemma float_fields:
  "unat (drop_bit 23 v AND 0xff) = unat (v :: u32) mod 2 ^ 31 div 2 ^ 23"
  "unat (v AND 0x7fffff) = unat v mod 2 ^ 31 mod 2 ^ 23"
proof -
  have m: "(0xff :: u32) = mask 8" "(0x7fffff :: u32) = mask 23"
    by (simp_all add: mask_eq_exp_minus_1)
  have "unat (drop_bit 23 v AND 0xff) = take_bit 8 (drop_bit 23 (unat v))"
    unfolding m by (simp add: take_bit_eq_mask [symmetric] unsigned_take_bit_eq unat_drop_bit_eq)
  also have "\<dots> = drop_bit 23 (take_bit 31 (unat v))" by (simp add: drop_bit_take_bit)
  finally show "unat (drop_bit 23 v AND 0xff) = unat v mod 2 ^ 31 div 2 ^ 23"
    by (simp add: drop_bit_eq_div take_bit_eq_mod)
  have "unat (v AND 0x7fffff) = take_bit 23 (unat v)"
    unfolding m by (simp add: take_bit_eq_mask [symmetric] unsigned_take_bit_eq)
  also have "\<dots> = take_bit 23 (take_bit 31 (unat v))" by simp
  finally show "unat (v AND 0x7fffff) = unat v mod 2 ^ 31 mod 2 ^ 23"
    by (simp only: take_bit_eq_mod)
qed

lemma fpclassify_ranges:
  "fpclassify v =
     (let magnitude = unat v mod 2 ^ 31 in
      if magnitude = 0 then FP_ZERO
      else if magnitude < 0x00800000 then FP_SUBNORMAL
      else if magnitude < 0x7f800000 then FP_NORMAL
      else if magnitude = 0x7f800000 then FP_INFINITE else FP_NAN)"
proof -
  define t where "t = unat v mod 2 ^ 31"
  have t: "t < 2 ^ 31" by (simp add: t_def)
  have e: "drop_bit 23 v AND 0xff = 0xff \<longleftrightarrow> t div 2 ^ 23 = 255"
    "drop_bit 23 v AND 0xff = 0 \<longleftrightarrow> t div 2 ^ 23 = 0"
    "v AND 0x7fffff = 0 \<longleftrightarrow> t mod 2 ^ 23 = 0"
    by (simp_all only: word_eq_iff_unsigned [where 'a = nat] float_fields t_def) simp_all
  obtain q r where "t = q * 2 ^ 23 + r" "r < 2 ^ 23" "t div 2 ^ 23 = q" "t mod 2 ^ 23 = r"
    using div_mult_mod_eq [of t "2 ^ 23"] by (metis mod_less_divisor zero_less_numeral zero_less_power)
  note qr = this
  have lt: "t < k * 2 ^ 23 \<longleftrightarrow> q < k" for k
    unfolding qr(3) [symmetric] by (simp add: div_less_iff_less_mult)
  have "t = 0 \<longleftrightarrow> q = 0 \<and> r = 0" using qr(1) by simp
  moreover have "t < 0x00800000 \<longleftrightarrow> q = 0" "t < 0x7f800000 \<longleftrightarrow> q < 255" "q < 256"
    using lt [of 1] lt [of 255] lt [of 256] t by simp_all
  moreover have "q = 255 \<and> r = 0" if "t = 0x7f800000" using that qr(3,4) by simp
  then have "t = 0x7f800000 \<longleftrightarrow> q = 255 \<and> r = 0" using qr(1) by auto
  ultimately show ?thesis
    unfolding fpclassify_def Let_def e t_def [symmetric] qr(3,4) by simp
qed

lemma ext_f_class_effect:
  assumes "sim_ok s"
  shows "CallbackFCLASS_S e insn s =
    Inr (retire insn (push_bit (isa_fclass (f32_isSignalingNaN e) (frs1_val insn s)) 1) s)"
proof -
  have "(case fpclassify v of
             FP_INFINITE \<Rightarrow> if signbit v then 0 else 7
           | FP_NAN \<Rightarrow> if f32_isSignalingNaN e v then 8 else 9
           | FP_NORMAL \<Rightarrow> if signbit v then 1 else 6
           | FP_SUBNORMAL \<Rightarrow> if signbit v then 2 else 5
           | FP_ZERO \<Rightarrow> if signbit v then 3 else 4) = isa_fclass (f32_isSignalingNaN e) v" for v
    by (simp add: fpclassify_ranges isa_fclass_def Let_def signbit_def)
  moreover have "isa_fclass f v < 32" for f v by (simp add: isa_fclass_def Let_def)
  ultimately show ?thesis
    using assms by (simp add: CallbackFCLASS_S_def retire_def del: push_bit_of_1)
qed

section \<open>Well-formedness\<close>

lemma sim_ok_fp_done:
  assumes "sim_ok s" "put = fput i v \<or> put = xput i v"
  shows "sim_ok (fp_done code flags put s)"
proof -
  let ?s = "put (s\<lparr>softfloat_roundingMode := code, softfloat_exceptionFlags := flags\<rparr>)"
  have ok: "sim_ok ?s" using assms by auto
  then have "fcsr ?s < 256" by (simp add: sim_ok_def del: sim_ok_lengths)
  then have "fcsr ?s OR (ucast flags AND 0x1f) < 256" by (rule accrue_below)
  with ok show ?thesis unfolding fp_done_def Let_def by (simp add: sim_ok_fcsr)
qed

section \<open>Properties\<close>

text \<open>
  C23: An arithmetic instruction under one of the five rounding modes, selected by its \<open>rm\<close>
  field or, where that says dynamic, by \<open>frm\<close>: SoftFloat runs once on the source registers in
  that mode with its flags cleared, \<open>rd\<close> receives the result, the flags raised are ORed into
  \<open>fflags\<close>, and nothing else of the simulator's state but the instruction pointer changes. The
  fused operations negate the operand the manual says, except that \<open>FNMADD_S\<close> negates the
  rounded result.
\<close>

theorem fp_arithmetic:
  assumes "sim_ok s" "rm_code e (selected_rm insn s) = Some code"
  shows "list_all (\<lambda>(callback, m).
      let (v, flags) = fp_arith e m code (frs1_val insn s) (frs2_val insn s) (frs3_val insn s) in
      callback e insn s = Inr (s\<lparr>ip := ip s + 4, fregs := (fregs s)[unat (Rd insn) := v],
        fcsr := fcsr s OR (ucast flags AND 0x1f),
        softfloat_roundingMode := code, softfloat_exceptionFlags := flags\<rparr>))
    [(CallbackFADD_S, FADD_S), (CallbackFSUB_S, FSUB_S), (CallbackFMUL_S, FMUL_S),
     (CallbackFDIV_S, FDIV_S), (CallbackFSQRT_S, FSQRT_S), (CallbackFMADD_S, FMADD_S),
     (CallbackFMSUB_S, FMSUB_S), (CallbackFNMSUB_S, FNMSUB_S), (CallbackFNMADD_S, FNMADD_S)]"
proof -
  have "fp_arith_step e m code insn s =
      (let (v, flags) = fp_arith e m code (frs1_val insn s) (frs2_val insn s) (frs3_val insn s) in
       s\<lparr>ip := ip s + 4, fregs := (fregs s)[unat (Rd insn) := v],
        fcsr := fcsr s OR (ucast flags AND 0x1f),
        softfloat_roundingMode := code, softfloat_exceptionFlags := flags\<rparr>)" for m
    by (simp add: fp_arith_step_def fp_done_def fput_def Step_def kStepSize_def split: prod.splits)
  then show ?thesis
    using ext_f_arith_effect [OF assms] ext_f_sqrt_effect [OF assms]
    by (simp add: Let_def split: prod.splits)
qed

lemma fp_arithmetic_witness:
  "CallbackFADD_S (sample_env False) 0x003170d3 sample_machine =
     Inr (sample_machine\<lparr>ip := 0x1004, fregs := (fregs sample_machine)[1 := 0x7f000000],
       fcsr := 0x63, softfloat_roundingMode := 3, softfloat_exceptionFlags := 3\<rparr>)"
proof -
  let ?i = "0x003170d3 :: u32"
  have f: "Rm ?i = 7" "unat (Rd ?i) = 1" "unat (Rs1 ?i) = 2" "unat (Rs2 ?i) = 3" "unat (Rs3 ?i) = 0"
    by (simp_all add: Rm_def Rd_def Rs1_def Rs2_def Rs3_def)
  have "take_bit 3 (3 :: u32) = 3" by (simp add: take_bit_eq_mod)
  then have "rm_code (sample_env False) (selected_rm ?i sample_machine) = Some 3"
    by (simp add: selected_rm_def f RM_ToEnum_def sample_env_def)
  from fp_arithmetic [OF sample_machine_ok this]
  show ?thesis by (simp add: f sample_machine_regs) (simp add: sample_env_def sample_machine_def)
qed

text \<open>
  C35: Reserved rounding modes: 5 and 6 in the \<open>rm\<close> field, and 5, 6 and 7 in \<open>frm\<close> where the field
  says dynamic. None is an illegal instruction. A Debug build stops at an assertion for \<open>frm\<close> = 7 in
  the arithmetic and the conversions to integers. In all other cases those run: the arithmetic in
  the mode SoftFloat was left in by an earlier instruction, the conversions to integers in mode 0.
  The conversions from integers run in the mode SoftFloat was left in, in both builds.
\<close>

theorem reserved_rounding_modes:
  assumes "sim_ok s" "rm_code e (selected_rm insn s) = None"
  shows "list_all (\<lambda>(callback, m). callback e insn s =
        (if selected_rm insn s = DYN \<and> \<not> ndebug e then Inl (AssertFailed ''what?'')
         else Inr (fp_arith_step e m (softfloat_roundingMode s) insn s)))
      [(CallbackFADD_S, FADD_S), (CallbackFSUB_S, FSUB_S), (CallbackFMUL_S, FMUL_S),
       (CallbackFDIV_S, FDIV_S), (CallbackFSQRT_S, FSQRT_S), (CallbackFMADD_S, FMADD_S),
       (CallbackFMSUB_S, FMSUB_S), (CallbackFNMSUB_S, FNMSUB_S), (CallbackFNMADD_S, FNMADD_S)] \<and>
    list_all (\<lambda>(callback, convert). callback e insn s =
        (if selected_rm insn s = DYN \<and> \<not> ndebug e then Inl (AssertFailed ''what?'')
         else let (v, flags) = convert (frs1_val insn s) 0 True
              in Inr (fp_done (softfloat_roundingMode s) flags (xput (unat (Rd insn)) v) s)))
      [(CallbackFCVT_W_S, f32_to_i32 e), (CallbackFCVT_WU_S, f32_to_ui32 e)] \<and>
    list_all (\<lambda>(callback, convert). callback e insn s =
        (let (v, flags) = convert (softfloat_roundingMode s) (rs1_val insn s)
         in Inr (fp_done (softfloat_roundingMode s) flags (fput (unat (Rd insn)) v) s)))
      [(CallbackFCVT_S_W, i32_to_f32 e), (CallbackFCVT_S_WU, ui32_to_f32 e)]"
proof (cases "selected_rm insn s = DYN \<and> \<not> ndebug e")
  case True
  then have "SoftFloatSetRM e DYN t = Inl (AssertFailed ''what?'')" for t
    by (simp add: SoftFloatSetRM_def)
  then show ?thesis
    using True assms(1) ext_f_from_int_effect [OF assms(1), of e insn]
    by (simp add: CallbackFADD_S_def CallbackFSUB_S_def CallbackFMUL_S_def CallbackFDIV_S_def CallbackFSQRT_S_def
        CallbackFMADD_S_def CallbackFMSUB_S_def CallbackFNMSUB_S_def CallbackFNMADD_S_def
        CallbackFCVT_W_S_def CallbackFCVT_WU_S_def ExecuteRRRFBinOp_def ExecuteRRRRFTernOp_def Let_def)
next
  case False
  note mode = mode_set_stale [OF assms(2) False]
  show ?thesis
    using ext_f_arith_mode [OF assms(1) mode] ext_f_sqrt_mode [OF assms(1) mode]
      ext_f_to_int_mode [OF assms(1) mode] ext_f_from_int_effect [OF assms(1), of e insn]
    by (simp only: False if_False list.pred_inject prod.case simp_thms)
qed

lemma reserved_rounding_modes_witness:
  "CallbackFADD_S (sample_env False) 0x003150d3 (sample_machine\<lparr>softfloat_roundingMode := 2\<rparr>) =
     Inr (fp_arith_step (sample_env False) FADD_S 2 0x003150d3 (sample_machine\<lparr>softfloat_roundingMode := 2\<rparr>))"
proof -
  let ?s = "sample_machine\<lparr>softfloat_roundingMode := 2\<rparr>"
  have rm: "selected_rm 0x003150d3 ?s = RM_unnamed 5"
    by (simp add: selected_rm_def Rm_def RM_ToEnum_def)
  have "sim_ok ?s" using sample_machine_ok by simp
  from reserved_rounding_modes [OF this, of "sample_env False" "0x003150d3"]
  show ?thesis by (simp add: rm)
qed

text \<open>
  The sign-injection instructions take the lower 31 bits from \<open>rs1\<close> and the sign from
  \<open>rs2\<close>, from its complement, or from the exclusive or of both; with equal sources they copy,
  negate and clear the sign, and negation is an involution.
\<close>

theorem sign_injection:
  assumes "sim_ok s"
  shows "\<exists>j jn jx. CallbackFSGNJ_S e insn s = Inr (fretire insn j s) \<and>
    CallbackFSGNJN_S e insn s = Inr (fretire insn jn s) \<and>
    CallbackFSGNJX_S e insn s = Inr (fretire insn jx s) \<and>
    take_bit 31 j = take_bit 31 (frs1_val insn s) \<and> take_bit 31 jn = take_bit 31 (frs1_val insn s) \<and>
    take_bit 31 jx = take_bit 31 (frs1_val insn s) \<and>
    bit j 31 = bit (frs2_val insn s) 31 \<and> bit jn 31 = (\<not> bit (frs2_val insn s) 31) \<and>
    bit jx 31 = (bit (frs1_val insn s) 31 \<noteq> bit (frs2_val insn s) 31) \<and>
    (Rs1 insn = Rs2 insn \<longrightarrow> j = frs1_val insn s \<and> f32_neg jn = frs1_val insn s \<and>
      jx = take_bit 31 (frs1_val insn s))"
proof -
  have low: "take_bit 31 (with_sign b v) = take_bit 31 v" for b v
    by (rule bit_word_eqI) (simp add: bit_take_bit_iff bit_with_sign)
  have copy: "with_sign (bit v 31) v = v" "with_sign False v = take_bit 31 v" for v
    by (rule bit_word_eqI, auto simp: bit_with_sign bit_take_bit_iff)+
  have neg: "f32_neg (with_sign (\<not> bit v 31) v) = v" for v
    by (metis f32_neg_f32_neg f32_neg_flips)
  show ?thesis
    unfolding ext_f_sign_effect [OF assms]
    by (intro exI conjI, (rule refl)+) (auto simp: low bit_with_sign copy neg)
qed

lemma sign_injection_witness:
  "\<exists>jn. CallbackFSGNJN_S (sample_env True) 0x203110d3 sample_machine = Inr (fretire 0x203110d3 jn sample_machine) \<and>
     bit jn 31"
proof -
  have "unat (Rs2 0x203110d3) = 3" by (simp add: Rs2_def)
  then have "\<not> bit (freg sample_machine (unat (Rs2 0x203110d3))) 31"
    by (simp add: sample_machine_regs)
  then show ?thesis
    using sign_injection [OF sample_machine_ok, of "sample_env True" "0x203110d3"] by blast
qed

text \<open>
  \<open>FCLASS_S\<close> sets exactly one of the ten class bits, the one of the range its operand's
  magnitude lies in and of its sign; the quiet and signaling NaNs are told apart by SoftFloat.
\<close>

theorem fclass_one_hot:
  assumes "sim_ok s"
  shows "\<exists>k < 10. CallbackFCLASS_S e insn s = Inr (retire insn (2 ^ k) s) \<and>
    k = isa_fclass (f32_isSignalingNaN e) (frs1_val insn s)"
  using ext_f_class_effect [OF assms, of e insn]
  by (simp add: push_bit_of_1) (simp add: isa_fclass_def Let_def)

lemma fclass_one_hot_witness:
  "CallbackFCLASS_S (sample_env False) 0xe00110d3 sample_machine = Inr (retire 0xe00110d3 64 sample_machine)"
proof -
  have "unat (Rs1 0xe00110d3) = 2" by (simp add: Rs1_def)
  then have v: "freg sample_machine (unat (Rs1 0xe00110d3)) = 0x3f800000" by (simp add: sample_machine_regs)
  have "\<not> bit (0x3f800000 :: u32) 31" by simp
  then have "isa_fclass f 0x3f800000 = 6" for f by (simp add: isa_fclass_def Let_def)
  then show ?thesis
    using fclass_one_hot [OF sample_machine_ok, of "sample_env False" "0xe00110d3"] unfolding v by auto
qed

text \<open>
  Bits survive every way between the register files: \<open>FMV_W_X\<close> followed by \<open>FMV_X_W\<close>
  returns the integer register's value, for NaN patterns too, and \<open>FSW\<close> followed by \<open>FLW\<close> at
  an accessible address returns the floating-point register's.
\<close>

theorem fp_moves_keep_bits:
  assumes "sim_ok s" "mem_ok (memory s)"
  shows "(\<exists>s1. CallbackFMV_W_X e i1 s = Inr s1 \<and>
      (Rs1 i2 = Rd i1 \<and> Rd i2 \<noteq> 0 \<longrightarrow>
        (\<exists>s2. CallbackFMV_X_W e i2 s1 = Inr s2 \<and> xreg s2 (unat (Rd i2)) = rs1_val i1 s))) \<and>
    (accessible (segms (memory s)) (rs1_val i3 s + ImmS i3) 4 \<longrightarrow>
      (\<exists>s3. CallbackFSW e i3 s = Inr s3 \<and>
        (rs1_val i4 s + ImmI i4 = rs1_val i3 s + ImmS i3 \<longrightarrow>
          (\<exists>s4. CallbackFLW e i4 s3 = Inr s4 \<and> freg s4 (unat (Rd i4)) = frs2_val i3 s))))"
proof (intro conjI impI)
  have "sim_ok (fretire i1 (rs1_val i1 s) s)" using assms(1) by (simp add: fretire_def)
  then show "\<exists>s1. CallbackFMV_W_X e i1 s = Inr s1 \<and>
      (Rs1 i2 = Rd i1 \<and> Rd i2 \<noteq> 0 \<longrightarrow>
        (\<exists>s2. CallbackFMV_X_W e i2 s1 = Inr s2 \<and> xreg s2 (unat (Rd i2)) = rs1_val i1 s))"
    using assms(1)
    by (intro exI [of _ "fretire i1 (rs1_val i1 s) s"]) (auto simp: ext_f_move_effect fretire_def retire_def unat_eq_0)
next
  assume acc: "accessible (segms (memory s)) (rs1_val i3 s + ImmS i3) 4"
  obtain m where m: "StoreU32 e (memory s) (rs1_val i3 s + ImmS i3) (frs2_val i3 s) = Inr m"
    "LoadU32 e m (rs1_val i3 s + ImmS i3) = Inr (frs2_val i3 s)"
    using store_then_load [OF assms(2), where ?'a = 32 and n = 4 and c = e and v = "frs2_val i3 s"] acc
    by (auto simp: StoreU32_def LoadU32_def)
  show "\<exists>s3. CallbackFSW e i3 s = Inr s3 \<and>
      (rs1_val i4 s + ImmI i4 = rs1_val i3 s + ImmS i3 \<longrightarrow>
        (\<exists>s4. CallbackFLW e i4 s3 = Inr s4 \<and> freg s4 (unat (Rd i4)) = frs2_val i3 s))"
    using assms(1) m by (auto simp: ext_f_memory_effect fretire_def)
qed

lemma fp_moves_keep_bits_witness:
  "\<exists>s3. CallbackFSW (sample_env False) 0x00312027 (xput 2 0x2000 sample_machine) = Inr s3 \<and>
     (\<exists>s4. CallbackFLW (sample_env False) 0x00012087 s3 = Inr s4 \<and> freg s4 1 = 0x3f800000)"
proof -
  let ?s = "xput 2 0x2000 sample_machine"
  have f: "unat (Rs1 0x00312027) = 2" "unat (Rs2 0x00312027) = 3" "unat (Rs1 0x00012087) = 2"
    "unat (Rd 0x00012087) = 1" "ImmS 0x00312027 = 0" "ImmI 0x00012087 = 0"
    by (simp_all add: Rs1_def Rs2_def Rd_def ImmS_def ImmI_def SignExtend_def)
  have x: "xreg ?s 2 = 0x2000" using sample_machine_ok by simp
  have ok: "sim_ok ?s" "mem_ok (memory ?s)" using sample_machine_ok sample_memory_ok by simp_all
  have "accessible (segms (memory ?s)) 0x2000 4"
    by (simp add: accessible_def sample_memory_def IsAddrInSegment_def)
  then show ?thesis
    using fp_moves_keep_bits [OF ok, where e = "sample_env False" and ?i3.0 = "0x00312027" and ?i4.0 = "0x00012087"]
    by (simp add: f x sample_machine_regs)
qed

text \<open>SoftFloat's ordered comparison is false when an operand is a NaN, as IEEE 754 demands.\<close>

definition le_false_on_nan :: "'w env \<Rightarrow> bool" where
  "le_false_on_nan e \<longleftrightarrow>
     (\<forall>a b. fpclassify a = FP_NAN \<or> fpclassify b = FP_NAN \<longrightarrow> \<not> fst (f32_le e a b))"

text \<open>
  C36: Minimum and maximum return one of their operands by SoftFloat's less-or-equal: where the
  comparison is false, the minimum is \<open>rs2\<close> and the maximum \<open>rs1\<close>. That is so when an operand is a
  NaN, given that the comparison is false then, so that each of them returns the NaN for one
  of the two orders of a NaN and a number. Unlike the comparisons, they leave \<open>fflags\<close> as it was,
  whatever the comparison raised.
\<close>

theorem fp_minmax:
  assumes "sim_ok s"
  shows "case f32_le e (frs1_val insn s) (frs2_val insn s) of (le, flags) \<Rightarrow>
    (\<exists>s1 s2 s3. CallbackFMIN_S e insn s = Inr s1 \<and> CallbackFMAX_S e insn s = Inr s2 \<and>
      CallbackFLE_S e insn s = Inr s3 \<and>
      freg s1 (unat (Rd insn)) = (if le then frs1_val insn s else frs2_val insn s) \<and>
      freg s2 (unat (Rd insn)) = (if le then frs2_val insn s else frs1_val insn s) \<and>
      (le_false_on_nan e \<longrightarrow> fpclassify (frs1_val insn s) = FP_NAN \<or> fpclassify (frs2_val insn s) = FP_NAN \<longrightarrow>
        freg s1 (unat (Rd insn)) = frs2_val insn s \<and> freg s2 (unat (Rd insn)) = frs1_val insn s) \<and>
      fcsr s1 = fcsr s \<and> fcsr s2 = fcsr s \<and>
      (Rd insn \<noteq> 0 \<longrightarrow> xreg s3 (unat (Rd insn)) = of_bool le) \<and>
      fcsr s3 = fcsr s OR (ucast flags AND 0x1f))"
proof (cases "f32_le e (frs1_val insn s) (frs2_val insn s)")
  case (Pair le flags)
  have ok: "sim_ok (s\<lparr>softfloat_exceptionFlags := x\<rparr>)" for x using assms by simp
  have ok2: "sim_ok (s\<lparr>softfloat_roundingMode := r, softfloat_exceptionFlags := x\<rparr>)" for r x
    using assms by simp
  have "\<not> le" if "le_false_on_nan e" "fpclassify (frs1_val insn s) = FP_NAN \<or> fpclassify (frs2_val insn s) = FP_NAN"
    using that Pair by (metis fst_conv le_false_on_nan_def)
  then show ?thesis
    using Pair ext_f_minmax_effect [OF assms Pair] ext_f_compare_effect(1) [OF assms, of e insn] ok ok2
    by (auto simp: fretire_def fp_compare_step_def fp_done_def Let_def unat_eq_0)
qed

lemma fp_minmax_witness:
  "\<exists>s1. CallbackFMIN_S ((sample_env False)\<lparr>f32_le := \<lambda>a b. (fpclassify a \<noteq> FP_NAN \<and> fpclassify b \<noteq> FP_NAN \<and> a \<le> b, 16)\<rparr>)
      0x283100d3 (fput 3 0x7fc00000 sample_machine) = Inr s1 \<and> freg s1 1 = 0x7fc00000 \<and> fcsr s1 = 0x60"
proof -
  let ?e = "(sample_env False)\<lparr>f32_le := \<lambda>a b. (fpclassify a \<noteq> FP_NAN \<and> fpclassify b \<noteq> FP_NAN \<and> a \<le> b, 16)\<rparr>"
  let ?s = "fput 3 0x7fc00000 sample_machine"
  have f: "unat (Rd 0x283100d3) = 1" "unat (Rs2 0x283100d3) = 3" by (simp_all add: Rd_def Rs2_def)
  have ok: "sim_ok ?s" using sample_machine_ok by simp
  have "fpclassify (frs2_val 0x283100d3 ?s) = FP_NAN" "frs2_val 0x283100d3 ?s = 0x7fc00000"
    using sample_machine_ok by (simp_all add: f fpclassify_def Let_def)
  moreover have "le_false_on_nan ?e" by (simp add: le_false_on_nan_def)
  ultimately show ?thesis
    using fp_minmax [OF ok, of ?e "0x283100d3"] unfolding f by (auto split: prod.splits)
qed

end
