(* ===== verification/RV_Decode.thy ===== *)
theory RV_Decode
  imports RV_Mnemonics "HOL-Library.Multiset"
begin

text \<open>
  The decoder of \<open>sim/decode.cpp\<close>: a linear search of the table for the first entry whose
  masked bits match. The lemmas show that the table is unambiguous, so that the search order
  does not matter and an instruction word decodes to a mnemonic exactly if it carries that
  mnemonic's bits.
\<close>

definition InsnDecodeTable :: "InsnEntry list" where
  "InsnDecodeTable = ext_i_inc @ ext_m_inc @ ext_zbb_inc @ ext_zicsr_inc @ ext_f_inc"

fun Decode_loop :: "InsnEntry list \<Rightarrow> u32 \<Rightarrow> InsnMnemonic" where
  "Decode_loop [] insn = kInvalid"
| "Decode_loop (entry # entries) insn =
     (if insn AND insn_mask entry = insn_match entry then mnem entry
      else Decode_loop entries insn)"

definition Decode :: "u32 \<Rightarrow> InsnMnemonic" where
  "Decode insn = Decode_loop InsnDecodeTable insn"

section \<open>The table is unambiguous\<close>

lemmas inc_defs = ext_i_inc_def ext_m_inc_def ext_zbb_inc_def ext_zicsr_inc_def ext_f_inc_def

text \<open>Two entries clash when some instruction word carries the bits of both.\<close>

definition clash :: "InsnEntry \<Rightarrow> InsnEntry \<Rightarrow> bool" where
  "clash e f \<longleftrightarrow>
     (insn_match e XOR insn_match f) AND insn_mask e AND insn_mask f = 0"

fun unambiguous :: "InsnEntry list \<Rightarrow> bool" where
  "unambiguous [] = True"
| "unambiguous (e # es) \<longleftrightarrow> list_all (\<lambda>f. \<not> clash e f) es \<and> unambiguous es"

lemma clash_if_both:
  assumes "w AND insn_mask e = insn_match e" "w AND insn_mask f = insn_match f"
  shows "clash e f"
  unfolding clash_def assms [symmetric]
  by (rule bit_word_eqI) (auto simp: bit_simps)

text \<open>
  Every mask compares the seven opcode bits, so only entries of one opcode can clash; keying
  the entries by opcode leaves few pairs to compare.
\<close>

definition opcode_of :: "InsnEntry \<Rightarrow> nat" where
  "opcode_of e = unat (insn_match e AND 0x7F)"

fun unambiguous_keyed :: "(nat \<times> InsnEntry) list \<Rightarrow> bool" where
  "unambiguous_keyed [] = True"
| "unambiguous_keyed ((k, e) # es) \<longleftrightarrow>
     list_all (\<lambda>(l, f). if k = l then \<not> clash e f else True) es \<and> unambiguous_keyed es"

lemma clash_opcode:
  assumes "clash e f" "insn_mask e AND 0x7F = 0x7F" "insn_mask f AND 0x7F = 0x7F"
  shows "opcode_of e = opcode_of f"
proof -
  have m: "bit (insn_mask e) i \<and> bit (insn_mask f) i" if "bit (0x7F :: u32) i" for i
    using that assms(2,3) by (metis bit_and_iff)
  have "insn_match e AND 0x7F = insn_match f AND 0x7F"
  proof (rule bit_word_eqI)
    fix i assume "i < LENGTH(32)"
    have "\<not> bit ((insn_match e XOR insn_match f) AND insn_mask e AND insn_mask f) i"
      using assms(1) by (simp add: clash_def)
    then show "bit (insn_match e AND 0x7F) i = bit (insn_match f AND 0x7F) i"
      using m [of i] by (auto simp: bit_and_iff bit_xor_iff)
  qed
  then show ?thesis unfolding opcode_of_def by simp
qed

lemma unambiguous_by_opcode:
  assumes "list_all (\<lambda>e. insn_mask e AND 0x7F = 0x7F) es"
    and "unambiguous_keyed (map (\<lambda>e. (opcode_of e, e)) es)"
  shows "unambiguous es"
  using assms
proof (induction es)
  case Nil
  then show ?case by simp
next
  case (Cons e es)
  have "\<not> clash e f" if "f \<in> set es" for f
    using Cons.prems that clash_opcode [of e f]
    by (cases "opcode_of e = opcode_of f") (auto simp: list_all_iff)
  then show ?case using Cons by (auto simp: list_all_iff)
qed

lemma table_masks: "list_all (\<lambda>e. insn_mask e AND 0x7F = 0x7F) InsnDecodeTable"
  by (simp add: InsnDecodeTable_def inc_defs)

lemma table_unambiguous: "unambiguous InsnDecodeTable"
proof (rule unambiguous_by_opcode [OF table_masks])
  show "unambiguous_keyed (map (\<lambda>e. (opcode_of e, e)) InsnDecodeTable)"
    by (simp add: InsnDecodeTable_def inc_defs opcode_of_def clash_def)
qed

lemma table_match_in_mask:
  "list_all (\<lambda>e. insn_match e AND insn_mask e = insn_match e) InsnDecodeTable"
  by (simp add: InsnDecodeTable_def inc_defs)

lemma table_mnems_distinct: "distinct (map mnem InsnDecodeTable)"
  by (simp add: InsnDecodeTable_def inc_defs)

lemma table_mnems_named: "list_all (\<lambda>e. mnem e \<noteq> kInvalid \<and> mnem e \<noteq> kCount) InsnDecodeTable"
  by (simp add: InsnDecodeTable_def inc_defs)

section \<open>What the search finds\<close>

abbreviation carries :: "u32 \<Rightarrow> InsnEntry \<Rightarrow> bool" where
  "carries w e \<equiv> w AND insn_mask e = insn_match e"

lemma Decode_loop_found:
  assumes "unambiguous es" "e \<in> set es" "carries w e"
  shows "Decode_loop es w = mnem e"
  using assms
proof (induction es)
  case Nil
  then show ?case by simp
next
  case (Cons f es)
  show ?case
  proof (cases "carries w f")
    case True
    then have "e = f" using Cons.prems clash_if_both [of w f e] by (auto simp: list_all_iff)
    then show ?thesis using True by simp
  next
    case False
    then show ?thesis using Cons by auto
  qed
qed

lemma Decode_loop_hit_or_miss:
  "(\<exists>e\<in>set es. carries w e \<and> Decode_loop es w = mnem e) \<or>
   (\<forall>e\<in>set es. \<not> carries w e) \<and> Decode_loop es w = kInvalid"
  by (induction es) auto

lemma Decode_loop_cases:
  obtains (hit) e where "e \<in> set es" "carries w e" "Decode_loop es w = mnem e"
  | (miss) "\<forall>e\<in>set es. \<not> carries w e" "Decode_loop es w = kInvalid"
  using Decode_loop_hit_or_miss [of es w] by blast

lemma Decode_hit: "e \<in> set InsnDecodeTable \<Longrightarrow> carries w e \<Longrightarrow> Decode w = mnem e"
  unfolding Decode_def by (rule Decode_loop_found [OF table_unambiguous])

lemma Decode_eq_mnem_iff:
  assumes "e \<in> set InsnDecodeTable"
  shows "Decode w = mnem e \<longleftrightarrow> carries w e"
proof
  assume d: "Decode w = mnem e"
  show "carries w e"
  proof (cases rule: Decode_loop_cases [of InsnDecodeTable w])
    case (hit f)
    then have "mnem f = mnem e" using d by (simp add: Decode_def)
    then have "f = e" using hit(1) assms table_mnems_distinct
      by (auto simp: distinct_map dest: inj_onD)
    then show ?thesis using hit by simp
  next
    case miss
    then show ?thesis using d assms table_mnems_named by (auto simp: Decode_def list_all_iff)
  qed
qed (use assms Decode_hit in blast)

lemma Decode_invalid_iff: "Decode w = kInvalid \<longleftrightarrow> (\<forall>e\<in>set InsnDecodeTable. \<not> carries w e)"
proof (cases rule: Decode_loop_cases [of InsnDecodeTable w])
  case (hit e)
  then show ?thesis using table_mnems_named by (auto simp: Decode_def list_all_iff)
next
  case miss
  then show ?thesis by (simp add: Decode_def)
qed

lemma Decode_not_kCount [simp]: "Decode w \<noteq> kCount"
proof (cases rule: Decode_loop_cases [of InsnDecodeTable w])
  case (hit e)
  then show ?thesis using table_mnems_named by (auto simp: Decode_def list_all_iff)
next
  case miss
  then show ?thesis by (simp add: Decode_def)
qed

lemma Decode_rev_order: "Decode_loop (rev InsnDecodeTable) w = Decode w"
proof (cases rule: Decode_loop_cases [of "rev InsnDecodeTable" w])
  case (hit e)
  then show ?thesis using Decode_hit [of e w] by simp
next
  case miss
  then show ?thesis by (simp add: Decode_invalid_iff [symmetric])
qed

text \<open>The entries stand in the order of the enumerators, so an entry's index is its mnemonic's value.\<close>

lemma table_values:
  "map (\<lambda>e. InsnMnemonic_FromEnum (mnem e)) InsnDecodeTable = [0..<InsnMnemonic_FromEnum kCount]"
  by code_simp

lemma table_sorted: "sorted_wrt (<) (map mnem InsnDecodeTable)"
proof -
  have "sorted_wrt (<) (map (\<lambda>e. InsnMnemonic_FromEnum (mnem e)) InsnDecodeTable)"
    unfolding table_values by (rule sorted_wrt_upt)
  then show ?thesis by (simp add: sorted_wrt_map less_InsnMnemonic_def)
qed

section \<open>Properties\<close>

text \<open>
  C5: Decoding is exact. A mnemonic is returned if and only if the word carries the fixed bits
  of its entry in the instruction tables, and \<open>kInvalid\<close> if and only if the word carries
  those of no entry; there is never a second entry to choose from, and \<open>kCount\<close> is never
  returned.
\<close>

theorem Decode_exact:
  "Decode w = m \<longleftrightarrow>
     (if m = kInvalid then list_all (\<lambda>e. w AND insn_mask e \<noteq> insn_match e) InsnDecodeTable
      else list_ex (\<lambda>e. mnem e = m \<and> w AND insn_mask e = insn_match e) InsnDecodeTable)"
proof (cases "m = kInvalid")
  case True
  then show ?thesis by (simp add: Decode_invalid_iff list_all_iff)
next
  case False
  have "\<exists>e\<in>set InsnDecodeTable. Decode w = mnem e \<and> carries w e" if "Decode w = m"
    using that False by (cases rule: Decode_loop_cases [of InsnDecodeTable w]) (auto simp: Decode_def)
  then show ?thesis using False Decode_hit by (simp add: list_ex_iff) metis
qed

text \<open>
  The linear search does not depend on the order of the tables: any permutation of the
  entries decodes every word in the same way, so the order in which \<open>isa_ext.inc\<close> includes
  the extensions is free.
\<close>

lemma Decode_order_free:
  assumes "mset es = mset InsnDecodeTable"
  shows "Decode_loop es w = Decode w"
proof -
  have es: "set es = set InsnDecodeTable" using assms by (metis set_mset_mset)
  show ?thesis
  proof (cases rule: Decode_loop_cases [of es w])
    case (hit e)
    then show ?thesis using Decode_hit [of e w] es by simp
  next
    case miss
    then show ?thesis using es by (simp add: Decode_invalid_iff [symmetric])
  qed
qed

end
