(* ===== verification/RV_Loop.thy ===== *)
theory RV_Loop
  imports RV_Prelude
begin

text \<open>
  The contract of a loop that repeats a body until a condition holds or the body fails, and
  may run forever: \<open>run\<close> is the loop as a partial function, \<open>loop_step\<close> one iteration as a
  relation. The locale proves, from the four laws of such a loop, that its result is that of
  the last state of the run, that it diverges exactly when every state it reaches has a
  successor, and that what the body preserves holds wherever the loop ends.
\<close>

section \<open>Iterations\<close>

inductive loop_step :: "('s \<Rightarrow> bool) \<Rightarrow> ('s \<Rightarrow> 'e + 's) \<Rightarrow> 's \<Rightarrow> 's \<Rightarrow> bool"
  for stop :: "'s \<Rightarrow> bool" and body :: "'s \<Rightarrow> 'e + 's" where
  iterate: "\<not> stop s \<Longrightarrow> body s = Inr s' \<Longrightarrow> loop_step stop body s s'"

inductive_simps loop_step_iff: "loop_step stop body s s'"
inductive_cases loop_stepE [elim]: "loop_step stop body s s'"

abbreviation loop_steps :: "('s \<Rightarrow> bool) \<Rightarrow> ('s \<Rightarrow> 'e + 's) \<Rightarrow> 's \<Rightarrow> 's \<Rightarrow> bool" where
  "loop_steps stop body \<equiv> (loop_step stop body)\<^sup>*\<^sup>*"

lemma loop_step_deterministic: "loop_step stop body s t \<Longrightarrow> loop_step stop body s u \<Longrightarrow> t = u"
  by (auto simp: loop_step_iff)

lemma loop_steps_from_stuck:
  assumes "\<nexists>t. loop_step stop body s t" "loop_steps stop body s u"
  shows "u = s"
  using assms(2,1) by (cases rule: converse_rtranclpE) auto

section \<open>The loop\<close>

text \<open>A state where the loop ends, and its result there.\<close>

definition loop_ends :: "('s \<Rightarrow> bool) \<Rightarrow> ('s \<Rightarrow> 'e + 's) \<Rightarrow> ('s \<Rightarrow> 'e + 'r) \<Rightarrow> 's \<Rightarrow> 'e + 'r \<Rightarrow> bool" where
  "loop_ends stop body finish s r \<longleftrightarrow>
     (if stop s then r = finish s else case body s of Inl e \<Rightarrow> r = Inl e | Inr _ \<Rightarrow> False)"

lemma loop_ends_stuck: "loop_ends stop body finish s r \<Longrightarrow> \<not> loop_step stop body s t"
  by (auto simp: loop_ends_def loop_step_iff split: if_splits sum.splits)

lemma loop_ends_unique:
  "loop_ends stop body finish s r \<Longrightarrow> loop_ends stop body finish s r' \<Longrightarrow> r = r'"
  by (auto simp: loop_ends_def split: if_splits sum.splits)

locale loop_runner =
  fixes stop :: "'s \<Rightarrow> bool"
    and body :: "'s \<Rightarrow> 'e + 's"
    and finish :: "'s \<Rightarrow> 'e + 'r"
    and run :: "'s \<Rightarrow> ('e + 'r) option"
  assumes run_stop: "stop s \<Longrightarrow> run s = Some (finish s)"
    and run_error: "\<not> stop s \<Longrightarrow> body s = Inl e \<Longrightarrow> run s = Some (Inl e)"
    and run_step: "\<not> stop s \<Longrightarrow> body s = Inr s' \<Longrightarrow> run s = run s'"
    and run_only: "run s = Some r \<Longrightarrow>
      \<exists>s'. loop_steps stop body s s' \<and> loop_ends stop body finish s' r"
begin

lemma run_along: "loop_steps stop body s s' \<Longrightarrow> run s = run s'"
  by (induction rule: rtranclp_induct) (auto simp: loop_step_iff run_step)

lemma run_ends: "loop_ends stop body finish s r \<Longrightarrow> run s = Some r"
  by (auto simp: loop_ends_def run_stop run_error split: if_splits sum.splits)

lemma run_iff:
  "run s = Some r \<longleftrightarrow> (\<exists>s'. loop_steps stop body s s' \<and> loop_ends stop body finish s' r)"
  using run_only run_along run_ends by metis

lemma run_diverges_iff:
  "run s = None \<longleftrightarrow> (\<forall>s'. loop_steps stop body s s' \<longrightarrow> (\<exists>t. loop_step stop body s' t))"
proof
  assume none: "run s = None"
  show "\<forall>s'. loop_steps stop body s s' \<longrightarrow> (\<exists>t. loop_step stop body s' t)"
  proof (intro allI impI)
    fix s'
    assume "loop_steps stop body s s'"
    then have "run s' = None" using none run_along by metis
    then have "\<not> stop s'" "\<And>e. body s' \<noteq> Inl e" using run_stop run_error by force+
    then show "\<exists>t. loop_step stop body s' t"
      by (cases "body s'") (auto simp: loop_step_iff)
  qed
next
  assume next_: "\<forall>s'. loop_steps stop body s s' \<longrightarrow> (\<exists>t. loop_step stop body s' t)"
  show "run s = None"
  proof (cases "run s")
    case (Some r)
    then show ?thesis using run_only next_ loop_ends_stuck by metis
  qed simp
qed

lemma last_state_unique:
  assumes "loop_steps stop body s t" "loop_ends stop body finish t r"
    and "loop_steps stop body s u" "loop_ends stop body finish u r'"
  shows "t = u \<and> r = r'"
proof -
  have "loop_steps stop body t u \<or> loop_steps stop body u t"
    using assms(1,3)
  proof (induction rule: converse_rtranclp_induct)
    case base
    then show ?case by simp
  next
    case (step y z)
    show ?case
    proof (cases rule: converse_rtranclpE [OF step.prems])
      case 1
      then show ?thesis using step.hyps by (meson converse_rtranclp_into_rtranclp)
    next
      case (2 z')
      then show ?thesis using step loop_step_deterministic by metis
    qed
  qed
  then have "t = u"
    using assms(2,4) loop_ends_stuck loop_steps_from_stuck by metis
  then show ?thesis using assms(2,4) loop_ends_unique by metis
qed

end

text \<open>A loop whose body keeps an invariant.\<close>

locale invariant_loop = loop_runner stop body finish run
  for stop :: "'s \<Rightarrow> bool" and body :: "'s \<Rightarrow> 'e + 's" and finish :: "'s \<Rightarrow> 'e + 'r"
    and run :: "'s \<Rightarrow> ('e + 'r) option" +
  fixes inv :: "'s \<Rightarrow> bool"
  assumes body_keeps: "inv s \<Longrightarrow> \<not> stop s \<Longrightarrow> body s = Inr s' \<Longrightarrow> inv s'"
begin

lemma steps_keep: "loop_steps stop body s s' \<Longrightarrow> inv s \<Longrightarrow> inv s'"
  by (induction rule: rtranclp_induct) (auto simp: loop_step_iff intro: body_keeps)

lemma run_last_state:
  assumes "run s = Some r" "inv s"
  obtains s' where "loop_steps stop body s s'" "inv s'" "loop_ends stop body finish s' r"
  using assms run_only steps_keep by metis

end

text \<open>
  Two builds of one loop: on a state of the invariant the second body does what the first one
  does, unless that fails one of the checks the second build leaves out (\<open>failed\<close>).
\<close>

locale loop_refinement = checked: invariant_loop stop body finish run inv +
    plain: loop_runner stop body' finish run'
  for stop :: "'s \<Rightarrow> bool" and body :: "'s \<Rightarrow> 'e + 's" and finish :: "'s \<Rightarrow> 'e + 'r"
    and run :: "'s \<Rightarrow> ('e + 'r) option" and inv :: "'s \<Rightarrow> bool"
    and body' :: "'s \<Rightarrow> 'e + 's" and run' :: "'s \<Rightarrow> ('e + 'r) option" +
  fixes failed :: "'e \<Rightarrow> bool"
  assumes body_same: "inv s \<Longrightarrow> \<not> stop s \<Longrightarrow> body' s = body s \<or> (\<exists>err. body s = Inl err \<and> failed err)"
begin

lemma step_same: "inv s \<Longrightarrow> loop_step stop body s s' \<Longrightarrow> loop_step stop body' s s'"
  using body_same [of s] by (auto simp: loop_step_iff)

lemma steps_same: "loop_steps stop body s s' \<Longrightarrow> inv s \<Longrightarrow> loop_steps stop body' s s'"
proof (induction rule: rtranclp_induct)
  case base
  then show ?case by simp
next
  case (step t u)
  then show ?case using checked.steps_keep step_same by (meson rtranclp.rtrancl_into_rtrancl)
qed

lemma run_same:
  assumes "run s = Some r" "inv s" "\<And>err. r = Inl err \<Longrightarrow> \<not> failed err"
  shows "run' s = Some r"
proof -
  obtain s' where s': "loop_steps stop body s s'" "inv s'" "loop_ends stop body finish s' r"
    using checked.run_last_state [OF assms(1,2)] .
  then have "loop_ends stop body' finish s' r"
    using body_same [of s'] assms(3) by (auto simp: loop_ends_def split: if_splits sum.splits)
  then show ?thesis using plain.run_along [OF steps_same [OF s'(1) assms(2)]] plain.run_ends by simp
qed

lemma run_diverges_same:
  assumes "run s = None" "inv s"
  shows "run' s = None"
  unfolding plain.run_diverges_iff
proof (intro allI impI)
  have next_: "\<exists>v. loop_step stop body t v \<and> loop_step stop body' t v" if "loop_steps stop body s t" for t
    using that assms checked.run_diverges_iff checked.steps_keep step_same by metis
  fix t
  assume "loop_steps stop body' s t"
  then have "loop_steps stop body s t"
  proof (induction rule: rtranclp_induct)
    case base
    then show ?case by simp
  next
    case (step t u)
    then show ?case
      using next_ [OF step.IH] loop_step_deterministic by (metis rtranclp.rtrancl_into_rtrancl)
  qed
  then show "\<exists>v. loop_step stop body' t v" using next_ by blast
qed

end

end
