(* ===== verification/RV_Execute.thy ===== *)
theory RV_Execute
  imports RV_Ext_M RV_Ext_Zbb RV_Ext_Zicsr RV_Ext_F RV_Decode RV_Loop
begin

text \<open>
  Dispatch and the main loop: \<open>GetInsnCallback\<close> of \<open>sim/dispatch.cpp\<close> and
  \<open>RVSim::Execute\<close> of \<open>sim/rv_sim.cpp\<close>. The callback table has one entry per
  \<open>MNEMONIC\<close> line and is indexed by the value of the enumerator; \<open>kCount\<close> and \<open>kInvalid\<close>
  index outside it. The functions by cases before it name the callback each mnemonic should
  get, and the lookup is shown to return it. The loop may run forever, so it is a partial function.
\<close>

section \<open>Dispatch\<close>

text \<open>The callback that carries the name of a mnemonic.\<close>

fun ext_i_callback :: "ext_i_mnem \<Rightarrow> 'w callback_env" where
  "ext_i_callback LUI = CallbackLUI"
| "ext_i_callback AUIPC = CallbackAUIPC"
| "ext_i_callback JAL = CallbackJAL"
| "ext_i_callback JALR = CallbackJALR"
| "ext_i_callback BEQ = CallbackBEQ"
| "ext_i_callback BNE = CallbackBNE"
| "ext_i_callback BLT = CallbackBLT"
| "ext_i_callback BGE = CallbackBGE"
| "ext_i_callback BLTU = CallbackBLTU"
| "ext_i_callback BGEU = CallbackBGEU"
| "ext_i_callback LB = CallbackLB"
| "ext_i_callback LH = CallbackLH"
| "ext_i_callback LW = CallbackLW"
| "ext_i_callback LBU = CallbackLBU"
| "ext_i_callback LHU = CallbackLHU"
| "ext_i_callback SB = CallbackSB"
| "ext_i_callback SH = CallbackSH"
| "ext_i_callback SW = CallbackSW"
| "ext_i_callback ADDI = CallbackADDI"
| "ext_i_callback SLTI = CallbackSLTI"
| "ext_i_callback SLTIU = CallbackSLTIU"
| "ext_i_callback XORI = CallbackXORI"
| "ext_i_callback ORI = CallbackORI"
| "ext_i_callback ANDI = CallbackANDI"
| "ext_i_callback SLLI = CallbackSLLI"
| "ext_i_callback SRLI = CallbackSRLI"
| "ext_i_callback SRAI = CallbackSRAI"
| "ext_i_callback ADD = CallbackADD"
| "ext_i_callback SUB = CallbackSUB"
| "ext_i_callback SLL = CallbackSLL"
| "ext_i_callback SLT = CallbackSLT"
| "ext_i_callback SLTU = CallbackSLTU"
| "ext_i_callback XOR_insn = CallbackXOR"
| "ext_i_callback SRL = CallbackSRL"
| "ext_i_callback SRA = CallbackSRA"
| "ext_i_callback OR_insn = CallbackOR"
| "ext_i_callback AND_insn = CallbackAND"
| "ext_i_callback FENCE = CallbackFENCE"
| "ext_i_callback FENCE_I = CallbackFENCE_I"
| "ext_i_callback ECALL = CallbackECALL"
| "ext_i_callback EBREAK = CallbackEBREAK"

fun ext_m_callback :: "ext_m_mnem \<Rightarrow> 'w callback_env" where
  "ext_m_callback MUL = CallbackMUL"
| "ext_m_callback MULH = CallbackMULH"
| "ext_m_callback MULHSU = CallbackMULHSU"
| "ext_m_callback MULHU = CallbackMULHU"
| "ext_m_callback DIV = CallbackDIV"
| "ext_m_callback DIVU = CallbackDIVU"
| "ext_m_callback REM = CallbackREM"
| "ext_m_callback REMU = CallbackREMU"

fun ext_zbb_callback :: "ext_zbb_mnem \<Rightarrow> 'w callback_env" where
  "ext_zbb_callback ANDN = CallbackANDN"
| "ext_zbb_callback ORN = CallbackORN"
| "ext_zbb_callback XNOR = CallbackXNOR"
| "ext_zbb_callback MIN_insn = CallbackMIN"
| "ext_zbb_callback MINU = CallbackMINU"
| "ext_zbb_callback MAX_insn = CallbackMAX"
| "ext_zbb_callback MAXU = CallbackMAXU"
| "ext_zbb_callback SEXT_B = CallbackSEXT_B"
| "ext_zbb_callback SEXT_H = CallbackSEXT_H"
| "ext_zbb_callback ZEXT_H = CallbackZEXT_H"
| "ext_zbb_callback CLZ = CallbackCLZ"
| "ext_zbb_callback CTZ = CallbackCTZ"
| "ext_zbb_callback CPOP = CallbackCPOP"
| "ext_zbb_callback ROL = CallbackROL"
| "ext_zbb_callback ROR = CallbackROR"
| "ext_zbb_callback RORI = CallbackRORI"
| "ext_zbb_callback REV8 = CallbackREV8"
| "ext_zbb_callback ORC_B = CallbackORC_B"

fun ext_zicsr_callback :: "ext_zicsr_mnem \<Rightarrow> 'w callback_env" where
  "ext_zicsr_callback CSRRW = CallbackCSRRW"
| "ext_zicsr_callback CSRRS = CallbackCSRRS"
| "ext_zicsr_callback CSRRC = CallbackCSRRC"
| "ext_zicsr_callback CSRRWI = CallbackCSRRWI"
| "ext_zicsr_callback CSRRSI = CallbackCSRRSI"
| "ext_zicsr_callback CSRRCI = CallbackCSRRCI"

fun ext_f_callback :: "ext_f_mnem \<Rightarrow> 'w callback_env" where
  "ext_f_callback FLW = CallbackFLW"
| "ext_f_callback FSW = CallbackFSW"
| "ext_f_callback FADD_S = CallbackFADD_S"
| "ext_f_callback FSUB_S = CallbackFSUB_S"
| "ext_f_callback FMUL_S = CallbackFMUL_S"
| "ext_f_callback FDIV_S = CallbackFDIV_S"
| "ext_f_callback FSQRT_S = CallbackFSQRT_S"
| "ext_f_callback FMADD_S = CallbackFMADD_S"
| "ext_f_callback FMSUB_S = CallbackFMSUB_S"
| "ext_f_callback FNMSUB_S = CallbackFNMSUB_S"
| "ext_f_callback FNMADD_S = CallbackFNMADD_S"
| "ext_f_callback FSGNJ_S = CallbackFSGNJ_S"
| "ext_f_callback FSGNJN_S = CallbackFSGNJN_S"
| "ext_f_callback FSGNJX_S = CallbackFSGNJX_S"
| "ext_f_callback FMIN_S = CallbackFMIN_S"
| "ext_f_callback FMAX_S = CallbackFMAX_S"
| "ext_f_callback FLE_S = CallbackFLE_S"
| "ext_f_callback FLT_S = CallbackFLT_S"
| "ext_f_callback FEQ_S = CallbackFEQ_S"
| "ext_f_callback FCVT_W_S = CallbackFCVT_W_S"
| "ext_f_callback FCVT_WU_S = CallbackFCVT_WU_S"
| "ext_f_callback FCVT_S_W = CallbackFCVT_S_W"
| "ext_f_callback FCVT_S_WU = CallbackFCVT_S_WU"
| "ext_f_callback FMV_X_W = CallbackFMV_X_W"
| "ext_f_callback FCLASS_S = CallbackFCLASS_S"
| "ext_f_callback FMV_W_X = CallbackFMV_W_X"

text \<open>The table of the source, and its lookup by the value of the enumerator.\<close>

definition callback_table :: "'w callback_env list" where
  "callback_table =
    [CallbackLUI, CallbackAUIPC, CallbackJAL, CallbackJALR, CallbackBEQ, CallbackBNE,
     CallbackBLT, CallbackBGE, CallbackBLTU, CallbackBGEU, CallbackLB, CallbackLH,
     CallbackLW, CallbackLBU, CallbackLHU, CallbackSB, CallbackSH, CallbackSW,
     CallbackADDI, CallbackSLTI, CallbackSLTIU, CallbackXORI, CallbackORI, CallbackANDI,
     CallbackSLLI, CallbackSRLI, CallbackSRAI, CallbackADD, CallbackSUB, CallbackSLL,
     CallbackSLT, CallbackSLTU, CallbackXOR, CallbackSRL, CallbackSRA, CallbackOR,
     CallbackAND, CallbackFENCE, CallbackFENCE_I, CallbackECALL, CallbackEBREAK, CallbackMUL,
     CallbackMULH, CallbackMULHSU, CallbackMULHU, CallbackDIV, CallbackDIVU, CallbackREM,
     CallbackREMU, CallbackANDN, CallbackORN, CallbackXNOR, CallbackMIN, CallbackMINU,
     CallbackMAX, CallbackMAXU, CallbackSEXT_B, CallbackSEXT_H, CallbackZEXT_H, CallbackCLZ,
     CallbackCTZ, CallbackCPOP, CallbackROL, CallbackROR, CallbackRORI, CallbackREV8,
     CallbackORC_B, CallbackCSRRW, CallbackCSRRS, CallbackCSRRC, CallbackCSRRWI, CallbackCSRRSI,
     CallbackCSRRCI, CallbackFLW, CallbackFSW, CallbackFADD_S, CallbackFSUB_S, CallbackFMUL_S,
     CallbackFDIV_S, CallbackFSQRT_S, CallbackFMADD_S, CallbackFMSUB_S, CallbackFNMSUB_S, CallbackFNMADD_S,
     CallbackFSGNJ_S, CallbackFSGNJN_S, CallbackFSGNJX_S, CallbackFMIN_S, CallbackFMAX_S, CallbackFLE_S,
     CallbackFLT_S, CallbackFEQ_S, CallbackFCVT_W_S, CallbackFCVT_WU_S, CallbackFCVT_S_W, CallbackFCVT_S_WU,
     CallbackFMV_X_W, CallbackFCLASS_S, CallbackFMV_W_X]"

definition GetInsnCallback :: "InsnMnemonic \<Rightarrow> error + 'w callback_env" where
  "GetInsnCallback m = array_get callback_table (InsnMnemonic_FromEnum m)"

lemma length_callback_table: "length callback_table = 99"
  by (simp add: callback_table_def)

lemma GetInsnCallback_simps [simp]:
  "GetInsnCallback (Ext_I i) = Inr (ext_i_callback i)"
  "GetInsnCallback (Ext_M m) = Inr (ext_m_callback m)"
  "GetInsnCallback (Ext_Zbb z) = Inr (ext_zbb_callback z)"
  "GetInsnCallback (Ext_Zicsr c) = Inr (ext_zicsr_callback c)"
  "GetInsnCallback (Ext_F f) = Inr (ext_f_callback f)"
  "GetInsnCallback kCount = ub OutOfBounds" "GetInsnCallback kInvalid = ub OutOfBounds"
proof -
  note d = GetInsnCallback_def array_get_def callback_table_def
  show "GetInsnCallback (Ext_I i) = Inr (ext_i_callback i)" by (cases i) (simp_all add: d)
  show "GetInsnCallback (Ext_M m) = Inr (ext_m_callback m)" by (cases m) (simp_all add: d)
  show "GetInsnCallback (Ext_Zbb z) = Inr (ext_zbb_callback z)" by (cases z) (simp_all add: d)
  show "GetInsnCallback (Ext_Zicsr c) = Inr (ext_zicsr_callback c)" by (cases c) (simp_all add: d)
  show "GetInsnCallback (Ext_F f) = Inr (ext_f_callback f)" by (cases f) (simp_all add: d)
  show "GetInsnCallback kCount = ub OutOfBounds" "GetInsnCallback kInvalid = ub OutOfBounds"
    by (simp_all add: GetInsnCallback_def array_get_def length_callback_table)
qed

section \<open>The main loop\<close>

definition Execute_body :: "'w env \<Rightarrow> 'w machine \<Rightarrow> error + 'w machine" where
  "Execute_body e s =
     and_then (Fetch e (memory s) (ip s)) (\<lambda>undecoded_insn.
     let mnem = Decode undecoded_insn in
     if mnem = kInvalid then Inl (TraceableException ''Unkown instuction encountered'')
     else and_then (GetInsnCallback mnem) (\<lambda>instr_callback.
          instr_callback e undecoded_insn s))"

definition Execute_result :: "'w machine \<Rightarrow> error + u32 \<times> 'w machine" where
  "Execute_result s =
     and_then (array_get (xregs s) (XReg_FromEnum X_a0)) (\<lambda>a0. Inr (a0, s))"

partial_function (option) Execute ::
  "'w env \<Rightarrow> 'w machine \<Rightarrow> (error + u32 \<times> 'w machine) option" where
  "Execute e s =
     (if \<not> should_stop s then
        (case Execute_body e s of Inl err \<Rightarrow> Some (Inl err) | Inr s' \<Rightarrow> Execute e s')
      else Some (Execute_result s))"

section \<open>The loop laws\<close>

lemma Execute_only:
  "Execute e s = Some r \<Longrightarrow>
    \<exists>s'. loop_steps should_stop (Execute_body e) s s' \<and>
      loop_ends should_stop (Execute_body e) Execute_result s' r"
proof (induction rule: Execute.raw_induct [rotated, consumes 1])
  case (1 exec e s r)
  show ?case
  proof (cases "should_stop s")
    case True
    then show ?thesis using 1(2) by (auto simp: loop_ends_def intro!: exI [of _ s])
  next
    case False
    show ?thesis
    proof (cases "Execute_body e s")
      case (Inl err)
      then show ?thesis using 1(2) False by (auto simp: loop_ends_def intro!: exI [of _ s])
    next
      case (Inr t)
      then have "exec e t = Some r" using 1(2) False by simp
      then obtain s' where "loop_steps should_stop (Execute_body e) t s'"
        "loop_ends should_stop (Execute_body e) Execute_result s' r" using 1(1) by blast
      then show ?thesis using False Inr
        by (meson converse_rtranclp_into_rtranclp loop_step.iterate)
    qed
  qed
qed

interpretation exec: loop_runner should_stop "Execute_body e" Execute_result "Execute e"
  for e :: "'w env"
  by unfold_locales (simp_all add: Execute.simps Execute_only)

section \<open>Properties\<close>

text \<open>
  C31: Dispatch runs the callback of the instruction. The decode table has its entries in the
  order of the enumeration, the callback table is as long, and looking up a mnemonic's value
  in it gives the callback of that name; only the two enumerators that are no instruction,
  \<open>kCount\<close> and \<open>kInvalid\<close>, index outside the table.
\<close>

theorem dispatch_by_name:
  "map (\<lambda>e. InsnMnemonic_FromEnum (mnem e)) InsnDecodeTable = [0..<InsnMnemonic_FromEnum kCount] \<and>
   length callback_table = InsnMnemonic_FromEnum kCount \<and>
   GetInsnCallback m =
     (case m of
        Ext_I i \<Rightarrow> Inr (ext_i_callback i)
      | Ext_M i \<Rightarrow> Inr (ext_m_callback i)
      | Ext_Zbb i \<Rightarrow> Inr (ext_zbb_callback i)
      | Ext_Zicsr i \<Rightarrow> Inr (ext_zicsr_callback i)
      | Ext_F i \<Rightarrow> Inr (ext_f_callback i)
      | kCount \<Rightarrow> ub OutOfBounds
      | kInvalid \<Rightarrow> ub OutOfBounds)"
  by (simp add: table_values length_callback_table split: InsnMnemonic.split)

end
