(* ===== verification/RV_Invariants.thy ===== *)
theory RV_Invariants
  imports RV_Execute
begin

text \<open>
  What every instruction keeps, whatever its operands and whatever the parameters of the
  environment return: the well-formedness of the state, the layout of guest memory, and the
  alignment of the instruction pointer to two bytes. All but \<open>ECALL\<close> also leave the stop flag
  and the state of the host alone (\<open>undisturbed\<close>). The loop contract carries these facts over
  to whole runs.
\<close>

section \<open>One instruction\<close>

definition keeps :: "'w machine \<Rightarrow> 'w machine \<Rightarrow> bool" where
  "keeps s s' \<longleftrightarrow> sim_ok s' \<and> layout (segms (memory s')) = layout (segms (memory s)) \<and>
     (even (ip s) \<longrightarrow> even (ip s'))"

definition undisturbed :: "'w machine \<Rightarrow> 'w machine \<Rightarrow> bool" where
  "undisturbed s s' \<longleftrightarrow> should_stop s' = should_stop s \<and> host s' = host s"

lemma undisturbed_trans: "undisturbed s t \<Longrightarrow> undisturbed t u \<Longrightarrow> undisturbed s u"
  by (simp add: undisturbed_def)

lemma undisturbed_updates [simp]:
  "undisturbed s s" "undisturbed s (t\<lparr>ip := a\<rparr>) = undisturbed s t"
  "undisturbed s (t\<lparr>memory := m\<rparr>) = undisturbed s t" "undisturbed s (t\<lparr>xregs := xs\<rparr>) = undisturbed s t"
  "undisturbed s (t\<lparr>fregs := fs\<rparr>) = undisturbed s t" "undisturbed s (t\<lparr>fcsr := v\<rparr>) = undisturbed s t"
  "undisturbed s (t\<lparr>softfloat_roundingMode := rm\<rparr>) = undisturbed s t"
  "undisturbed s (t\<lparr>softfloat_exceptionFlags := fl\<rparr>) = undisturbed s t"
  "undisturbed s (xput i v t) = undisturbed s t" "undisturbed s (fput i v t) = undisturbed s t"
  "undisturbed s (Step t) = undisturbed s t" "undisturbed s (retire insn v t) = undisturbed s t"
  "undisturbed s (fretire insn v t) = undisturbed s t"
  by (auto simp: undisturbed_def xput_def fput_def Step_def retire_def fretire_def)

lemma even_masked [simp]: "even (a AND - 2 :: u32)"
proof -
  have "(- 2 :: u32) = NOT 1" by simp
  then show ?thesis by (simp only: even_word_bit0) (simp add: bit_simps)
qed

lemma keeps_retire [intro]: "sim_ok s \<Longrightarrow> keeps s (retire insn v s)"
  by (simp add: keeps_def)

lemma Store_with_layout: "Store_with c m a v = Inr m' \<Longrightarrow> layout (segms m') = layout (segms m)"
  by (auto simp: Store_with_def elim!: errE dest: Store_loop_layout)

lemma keeps_store:
  "sim_ok s \<Longrightarrow> Store_with c (memory s) a v = Inr m \<Longrightarrow> keeps s (Step (s\<lparr>memory := m\<rparr>))"
  by (simp add: keeps_def Store_with_layout)

lemma ext_i_keeps:
  assumes "sim_ok s" "m \<noteq> ECALL" "ext_i_callback m e insn s = Inr s'"
  shows "keeps s s' \<and> undisturbed s s'"
  using assms
  by (cases m)
    (auto simp: ext_i_effects CallbackFENCE_def CallbackFENCE_I_def CallbackEBREAK_def
      keeps_def StoreU32_def StoreU16_def StoreU8_def Store_with_layout elim!: errE split: if_splits)

lemma ext_m_keeps:
  assumes "sim_ok s" "ext_m_callback m e insn s = Inr s'"
  shows "keeps s s' \<and> undisturbed s s'"
  using assms by (cases m) (auto simp: ext_m_effects simp del: isa_m.simps split: if_splits)

lemma ext_zbb_keeps:
  assumes "sim_ok s" "ext_zbb_callback m e insn s = Inr s'"
  shows "keeps s s' \<and> undisturbed s s'"
  using assms by (cases m) (auto simp: ext_zbb_effects simp del: isa_zbb.simps split: if_splits)

lemma keeps_csr_swap: "sim_ok s \<Longrightarrow> keeps s (csr_swap r insn v s)"
  by (simp add: keeps_def csr_swap_def del: csr_write.simps)

lemma undisturbed_csr_swap: "undisturbed s (csr_swap r insn v s)"
  by (simp add: csr_swap_def del: csr_write.simps)

lemma ext_zicsr_keeps:
  assumes "sim_ok s" "ext_zicsr_callback m e insn s = Inr s'"
  shows "keeps s s' \<and> undisturbed s s'"
proof (cases "CSR_ToEnum (unat (ImmCSR insn))")
  case None
  then show ?thesis using assms
    by (cases m) (auto simp: ext_zicsr_unknown split: if_splits)
next
  case (Some r)
  then show ?thesis using assms
    by (cases m) (auto simp: ext_zicsr_effect keeps_csr_swap undisturbed_csr_swap simp del: isa_csr.simps)
qed

lemma CopyHostToGuest_layout:
  "CopyHostToGuest c m a buf n = Inr m' \<Longrightarrow> layout (segms m') = layout (segms m)"
proof -
  have "CopyHostToGuest_loop c m a buf i n = Inr m' \<Longrightarrow> layout (segms m') = layout (segms m)" for i
    by (induction n arbitrary: m i)
      (auto simp: StoreU8_def dest: Store_with_layout elim!: errE)
  then show "CopyHostToGuest c m a buf n = Inr m' \<Longrightarrow> layout (segms m') = layout (segms m)"
    by (simp add: CopyHostToGuest_def)
qed

lemma sys_read_keeps: "sim_ok s \<Longrightarrow> sys_read e s = Inr s' \<Longrightarrow> keeps s s'"
  by (cases "host_read e (xreg s 10) (replicate (unat (xreg s 12)) 0) (host s)")
    (auto simp: sys_read_effect keeps_def CopyHostToGuest_layout elim!: errE split: if_splits)

lemma sys_write_keeps: "sim_ok s \<Longrightarrow> sys_write e s = Inr s' \<Longrightarrow> keeps s s'"
  by (auto simp: sys_write_effect keeps_def elim!: errE split: prod.splits)

lemma keeps_then_Step: "keeps s t \<Longrightarrow> keeps s (Step t)"
  by (simp add: keeps_def)

lemma ecall_keeps: "sim_ok s \<Longrightarrow> CallbackECALL e insn s = Inr s' \<Longrightarrow> keeps s s'"
  by (auto simp: ecall_effect intro!: keeps_then_Step intro: sys_read_keeps sys_write_keeps
      elim!: errE split: if_splits) (simp_all add: keeps_def)

text \<open>
  The floating-point instructions are sequences of steps that touch registers, flags and
  SoftFloat's globals only.
\<close>

definition flags_grow :: "'w machine \<Rightarrow> 'w machine \<Rightarrow> bool" where
  "flags_grow s s' \<longleftrightarrow> (\<exists>x. fcsr s' = fcsr s OR (x AND 0x1f))"

lemma flags_grow_same: "fcsr s' = fcsr s \<Longrightarrow> flags_grow s s'"
  by (auto simp: flags_grow_def intro: exI [of _ 0])

lemma flags_grow_trans: "flags_grow s t \<Longrightarrow> flags_grow t u \<Longrightarrow> flags_grow s u"
proof -
  have "(w OR (x AND m)) OR (y AND m) = w OR ((x OR y) AND m)" for w x y m :: u32
    by (rule bit_word_eqI) (auto simp: bit_simps)
  then show "flags_grow s t \<Longrightarrow> flags_grow t u \<Longrightarrow> flags_grow s u"
    unfolding flags_grow_def by metis
qed

definition frames :: "'w machine \<Rightarrow> 'w machine \<Rightarrow> bool" where
  "frames s s' \<longleftrightarrow> (sim_ok s \<longrightarrow> sim_ok s') \<and> memory s' = memory s \<and> ip s' = ip s \<and>
     undisturbed s s' \<and> flags_grow s s'"

lemma frames_refl [simp]: "frames s s"
  by (simp add: frames_def flags_grow_same)

lemma frames_trans: "frames s t \<Longrightarrow> frames t u \<Longrightarrow> frames s u"
  by (auto simp: frames_def intro: flags_grow_trans undisturbed_trans)

text \<open>
  \<open>stays s m\<close>: the computation \<open>m\<close> keeps the invariants of \<open>s\<close> if it succeeds, does not touch
  the host and clears no floating-point flag. The rules follow the shape of the code.
\<close>

definition stays :: "'w machine \<Rightarrow> error + 'w machine \<Rightarrow> bool" where
  "stays s m \<longleftrightarrow> (\<forall>s'. m = Inr s' \<longrightarrow> keeps s s' \<and> undisturbed s s' \<and> flags_grow s s')"

lemma staysI_pure: "(\<And>x. stays s (f x)) \<Longrightarrow> stays s (and_then m f)"
  by (auto simp: stays_def elim!: errE)

lemma staysI_frame:
  assumes "frames s t" "\<And>u. m = Inr u \<Longrightarrow> frames t u" "\<And>u. frames s u \<Longrightarrow> stays s (f u)"
  shows "stays s (and_then m f)"
  using assms frames_trans by (fastforce simp: stays_def elim!: errE)

lemma staysI_last: "frames s t \<Longrightarrow> sim_ok s \<Longrightarrow> stays s (Inr (Step t))"
  by (auto simp: stays_def frames_def keeps_def flags_grow_def)

lemma staysI_put:
  "frames s t \<Longrightarrow> (\<And>u. frames s u \<Longrightarrow> stays s (f u)) \<Longrightarrow> stays s (and_then (SetFReg c i v t) f)"
  "frames s t \<Longrightarrow> (\<And>u. frames s u \<Longrightarrow> stays s (f u)) \<Longrightarrow> stays s (and_then (SetXReg c i v t) f)"
  by (erule staysI_frame; auto simp: frames_def flags_grow_same SetFReg_def SetXReg_def sim_ok_def nth_list_update
      simp del: sim_ok_lengths elim!: errE dest!: array_set_InrD split: if_splits)+

lemma staysI_flags:
  "frames s t \<Longrightarrow> (\<And>u. frames s u \<Longrightarrow> stays s (f u)) \<Longrightarrow> stays s (and_then (SoftFloatSetFExcp e t) f)"
  by (erule staysI_frame) (auto simp: frames_def flags_grow_def intro!: sim_ok_fcsr accrue_below)

lemma staysI_mode:
  assumes "frames s t" "\<And>code u. frames s u \<Longrightarrow> stays s (f code u)"
  shows "stays s (and_then (SoftFloatSetRM e rm t) (\<lambda>(code, u). f code u))"
proof -
  have "frames t u" if "SoftFloatSetRM e rm t = Inr (code, u)" for code u
    using that by (auto simp: frames_def flags_grow_same SoftFloatSetRM_def elim!: errE split: RoundingMode.splits)
  then show ?thesis using assms frames_trans by (fastforce simp: stays_def elim!: errE)
qed

lemma frames_clear: "frames s (SoftFloatClearFExcp s)"
  by (simp add: frames_def flags_grow_same SoftFloatClearFExcp_def)

definition op_frames :: "('w machine \<Rightarrow> 'a \<times> 'w machine) \<Rightarrow> bool" where
  "op_frames f \<longleftrightarrow> (\<forall>t. frames t (snd (f t)))"

lemma op_frames_softfloat [simp]: "op_frames (softfloat_call f)"
  by (simp add: op_frames_def softfloat_call_def frames_def flags_grow_same split: prod.splits)

lemma op_frames_map [simp]: "op_frames (\<lambda>s. case softfloat_call f s of (res, s) \<Rightarrow> (g res, s))"
  by (simp add: op_frames_def softfloat_call_def frames_def flags_grow_same split: prod.splits)

lemma staysI_call:
  assumes "op_frames op" "frames s t" "\<And>v u. frames s u \<Longrightarrow> stays s (f v u)"
  shows "stays s (case op t of (v, u) \<Rightarrow> f v u)"
proof (cases "op t")
  case (Pair v u)
  have "frames t u" using assms(1) Pair by (metis op_frames_def snd_conv)
  then have "frames s u" using assms(2) frames_trans by blast
  then show ?thesis using assms(3) Pair by simp
qed

lemmas staysI = frames_clear staysI_last staysI_put staysI_flags staysI_mode staysI_call
  staysI_pure [of _ _ "GetFReg c i t" for c i t] staysI_pure [of _ _ "GetXReg c i t" for c i t]
  staysI_pure [of _ _ "GetRM c r t" for c r t]

lemma templates_stay:
  assumes "sim_ok s"
  shows "(\<And>a b. op_frames (f2 a b)) \<Longrightarrow> stays s (ExecuteRRRFBinOp f2 e insn s)"
    and "(\<And>a b d. op_frames (f3 a b d)) \<Longrightarrow> stays s (ExecuteRRRRFTernOp f3 e insn s)"
    and "(\<And>a b. op_frames (fc a b)) \<Longrightarrow> stays s (ExecuteRRRCmpOp fc e insn s)"
  unfolding ExecuteRRRFBinOp_def ExecuteRRRRFTernOp_def ExecuteRRRCmpOp_def Let_def
  by (intro staysI assms | assumption)+

lemma stays_memory:
  assumes "sim_ok s"
  shows "stays s (CallbackFLW e insn s)" "stays s (CallbackFSW e insn s)"
  using assms
  by (auto simp: ext_f_memory_effect stays_def keeps_def fretire_def StoreU32_def
      Store_with_layout flags_grow_same elim!: errE)

lemma stays_direct:
  assumes "sim_ok s"
  shows "stays s (CallbackFSQRT_S e insn s)" "stays s (CallbackFCVT_W_S e insn s)"
    "stays s (CallbackFCVT_WU_S e insn s)" "stays s (CallbackFCVT_S_W e insn s)"
    "stays s (CallbackFCVT_S_WU e insn s)"
  unfolding CallbackFSQRT_S_def CallbackFCVT_W_S_def CallbackFCVT_WU_S_def CallbackFCVT_S_W_def
    CallbackFCVT_S_WU_def Let_def
  by (intro staysI op_frames_softfloat assms | assumption)+

lemma stays_simple:
  assumes "sim_ok s"
  shows "stays s (CallbackFSGNJ_S e insn s)" "stays s (CallbackFSGNJN_S e insn s)"
    "stays s (CallbackFSGNJX_S e insn s)" "stays s (CallbackFMV_X_W e insn s)"
    "stays s (CallbackFMV_W_X e insn s)" "stays s (CallbackFCLASS_S e insn s)"
    "stays s (CallbackFMIN_S e insn s)" "stays s (CallbackFMAX_S e insn s)"
  using assms
  by (auto simp: stays_def ext_f_sign_effect ext_f_move_effect ext_f_class_effect
      CallbackFMIN_S_def CallbackFMAX_S_def f32_min_def f32_max_def softfloat_call_def
      keeps_def fretire_def retire_def flags_grow_same split: prod.splits)

lemma ext_f_keeps:
  assumes "sim_ok s" "ext_f_callback m e insn s = Inr s'"
  shows "keeps s s' \<and> undisturbed s s'" and "flags_grow s s'"
proof -
  have "stays s (ext_f_callback m e insn s)"
    using assms(1)
    by (cases m) (simp_all add: stays_memory stays_direct stays_simple templates_stay
      CallbackFADD_S_def CallbackFSUB_S_def CallbackFMUL_S_def CallbackFDIV_S_def
      CallbackFMADD_S_def CallbackFMSUB_S_def CallbackFNMSUB_S_def CallbackFNMADD_S_def
      CallbackFLE_S_def CallbackFLT_S_def CallbackFEQ_S_def)
  then show "keeps s s' \<and> undisturbed s s'" "flags_grow s s'" using assms(2) by (simp_all add: stays_def)
qed

section \<open>The loop\<close>

lemma callback_undisturbed:
  assumes "sim_ok s" "GetInsnCallback m = Inr cb" "cb e insn s = Inr s'" "m \<noteq> Ext_I ECALL"
  shows "keeps s s' \<and> undisturbed s s'"
proof (cases m)
  case (Ext_I i)
  then show ?thesis using assms ext_i_keeps [of s i e insn s'] by simp
next
  case (Ext_M i)
  then show ?thesis using assms ext_m_keeps [of s i e insn s'] by simp
next
  case (Ext_Zbb i)
  then show ?thesis using assms ext_zbb_keeps [of s i e insn s'] by simp
next
  case (Ext_Zicsr i)
  then show ?thesis using assms ext_zicsr_keeps [of s i e insn s'] by simp
next
  case (Ext_F i)
  then show ?thesis using assms ext_f_keeps(1) [of s i e insn s'] by simp
qed (use assms in auto)

lemma callback_keeps:
  assumes "sim_ok s" "GetInsnCallback m = Inr cb" "cb e insn s = Inr s'"
  shows "keeps s s'"
  using assms callback_undisturbed [OF assms] ecall_keeps [of s e insn s'] by (cases "m = Ext_I ECALL") auto

lemma Execute_body_keeps:
  assumes "sim_ok s" "Execute_body e s = Inr s'"
  shows "keeps s s'"
  using assms
  by (auto simp: Execute_body_def Let_def elim!: errE split: if_splits intro: callback_keeps)

definition run_inv :: "(nat \<times> MemorySegm) list \<Rightarrow> 'w machine \<Rightarrow> bool" where
  "run_inv l s \<longleftrightarrow> sim_ok s \<and> layout (segms (memory s)) = l \<and> even (ip s)"

interpretation exec_keeps:
  invariant_loop should_stop "Execute_body e" Execute_result "Execute e" "run_inv l"
  for e :: "'w env" and l
  by unfold_locales (auto simp: run_inv_def keeps_def dest: Execute_body_keeps)

interpretation exec_ok:
  invariant_loop should_stop "Execute_body e" Execute_result "Execute e" sim_ok
  for e :: "'w env"
  by unfold_locales (auto simp: keeps_def dest: Execute_body_keeps)

text \<open>A run that ends has the value of \<open>a0\<close> in a state that exited, or the error of a body.\<close>

lemma Execute_ends_iff:
  assumes "sim_ok s"
  shows "Execute e s = Some r \<longleftrightarrow>
    (\<exists>t. loop_steps should_stop (Execute_body e) s t \<and>
      (if should_stop t then r = Inr (xreg t 10, t)
       else \<exists>err. Execute_body e t = Inl err \<and> r = Inl err))"
proof -
  have "loop_ends should_stop (Execute_body e) Execute_result t r \<longleftrightarrow>
      (if should_stop t then r = Inr (xreg t 10, t)
       else \<exists>err. Execute_body e t = Inl err \<and> r = Inl err)"
    if "sim_ok t" for t
    using that by (auto simp: loop_ends_def Execute_result_def xreg_def split: sum.splits)
  then show ?thesis using exec.run_iff [of e s r] exec_ok.steps_keep [OF _ assms] by metis
qed

end
