(* ===== verification/RV_Build.thy ===== *)
theory RV_Build
  imports RV_Invariants
begin

text \<open>
  The two builds. A Release build runs the same code without the assertions, so it does what
  a Debug build does, exceptions and undefined behaviour included, unless that fails an
  assertion: \<open>sub_result\<close> relates such results, and every operation respects it when the
  assertions are removed.
\<close>

section \<open>Results with and without assertions\<close>

definition sub_result :: "error + 'a \<Rightarrow> error + 'a \<Rightarrow> bool" where
  "sub_result m m' \<longleftrightarrow> m' = m \<or> (\<exists>what. m = Inl (AssertFailed what))"

abbreviation release :: "'z config_scheme \<Rightarrow> 'z config_scheme" where
  "release c \<equiv> c\<lparr>ndebug := True\<rparr>"

lemma sub_result_refl: "sub_result m m"
  by (simp add: sub_result_def)

lemma sub_resultD: "sub_result m m' \<Longrightarrow> m = Inr x \<Longrightarrow> m' = Inr x"
  by (simp add: sub_result_def)

lemma sub_result_then:
  "sub_result m m' \<Longrightarrow> (\<And>x. sub_result (f x) (f' x)) \<Longrightarrow> sub_result (and_then m f) (and_then m' f')"
  by (auto simp: sub_result_def and_then_def split: sum.splits)

lemma sub_result_if:
  "(b \<Longrightarrow> sub_result m n) \<Longrightarrow> (\<not> b \<Longrightarrow> sub_result m' n') \<Longrightarrow>
    sub_result (if b then m else m') (if b then n else n')"
  by simp

lemma sub_result_prod:
  "(\<And>x y. sub_result (f x y) (g x y)) \<Longrightarrow> sub_result (case p of (x, y) \<Rightarrow> f x y) (case p of (x, y) \<Rightarrow> g x y)"
  by (cases p) simp

lemma sub_result_cassert: "sub_result (cassert c what b) (cassert (release c) what b)"
  by (simp add: sub_result_def cassert_def)

lemma sub_result_cassert_Inr: "sub_result (and_then (cassert c what b) (\<lambda>_. Inr x)) (Inr x)"
  by (simp add: sub_result_def cassert_def)

section \<open>Memory and registers\<close>

lemma sub_Load_loop: "sub_result (Load_loop c ss a) (Load_loop (release c) ss a)"
  by (induction ss) (auto simp: Let_def intro: sub_result_refl sub_result_then sub_result_cassert_Inr)

lemma sub_Store_loop: "sub_result (Store_loop c ss a v) (Store_loop (release c) ss a v)"
  by (induction ss) (auto simp: Let_def intro: sub_result_refl sub_result_then sub_result_cassert_Inr)

lemma sub_memory:
  "sub_result (LoadU32 c m a) (LoadU32 (release c) m a)"
  "sub_result (LoadU16 c m a) (LoadU16 (release c) m a)"
  "sub_result (LoadU8 c m a) (LoadU8 (release c) m a)"
  "sub_result (StoreU32 c m a v32) (StoreU32 (release c) m a v32)"
  "sub_result (StoreU16 c m a v16) (StoreU16 (release c) m a v16)"
  "sub_result (StoreU8 c m a v8) (StoreU8 (release c) m a v8)"
  "sub_result (Fetch c m a) (Fetch (release c) m a)"
  unfolding access_defs
  by (intro sub_Load_loop sub_Store_loop sub_result_then sub_result_refl)+

lemma sub_copies:
  "sub_result (CopyGuestToHost c m a buf n) (CopyGuestToHost (release c) m a buf n)"
  "sub_result (CopyHostToGuest c m a buf n) (CopyHostToGuest (release c) m a buf n)"
proof -
  have "sub_result (CopyGuestToHost_loop c m a buf i n) (CopyGuestToHost_loop (release c) m a buf i n)" for i
    by (induction n arbitrary: buf i) (auto intro!: sub_result_refl sub_result_then sub_memory)
  moreover have "sub_result (CopyHostToGuest_loop c m a buf i n) (CopyHostToGuest_loop (release c) m a buf i n)" for i
    by (induction n arbitrary: m i) (auto intro!: sub_result_refl sub_result_then sub_memory)
  ultimately show "sub_result (CopyGuestToHost c m a buf n) (CopyGuestToHost (release c) m a buf n)"
    "sub_result (CopyHostToGuest c m a buf n) (CopyHostToGuest (release c) m a buf n)"
    by (simp_all add: CopyGuestToHost_def CopyHostToGuest_def)
qed

lemma sub_registers:
  "sub_result (GetXReg c i s) (GetXReg (release c) i s)"
  "sub_result (SetXReg c i v s) (SetXReg (release c) i v s)"
  "sub_result (GetFReg c i s) (GetFReg (release c) i s)"
  "sub_result (SetFReg c i v s) (SetFReg (release c) i v s)"
  unfolding GetXReg_def SetXReg_def GetFReg_def SetFReg_def
  by (intro sub_result_then sub_result_cassert sub_result_if sub_result_refl)+

lemma sub_csr:
  "sub_result (GetCSR c i s) (GetCSR (release c) i s)"
  "sub_result (SetCSR c i v s) (SetCSR (release c) i v s)"
  by (auto simp: GetCSR_def SetCSR_def intro: sub_result_cassert_Inr sub_result_refl
      split: option.splits CSR.splits)

lemma sub_rm: "sub_result (GetRM c r s) (GetRM (release c) r s)"
  unfolding GetRM_def by (intro sub_result_then sub_result_if sub_csr sub_result_refl)

lemma sub_softfloat:
  "sub_result (SoftFloatSetRM e rm s) (SoftFloatSetRM (release e) rm s)"
  "sub_result (SoftFloatSetFExcp e s) (SoftFloatSetFExcp (release e) s)"
  by (cases rm) (simp_all add: SoftFloatSetRM_def sub_result_def cassert_def)

section \<open>Callbacks\<close>

lemma sub_ext_i:
  assumes "sim_ok s" "m \<noteq> ECALL"
  shows "sub_result (ext_i_callback m e insn s) (ext_i_callback m (release e) insn s)"
  using assms
  by (cases m) (simp_all add: ext_i_effects CallbackFENCE_def CallbackFENCE_I_def CallbackEBREAK_def
      sub_result_refl sub_result_then sub_memory)

lemma sub_ext_m:
  "sim_ok s \<Longrightarrow> sub_result (ext_m_callback m e insn s) (ext_m_callback m (release e) insn s)"
  by (cases m) (simp_all add: ext_m_effects sub_result_refl del: isa_m.simps)

lemma sub_ext_zbb:
  "sim_ok s \<Longrightarrow> sub_result (ext_zbb_callback m e insn s) (ext_zbb_callback m (release e) insn s)"
  by (cases m) (simp_all add: ext_zbb_effects sub_result_refl del: isa_zbb.simps)

lemma sub_ext_zicsr:
  "sim_ok s \<Longrightarrow> sub_result (ext_zicsr_callback m e insn s) (ext_zicsr_callback m (release e) insn s)"
  by (cases "CSR_ToEnum (unat (ImmCSR insn))"; cases m)
    (simp_all add: ext_zicsr_effects sub_result_def del: isa_csr.simps)

lemma sub_syscalls:
  fixes e :: "'w env"
  shows "sub_result (sys_read e s) (sys_read (release e) s)"
    and "sub_result (sys_write e s) (sys_write (release e) s)"
proof -
  have h: "host_read (release e) = host_read e" "host_write (release e) = host_write e" by simp_all
  show "sub_result (sys_read e s) (sys_read (release e) s)"
    and "sub_result (sys_write e s) (sys_write (release e) s)"
    unfolding sys_read_def sys_write_def Let_def h
    by (intro sub_result_then sub_result_prod sub_result_if sub_copies sub_registers sub_result_refl)+
qed

lemma sub_ecall: "sub_result (CallbackECALL e insn s) (CallbackECALL (release e) insn s)"
  unfolding CallbackECALL_def SyscallHandler_def
  by (intro sub_result_then sub_result_if sub_registers sub_syscalls sub_result_cassert sub_result_refl)

lemmas sub_intros = sub_result_then sub_result_prod sub_registers sub_rm sub_softfloat sub_memory
  sub_result_refl

lemma sub_templates:
  "sub_result (ExecuteRRRFBinOp f2 e insn s) (ExecuteRRRFBinOp f2 (release e) insn s)"
  "sub_result (ExecuteRRRRFTernOp f3 e insn s) (ExecuteRRRRFTernOp f3 (release e) insn s)"
  "sub_result (ExecuteRRRCmpOp fc e insn s) (ExecuteRRRCmpOp fc (release e) insn s)"
  unfolding ExecuteRRRFBinOp_def ExecuteRRRRFTernOp_def ExecuteRRRCmpOp_def Let_def
  by (intro sub_intros)+

lemma softfloat_release [simp]:
  fixes e :: "'w env"
  shows "f32_add (release e) = f32_add e" "f32_sub (release e) = f32_sub e"
    "f32_mul (release e) = f32_mul e" "f32_div (release e) = f32_div e"
    "f32_sqrt (release e) = f32_sqrt e" "f32_mulAdd (release e) = f32_mulAdd e"
    "f32_le (release e) = f32_le e" "f32_lt (release e) = f32_lt e" "f32_eq (release e) = f32_eq e"
    "f32_to_i32 (release e) = f32_to_i32 e" "f32_to_ui32 (release e) = f32_to_ui32 e"
    "i32_to_f32 (release e) = i32_to_f32 e" "ui32_to_f32 (release e) = ui32_to_f32 e"
    "f32_isSignalingNaN (release e) = f32_isSignalingNaN e"
    "f32_min (release e) = f32_min e" "f32_max (release e) = f32_max e"
  by (simp_all add: f32_min_def f32_max_def fun_eq_iff)

lemmas ext_f_defs = CallbackFLW_def CallbackFSW_def CallbackFADD_S_def CallbackFSUB_S_def
  CallbackFMUL_S_def CallbackFDIV_S_def CallbackFSQRT_S_def CallbackFMADD_S_def
  CallbackFMSUB_S_def CallbackFNMSUB_S_def CallbackFNMADD_S_def CallbackFSGNJ_S_def
  CallbackFSGNJN_S_def CallbackFSGNJX_S_def CallbackFMIN_S_def CallbackFMAX_S_def
  CallbackFLE_S_def CallbackFLT_S_def CallbackFEQ_S_def CallbackFCVT_W_S_def
  CallbackFCVT_WU_S_def CallbackFCVT_S_W_def CallbackFCVT_S_WU_def CallbackFMV_X_W_def
  CallbackFMV_W_X_def CallbackFCLASS_S_def

lemma sub_ext_f: "sub_result (ext_f_callback m e insn s) (ext_f_callback m (release e) insn s)"
  by (cases m; simp only: ext_f_callback.simps ext_f_defs Let_def softfloat_release;
      intro sub_intros sub_templates)

section \<open>Runs\<close>

lemma sub_callback:
  assumes "sim_ok s" "GetInsnCallback m = Inr cb"
  shows "sub_result (cb e insn s) (cb (release e) insn s)"
proof (cases m)
  case (Ext_I i)
  then show ?thesis using assms sub_ext_i [OF assms(1)] sub_ecall by (cases "i = ECALL") auto
qed (use assms sub_ext_m sub_ext_zbb sub_ext_zicsr sub_ext_f in auto)

lemma sub_Execute_body:
  assumes "sim_ok s"
  shows "sub_result (Execute_body e s) (Execute_body (release e) s)"
proof -
  have cb: "sub_result (and_then (GetInsnCallback m) (\<lambda>cb. cb e w s))
      (and_then (GetInsnCallback m) (\<lambda>cb. cb (release e) w s))" for m w
    by (cases "GetInsnCallback m :: error + 'a callback_env") (simp_all add: sub_callback [OF assms] sub_result_refl)
  show ?thesis
    unfolding Execute_body_def Let_def
    by (rule sub_result_then [OF sub_memory(7)], rule sub_result_if, rule sub_result_refl, rule cb)
qed

interpretation builds:
  loop_refinement should_stop "Execute_body e" Execute_result "Execute e" sim_ok
    "Execute_body (release e)" "Execute (release e)" "\<lambda>err. \<exists>what. err = AssertFailed what"
  for e :: "'w env"
  by unfold_locales (use sub_Execute_body in \<open>auto simp: sub_result_def\<close>)

end
