(* ===== verification/RV_Program_Args.thy ===== *)
theory RV_Program_Args
  imports RV_Defs
begin

text \<open>
  The arguments of the guest program: \<open>ProgramArgs\<close> of \<open>sim/program_args.hpp\<close>. A
  \<open>std::string\<close> made from a C string is its bytes, none of them 0; \<open>data()\<close> is followed by
  the terminator. \<open>SizeOfArgv\<close> adds in \<open>uint32_t\<close>. The lemmas show that the copy fills a
  buffer of that size exactly and that every offset of the returned table points at its
  terminated string.
\<close>

section \<open>The code\<close>

record ProgramArgs =
  args_count :: int
  args_strings :: "u8 list list"

fun collect_argv :: "u8 list list \<Rightarrow> nat \<Rightarrow> nat \<Rightarrow> error + u8 list list" where
  "collect_argv argv i 0 = Inr []"
| "collect_argv argv i (Suc n) =
     and_then (array_get argv (i + 1)) (\<lambda>str.
     and_then (collect_argv argv (Suc i) n) (\<lambda>rest.
     Inr (str # rest)))"

definition make_ProgramArgs :: "int \<Rightarrow> u8 list list \<Rightarrow> error + ProgramArgs" where
  "make_ProgramArgs argc argv =
     and_then (collect_argv argv 0 (nat (argc - 1))) (\<lambda>strings.
     Inr \<lparr>args_count = argc - 1, args_strings = strings\<rparr>)"

definition Argc :: "ProgramArgs \<Rightarrow> int" where
  "Argc a = args_count a"

fun SizeOfArgv_loop :: "u32 \<Rightarrow> u8 list list \<Rightarrow> u32" where
  "SizeOfArgv_loop sz [] = sz"
| "SizeOfArgv_loop sz (str # rest) = SizeOfArgv_loop (sz + of_nat (length str + 1)) rest"

definition SizeOfArgv :: "ProgramArgs \<Rightarrow> u32" where
  "SizeOfArgv a = SizeOfArgv_loop 0 (args_strings a)"

text \<open>The buffer is passed as a list and returned with the table of offsets.\<close>

fun CopyArgv_loop :: "u8 list list \<Rightarrow> u8 list \<Rightarrow> nat \<Rightarrow> error + u32 list \<times> u8 list" where
  "CopyArgv_loop [] copy_to copy_offset = Inr ([], copy_to)"
| "CopyArgv_loop (str # rest) copy_to copy_offset =
     and_then (memcpy_to copy_to copy_offset (str @ [0])) (\<lambda>copy_to'.
     and_then (CopyArgv_loop rest copy_to' (copy_offset + (length str + 1))) (\<lambda>(table, buf).
     Inr (of_nat copy_offset # table, buf)))"

definition CopyArgv :: "ProgramArgs \<Rightarrow> u8 list \<Rightarrow> error + u32 list \<times> u8 list" where
  "CopyArgv a copy_to = CopyArgv_loop (args_strings a) copy_to 0"

section \<open>The size and the copy\<close>

text \<open>The bytes the copy writes, and where each string starts among them.\<close>

definition argv_bytes :: "u8 list list \<Rightarrow> u8 list" where
  "argv_bytes strs = concat (map (\<lambda>str. str @ [0]) strs)"

fun argv_offsets :: "nat \<Rightarrow> u8 list list \<Rightarrow> nat list" where
  "argv_offsets k [] = []"
| "argv_offsets k (str # rest) = k # argv_offsets (k + (length str + 1)) rest"

lemma argv_bytes_simps [simp]:
  "argv_bytes [] = []" "argv_bytes (str # rest) = str @ 0 # argv_bytes rest"
  by (simp_all add: argv_bytes_def)

lemma length_argv_offsets [simp]: "length (argv_offsets k strs) = length strs"
  by (induction strs arbitrary: k) auto

lemma SizeOfArgv_loop_sum: "SizeOfArgv_loop sz strs = sz + of_nat (length (argv_bytes strs))"
  by (induction strs arbitrary: sz) (simp_all add: algebra_simps)

lemma SizeOfArgv_bytes: "SizeOfArgv a = of_nat (length (argv_bytes (args_strings a)))"
  by (simp add: SizeOfArgv_def SizeOfArgv_loop_sum)

lemma collect_argv_drop:
  "Suc i + n = length argv \<Longrightarrow> collect_argv argv i n = Inr (drop (Suc i) argv)"
proof (induction n arbitrary: i)
  case 0
  then show ?case by simp
next
  case (Suc n)
  then have "drop (Suc i) argv = argv ! Suc i # drop (Suc (Suc i)) argv"
    by (simp add: Cons_nth_drop_Suc)
  then show ?case using Suc by simp
qed

lemma make_ProgramArgs_tl:
  assumes "argc = int (length argv)" "argv \<noteq> []"
  shows "make_ProgramArgs argc argv = Inr \<lparr>args_count = int (length (tl argv)), args_strings = tl argv\<rparr>"
  using assms collect_argv_drop [of 0 "length argv - 1" argv]
  by (cases argv) (simp_all add: make_ProgramArgs_def drop_Suc nat_diff_distrib)

lemma CopyArgv_loop_fits:
  "k + length (argv_bytes strs) \<le> length buf \<Longrightarrow>
    CopyArgv_loop strs buf k =
      Inr (map of_nat (argv_offsets k strs),
           take k buf @ argv_bytes strs @ drop (k + length (argv_bytes strs)) buf)"
proof (induction strs arbitrary: buf k)
  case Nil
  then show ?case by simp
next
  case (Cons str strs)
  let ?buf = "take k buf @ (str @ [0]) @ drop (k + length (str @ [0])) buf"
  have m: "memcpy_to buf k (str @ [0]) = Inr ?buf"
    using Cons.prems by (simp add: memcpy_to_def)
  have "CopyArgv_loop strs ?buf (k + (length str + 1)) =
      Inr (map of_nat (argv_offsets (k + (length str + 1)) strs),
        take (k + (length str + 1)) ?buf @ argv_bytes strs @
          drop (k + (length str + 1) + length (argv_bytes strs)) ?buf)"
    using Cons.prems by (intro Cons.IH) simp
  moreover have "take (k + (length str + 1)) ?buf = take k buf @ str @ [0]"
    using Cons.prems by simp
  moreover have "drop (k + (length str + 1) + length (argv_bytes strs)) ?buf =
      drop (k + (length str + 1) + length (argv_bytes strs)) buf"
    using Cons.prems by (simp add: ac_simps)
  ultimately show ?case using m by (simp add: add.assoc)
qed

lemma CopyArgv_exact:
  assumes "length buf = length (argv_bytes (args_strings a))"
  shows "CopyArgv a buf =
    Inr (map of_nat (argv_offsets 0 (args_strings a)), argv_bytes (args_strings a))"
  using CopyArgv_loop_fits [of 0 "args_strings a" buf] assms by (simp add: CopyArgv_def)

text \<open>Every offset points at its string and the terminator behind it.\<close>

lemma argv_offsets_string:
  "i < length strs \<Longrightarrow>
    argv_offsets k strs ! i \<ge> k \<and>
    argv_offsets k strs ! i - k + length (strs ! i) < length (argv_bytes strs) \<and>
    take (length (strs ! i) + 1) (drop (argv_offsets k strs ! i - k) (argv_bytes strs)) = strs ! i @ [0]"
proof (induction strs arbitrary: i k)
  case Nil
  then show ?case by simp
next
  case (Cons str strs)
  show ?case
  proof (cases i)
    case 0
    then show ?thesis by simp
  next
    case (Suc j)
    let ?o = "argv_offsets (k + (length str + 1)) strs ! j"
    have ih: "?o \<ge> k + (length str + 1)" "?o - (k + (length str + 1)) + length (strs ! j) < length (argv_bytes strs)"
      "take (length (strs ! j) + 1) (drop (?o - (k + (length str + 1))) (argv_bytes strs)) = strs ! j @ [0]"
      using Cons.IH [of j "k + (length str + 1)"] Cons.prems Suc by auto
    obtain r where r: "?o = k + (length str + 1) + r" using ih(1) by (metis le_Suc_ex)
    have "drop (length str + 1 + r) (str @ 0 # argv_bytes strs) = drop r (argv_bytes strs)"
      by (simp add: add.commute)
    then show ?thesis using ih Suc r by (simp add: add.assoc)
  qed
qed

end
