(* ===== verification/RV_Elf_Loader.thy ===== *)
theory RV_Elf_Loader
  imports RV_Memory
begin

text \<open>
  \<open>LoadElf\<close> of \<open>sim/elf_loader.cpp\<close>. ELFIO is not part of the repository: what its accessors
  return for a file that loads is an \<open>elf_image\<close>, its constants and its \<open>load\<close> are the
  fields of \<open>elfio\<close>. The lemmas give the memory image of every loadable segment and the
  cases in which loading fails.
\<close>

section \<open>What ELFIO provides\<close>

record elf_segment =
  segment_type :: u32
  virtual_address :: u64
  memory_size :: u64
  file_size :: u64
  segment_data :: "u8 list"
  segment_flags :: u32

text \<open>Of a section: its type, and what a symbol lookup in it returns.\<close>

record elf_section =
  section_type :: u32
  get_symbol :: "string \<Rightarrow> u64 option"

record elf_image =
  machine_id :: u16
  elf_class :: u8
  segments :: "elf_segment list"
  sections :: "elf_section list"
  entry :: u64

record 'path elfio =
  load :: "'path \<Rightarrow> elf_image option"
  PT_LOAD :: u32
  SHT_SYMTAB :: u32
  PF_R :: u32
  PF_W :: u32
  PF_X :: u32
  EM_RISCV :: u16
  ELFCLASS32 :: u8

section \<open>The loader\<close>

record ParsedElf =
  mem :: "MemorySegm list"
  entry_point :: u32
  global_ptr :: u32

definition IsTargetCorrect :: "'p elfio \<Rightarrow> elf_image \<Rightarrow> bool" where
  "IsTargetCorrect api elf =
     (if machine_id elf \<noteq> EM_RISCV api then False
      else if elf_class elf \<noteq> ELFCLASS32 api then False
      else True)"

text \<open>
  One iteration of the segment loop: the sizes and the address are truncated to 32 bits. The
  copy reads \<open>file_size\<close> bytes and writes them to a vector of \<open>mem_size\<close> bytes; the fill
  writes the rest.
\<close>

definition load_segment :: "'p elfio \<Rightarrow> elf_segment \<Rightarrow> error + MemorySegm" where
  "load_segment api segm =
     (let start = (ucast (virtual_address segm) :: u32);
          mem_size = (ucast (memory_size segm) :: u32);
          file_sz = (ucast (file_size segm) :: u32);
          perms = segment_flags segm;
          buf = replicate (unat mem_size) 0 in
      and_then (memcpy_from (segment_data segm) 0 (unat file_sz)) (\<lambda>bytes.
      and_then (memcpy_to buf 0 bytes) (\<lambda>buf.
      and_then (memcpy_to buf (unat file_sz) (replicate (unat mem_size - unat file_sz) 0)) (\<lambda>buf.
      Inr \<lparr>start_addr = start, end_addr = start + mem_size, data = buf,
           r_permission = ((perms AND PF_R api) = PF_R api),
           w_permission = ((perms AND PF_W api) = PF_W api),
           x_permission = ((perms AND PF_X api) = PF_X api)\<rparr>))))"

fun load_segments :: "'p elfio \<Rightarrow> elf_segment list \<Rightarrow> error + MemorySegm list" where
  "load_segments api [] = Inr []"
| "load_segments api (segm # rest) =
     (if segment_type segm \<noteq> PT_LOAD api then load_segments api rest
      else and_then (load_segment api segm) (\<lambda>mem_segm.
           and_then (load_segments api rest) (\<lambda>mem_segms.
           Inr (mem_segm # mem_segms))))"

fun find_global_pointer :: "'p elfio \<Rightarrow> elf_section list \<Rightarrow> u32 \<Rightarrow> u32" where
  "find_global_pointer api [] gp = gp"
| "find_global_pointer api (sect # rest) gp =
     (if section_type sect \<noteq> SHT_SYMTAB api then find_global_pointer api rest gp
      else case get_symbol sect ''__global_pointer$'' of
        None \<Rightarrow> find_global_pointer api rest gp
      | Some sym_addr \<Rightarrow> find_global_pointer api rest (ucast sym_addr))"

definition LoadElf :: "'p elfio \<Rightarrow> 'p \<Rightarrow> error + ParsedElf" where
  "LoadElf api elf_path =
     (case load api elf_path of
        None \<Rightarrow> Inl (TraceableException ''Unable to load elf file'')
      | Some elf \<Rightarrow>
          if \<not> IsTargetCorrect api elf then Inl (TraceableException ''Unsupported target'')
          else and_then (load_segments api (segments elf)) (\<lambda>memory_segms.
               Inr \<lparr>mem = memory_segms, entry_point = ucast (entry elf),
                    global_ptr = find_global_pointer api (sections elf) 0\<rparr>))"

section \<open>The memory image\<close>

text \<open>
  A segment as the ELF format requires it: its file size is the size of its data and no larger
  than its memory size, and it lies in the 32-bit address space, below its last byte.
\<close>

definition segment_wf :: "elf_segment \<Rightarrow> bool" where
  "segment_wf segm \<longleftrightarrow> unat (file_size segm) = length (segment_data segm) \<and>
     file_size segm \<le> memory_size segm \<and>
     unat (virtual_address segm) + unat (memory_size segm) < 2 ^ 32"

definition segment_image :: "elf_segment \<Rightarrow> u8 list" where
  "segment_image segm =
     segment_data segm @ replicate (unat (memory_size segm) - length (segment_data segm)) 0"

lemma unat_ucast_small: "unat (x :: u64) < 2 ^ 32 \<Longrightarrow> unat (ucast x :: u32) = unat x"
  by (simp add: unsigned_ucast_eq take_bit_nat_eq_self)

lemma segment_wf_sizes:
  assumes "segment_wf segm"
  shows "unat (ucast (virtual_address segm) :: u32) = unat (virtual_address segm)"
    and "unat (ucast (memory_size segm) :: u32) = unat (memory_size segm)"
    and "unat (ucast (file_size segm) :: u32) = length (segment_data segm)"
    and "length (segment_data segm) \<le> unat (memory_size segm)"
  using assms by (auto simp: segment_wf_def word_le_nat_alt unat_ucast_small)

lemma load_segment_wf:
  assumes "segment_wf segm"
  obtains m where "load_segment api segm = Inr m"
    "data m = segment_image segm" "unat (start_addr m) = unat (virtual_address segm)"
    "unat (end_addr m) = unat (virtual_address segm) + unat (memory_size segm)" "segm_ok m"
proof -
  note sz = segment_wf_sizes [OF assms]
  let ?start = "ucast (virtual_address segm) :: u32" and ?size = "ucast (memory_size segm) :: u32"
  let ?m = "\<lparr>start_addr = ?start, end_addr = ?start + ?size, data = segment_image segm,
     r_permission = ((segment_flags segm AND PF_R api) = PF_R api),
     w_permission = ((segment_flags segm AND PF_W api) = PF_W api),
     x_permission = ((segment_flags segm AND PF_X api) = PF_X api)\<rparr>"
  have e: "unat (?start + ?size) = unat (virtual_address segm) + unat (memory_size segm)"
    using assms sz(1,2) by (simp add: segment_wf_def unat_word_ariths)
  have "load_segment api segm = Inr ?m"
    using sz by (simp add: load_segment_def memcpy_from_def memcpy_to_def segment_image_def Let_def)
  moreover have "segm_ok ?m"
    using sz e by (simp add: segm_ok_def segment_image_def)
  ultimately show ?thesis using that [of ?m] sz(1) e by simp
qed

definition loadable :: "'p elfio \<Rightarrow> elf_image \<Rightarrow> elf_segment list" where
  "loadable api elf = filter (\<lambda>s. segment_type s = PT_LOAD api) (segments elf)"

lemma load_segments_wf:
  assumes "\<forall>segm\<in>set ss. segment_type segm = PT_LOAD api \<longrightarrow> segment_wf segm"
  shows "\<exists>ms. load_segments api ss = Inr ms \<and>
    list_all2 (\<lambda>segm m. data m = segment_image segm \<and>
        unat (start_addr m) = unat (virtual_address segm) \<and>
        unat (end_addr m) = unat (virtual_address segm) + unat (memory_size segm) \<and> segm_ok m)
      (filter (\<lambda>s. segment_type s = PT_LOAD api) ss) ms"
  using assms
proof (induction ss)
  case Nil
  then show ?case by simp
next
  case (Cons s ss)
  then obtain ms where ms: "load_segments api ss = Inr ms"
    "list_all2 (\<lambda>segm m. data m = segment_image segm \<and>
        unat (start_addr m) = unat (virtual_address segm) \<and>
        unat (end_addr m) = unat (virtual_address segm) + unat (memory_size segm) \<and> segm_ok m)
      (filter (\<lambda>s. segment_type s = PT_LOAD api) ss) ms" by auto
  show ?case
  proof (cases "segment_type s = PT_LOAD api")
    case True
    then have "segment_wf s" using Cons.prems by simp
    then obtain m where "load_segment api s = Inr m"
      "data m = segment_image s" "unat (start_addr m) = unat (virtual_address s)"
      "unat (end_addr m) = unat (virtual_address s) + unat (memory_size s)" "segm_ok m"
      by (rule load_segment_wf)
    then show ?thesis using ms True by simp
  next
    case False
    then show ?thesis using ms by simp
  qed
qed

text \<open>
  Any segment, well-formed or not: the copy is defined when the truncated file size is covered by
  the file's data and by the truncated memory size.
\<close>

definition segment_copies :: "elf_segment \<Rightarrow> bool" where
  "segment_copies segm \<longleftrightarrow>
     unat (ucast (file_size segm) :: u32) \<le> length (segment_data segm) \<and>
     (ucast (file_size segm) :: u32) \<le> ucast (memory_size segm)"

lemma segment_wf_copies: "segment_wf segm \<Longrightarrow> segment_copies segm"
  using segment_wf_sizes [of segm] by (simp add: segment_copies_def word_le_nat_alt)

definition loaded_segment :: "'p elfio \<Rightarrow> elf_segment \<Rightarrow> MemorySegm" where
  "loaded_segment api segm =
     (let size = ucast (memory_size segm) :: u32; bytes = take (unat (ucast (file_size segm) :: u32)) (segment_data segm) in
      \<lparr>start_addr = ucast (virtual_address segm), end_addr = ucast (virtual_address segm) + size,
        data = bytes @ replicate (unat size - length bytes) 0,
        r_permission = ((segment_flags segm AND PF_R api) = PF_R api),
        w_permission = ((segment_flags segm AND PF_W api) = PF_W api),
        x_permission = ((segment_flags segm AND PF_X api) = PF_X api)\<rparr>)"

lemma load_segment_cases:
  "load_segment api segm = (if segment_copies segm then Inr (loaded_segment api segm) else ub OutOfBounds)"
  by (auto simp: load_segment_def segment_copies_def loaded_segment_def memcpy_from_def memcpy_to_def ub_def
      word_le_nat_alt Let_def)

lemma load_segments_cases:
  "load_segments api ss =
     (let loads = filter (\<lambda>s. segment_type s = PT_LOAD api) ss in
      if list_all segment_copies loads then Inr (map (loaded_segment api) loads) else ub OutOfBounds)"
  by (induction ss) (auto simp: load_segment_cases ub_def Let_def)

text \<open>The last symbol table that defines the symbol wins.\<close>

lemma find_global_pointer_append:
  "find_global_pointer api (xs @ ys) gp = find_global_pointer api ys (find_global_pointer api xs gp)"
  by (induction xs arbitrary: gp) (auto split: option.splits)

section \<open>Properties\<close>

text \<open>
  C25: Loading throws exactly for a file ELFIO cannot read and for a target that is not 32-bit
  RISC-V. Otherwise it runs into undefined behaviour if a loadable segment has a file size that
  exceeds its data or its memory size, all truncated to 32 bits, and succeeds if none has: it
  returns one memory segment per loadable one, in order, at its virtual address, holding the
  file's bytes followed by zeros up to its memory size, with the permissions of its flags,
  together with the entry point. For well-formed segments nothing is truncated.
\<close>

theorem LoadElf_image:
  "case load api path of
     None \<Rightarrow> LoadElf api path = Inl (TraceableException ''Unable to load elf file'')
   | Some elf \<Rightarrow>
       if machine_id elf \<noteq> EM_RISCV api \<or> elf_class elf \<noteq> ELFCLASS32 api
       then LoadElf api path = Inl (TraceableException ''Unsupported target'')
       else if \<not> list_all segment_copies (loadable api elf) then LoadElf api path = ub OutOfBounds
       else \<exists>p. LoadElf api path = Inr p \<and> entry_point p = ucast (entry elf) \<and>
         mem p = map (loaded_segment api) (loadable api elf) \<and>
         (list_all segment_wf (loadable api elf) \<longrightarrow>
           list_all2 (\<lambda>segm m. data m = segment_image segm \<and>
               unat (start_addr m) = unat (virtual_address segm) \<and>
               unat (end_addr m) = unat (virtual_address segm) + unat (memory_size segm) \<and> segm_ok m)
             (loadable api elf) (mem p))"
proof (cases "load api path")
  case None
  then show ?thesis by (simp add: LoadElf_def)
next
  case (Some elf)
  show ?thesis
  proof (cases "(machine_id elf \<noteq> EM_RISCV api \<or> elf_class elf \<noteq> ELFCLASS32 api) \<or>
      \<not> list_all segment_copies (loadable api elf)")
    case True
    then show ?thesis
      using Some by (auto simp: LoadElf_def IsTargetCorrect_def load_segments_cases loadable_def ub_def Let_def)
  next
    case False
    have "load_segments api (segments elf) = Inr (map (loaded_segment api) (loadable api elf))"
      using False by (simp add: load_segments_cases loadable_def Let_def)
    then show ?thesis
      using Some False load_segments_wf [of "segments elf" api]
      by (auto simp: LoadElf_def IsTargetCorrect_def loadable_def list_all_iff)
  qed
qed

definition sample_elf :: elf_image where
  "sample_elf =
     \<lparr>machine_id = 243, elf_class = 1,
      segments =
        [\<lparr>segment_type = 4, virtual_address = 0, memory_size = 0, file_size = 0, segment_data = [], segment_flags = 0\<rparr>,
         \<lparr>segment_type = 1, virtual_address = 0x1000, memory_size = 10, file_size = 8,
           segment_data = [0x93, 0x08, 0xd0, 0x05, 0x73, 0, 0, 0], segment_flags = 5\<rparr>],
      sections = [\<lparr>section_type = 2, get_symbol = (\<lambda>name. Some 0x1800)\<rparr>], entry = 0x1000\<rparr>"

definition sample_elfio :: "u8 list elfio" where
  "sample_elfio =
     \<lparr>load = (\<lambda>path. Some sample_elf), PT_LOAD = 1, SHT_SYMTAB = 2, PF_R = 4, PF_W = 2, PF_X = 1,
      EM_RISCV = 243, ELFCLASS32 = 1\<rparr>"

lemma LoadElf_image_witness:
  "\<exists>p. LoadElf sample_elfio [97] = Inr p \<and> entry_point p = 0x1000 \<and>
     map data (mem p) = [[0x93, 0x08, 0xd0, 0x05, 0x73, 0, 0, 0, 0, 0]]"
proof -
  have l: "load sample_elfio [97] = Some sample_elf" "machine_id sample_elf = EM_RISCV sample_elfio"
    "elf_class sample_elf = ELFCLASS32 sample_elfio" "entry sample_elf = 0x1000"
    by (simp_all add: sample_elfio_def sample_elf_def)
  have two: "replicate 2 0 = [0, 0 :: u8]" by (simp add: numeral_2_eq_2)
  have w: "list_all segment_wf (loadable sample_elfio sample_elf)"
    "map segment_image (loadable sample_elfio sample_elf) = [[0x93, 0x08, 0xd0, 0x05, 0x73, 0, 0, 0, 0, 0]]"
    by (simp_all add: loadable_def sample_elf_def sample_elfio_def segment_wf_def segment_image_def two)
  then have c: "list_all segment_copies (loadable sample_elfio sample_elf)"
    using segment_wf_copies by (auto simp: list_all_iff)
  have map: "map data ms = map segment_image ss"
    if "list_all2 (\<lambda>segm m. data m = segment_image segm \<and> P segm m \<and> Q segm m \<and> R m) ss ms" for ss ms P Q R
    using that by (induction rule: list_all2_induct) simp_all
  obtain p where "LoadElf sample_elfio [97] = Inr p" "entry_point p = ucast (entry sample_elf)"
    "list_all2 (\<lambda>segm m. data m = segment_image segm \<and>
        unat (start_addr m) = unat (virtual_address segm) \<and>
        unat (end_addr m) = unat (virtual_address segm) + unat (memory_size segm) \<and> segm_ok m)
      (loadable sample_elfio sample_elf) (mem p)"
    using LoadElf_image [of sample_elfio "[97]"] w(1) c by (auto simp: l(1-3))
  then show ?thesis using map [OF \<open>list_all2 _ _ (mem p)\<close>] w(2) l(4) by simp
qed

end
