(* ===== verification/RV_Startup.thy ===== *)
theory RV_Startup
  imports RV_Build RV_Program_Args RV_Elf_Loader
begin

text \<open>
  Start-up: the constructor of \<open>RVSim\<close> (\<open>sim/rv_sim.hpp\<close>), which lays out the guest's
  stack and its argument strings, and \<open>main\<close> (\<open>main.cpp\<close>). The lemmas give the initial
  state and what the guest finds in memory from its stack pointer on.
\<close>

section \<open>The constructor\<close>

text \<open>
  \<open>fill_addr\<close> is a pointer into the data of the stack segment: its offset there, which is
  negative when the arguments do not fit.
\<close>

definition memcpy_at :: "u8 list \<Rightarrow> int \<Rightarrow> u8 list \<Rightarrow> error + u8 list" where
  "memcpy_at buf off bs = (if off < 0 then ub OutOfBounds else memcpy_to buf (nat off) bs)"

fun fill_argv :: "u32 list \<Rightarrow> nat \<Rightarrow> nat \<Rightarrow> int \<Rightarrow> u8 list \<Rightarrow> error + int \<times> u8 list" where
  "fill_argv offset_table i 0 fill_addr stack = Inr (fill_addr, stack)"
| "fill_argv offset_table i (Suc n) fill_addr stack =
     and_then (array_get offset_table i) (\<lambda>off.
     let offset = kArgvBase + off in
     and_then (memcpy_at stack fill_addr (le_bytes 4 offset)) (\<lambda>stack.
     fill_argv offset_table (Suc i) n (fill_addr + 4) stack))"

definition RVSim :: "ParsedElf \<Rightarrow> ProgramArgs \<Rightarrow> error + rvsim" where
  "RVSim parsed_elf prog_args =
     (let stack_data = replicate kStackSize 0;
          argv_size = SizeOfArgv prog_args;
          argv_data = replicate (unat argv_size) 0;
          argc = Argc prog_args in
      and_then (CopyArgv prog_args argv_data) (\<lambda>(offset_table, argv_data).
      let argv_fill_start = kStackTop - word_of_int (4 * (argc + 2));
          fill_addr = int (unat argv_fill_start) - int (unat kStackBase) in
      and_then (memcpy_at stack_data fill_addr (le_bytes 4 (word_of_int argc :: u32))) (\<lambda>stack_data.
      let fill_addr = fill_addr + 4 in
      and_then (fill_argv offset_table 0 (nat argc) fill_addr stack_data) (\<lambda>(fill_addr, stack_data).
      and_then (memcpy_at stack_data fill_addr (le_bytes 4 (0 :: u32))) (\<lambda>stack_data.
      let stack_segm = \<lparr>start_addr = kStackBase, end_addr = kStackTop, data = stack_data,
            r_permission = True, w_permission = True, x_permission = False\<rparr>;
          argv_segm = \<lparr>start_addr = kArgvBase, end_addr = kArgvBase + argv_size + 4, data = argv_data,
            r_permission = True, w_permission = False, x_permission = False\<rparr>;
          mem' = AddSegment (AddSegment \<lparr>segms = mem parsed_elf\<rparr> stack_segm) argv_segm;
          xs = replicate kNumXRegisters 0 in
      and_then (array_set xs (XReg_FromEnum X_gp) (global_ptr parsed_elf)) (\<lambda>xs.
      and_then (array_set xs (XReg_FromEnum X_sp) argv_fill_start) (\<lambda>xs.
      Inr \<lparr>memory = mem', ip = entry_point parsed_elf, should_stop = False,
           xregs = xs, fregs = replicate kNumFRegisters 0, fcsr = 0\<rparr>)))))))"

section \<open>main\<close>

text \<open>
  The exit status of \<open>main\<close>: \<open>EXIT_FAILURE\<close> when no file is given or the loader throws,
  otherwise what the simulation returns. Only the loader runs inside the \<open>try\<close>. The usage
  message prints \<open>argv[0]\<close>, which is a null pointer when \<open>argc\<close> is 0. \<open>host\<close> and
  the values of SoftFloat's globals at start are the environment's; \<open>None\<close> is a run that does
  not end.
\<close>

definition EXIT_FAILURE :: u32 where "EXIT_FAILURE = 1"

definition start :: "rvsim \<Rightarrow> u8 \<Rightarrow> u8 \<Rightarrow> 'w \<Rightarrow> 'w machine" where
  "start sim rounding flags w = rvsim.extend sim (machine.fields rounding flags w)"

definition main ::
  "'w env \<Rightarrow> u8 list elfio \<Rightarrow> u8 \<Rightarrow> u8 \<Rightarrow> 'w \<Rightarrow> int \<Rightarrow> u8 list list \<Rightarrow> (error + u32) option" where
  "main e api rounding flags w argc argv =
     (if argc < 2 then Some (if argv = [] then ub NullPointer else Inr EXIT_FAILURE)
      else
        case and_then (make_ProgramArgs argc argv) (\<lambda>prog_args.
             and_then (array_get argv 1) (\<lambda>path. Inr (prog_args, path))) of
          Inl err \<Rightarrow> Some (Inl err)
        | Inr (prog_args, path) \<Rightarrow>
            (case LoadElf api path of
               Inl (TraceableException what) \<Rightarrow> Some (Inr EXIT_FAILURE)
             | Inl err \<Rightarrow> Some (Inl err)
             | Inr parsed_elf \<Rightarrow>
                 (case RVSim parsed_elf prog_args of
                    Inl err \<Rightarrow> Some (Inl err)
                  | Inr sim \<Rightarrow>
                      map_option (\<lambda>r. and_then r (\<lambda>(status, _). Inr status))
                        (Execute e (start sim rounding flags w)))))"

section \<open>The stack the guest starts with\<close>

text \<open>The words the constructor lays out upwards from the stack pointer.\<close>

definition argv_words :: "ProgramArgs \<Rightarrow> u32 list" where
  "argv_words a =
     of_nat (length (args_strings a)) #
     map (\<lambda>k. kArgvBase + of_nat k) (argv_offsets 0 (args_strings a)) @ [0]"

definition words_bytes :: "u32 list \<Rightarrow> u8 list" where
  "words_bytes ws = concat (map (le_bytes 4) ws)"

lemma words_bytes_simps [simp]:
  "words_bytes [] = []" "words_bytes (w # ws) = le_bytes 4 w @ words_bytes ws"
  "words_bytes (us @ ws) = words_bytes us @ words_bytes ws"
  by (simp_all add: words_bytes_def del: le_bytes.simps)

lemma length_words_bytes [simp]: "length (words_bytes ws) = 4 * length ws"
  by (induction ws) simp_all

lemma words_bytes_nth:
  "i < length ws \<Longrightarrow> take 4 (drop (4 * i) (words_bytes ws)) = le_bytes 4 (ws ! i)"
proof (induction ws arbitrary: i)
  case Nil
  then show ?case by simp
next
  case (Cons w ws)
  then show ?case by (cases i) (simp_all del: le_bytes.simps)
qed

text \<open>A block copied behind another one.\<close>

definition patch :: "u8 list \<Rightarrow> nat \<Rightarrow> u8 list \<Rightarrow> u8 list" where
  "patch buf off bs = take off buf @ bs @ drop (off + length bs) buf"

lemma memcpy_at_patch:
  "k + length bs \<le> length buf \<Longrightarrow> memcpy_at buf (int k) bs = Inr (patch buf k bs)"
  by (simp add: memcpy_at_def memcpy_to_def patch_def)

lemma patch_patch:
  "off + length bs + length cs \<le> length buf \<Longrightarrow>
    patch (patch buf off bs) (off + length bs) cs = patch buf off (bs @ cs)"
  by (simp add: patch_def ac_simps)

lemma length_patch [simp]: "off + length bs \<le> length buf \<Longrightarrow> length (patch buf off bs) = length buf"
  by (simp add: patch_def)

lemma fill_argv_patch:
  assumes "i + n = length table" "k + length bs + 4 * n \<le> length buf"
  shows "fill_argv table i n (int (k + length bs)) (patch buf k bs) =
    Inr (int (k + length bs + 4 * n),
      patch buf k (bs @ words_bytes (map (\<lambda>off. kArgvBase + off) (drop i table))))"
  using assms
proof (induction n arbitrary: i bs)
  case 0
  then show ?case by simp
next
  case (Suc n)
  let ?w = "le_bytes 4 (kArgvBase + table ! i)"
  have "fill_argv table (Suc i) n (int (k + length (bs @ ?w))) (patch buf k (bs @ ?w)) =
      Inr (int (k + length (bs @ ?w) + 4 * n),
        patch buf k ((bs @ ?w) @ words_bytes (map (\<lambda>off. kArgvBase + off) (drop (Suc i) table))))"
    using Suc.prems by (intro Suc.IH) simp_all
  moreover have "memcpy_at (patch buf k bs) (int (k + length bs)) ?w = Inr (patch buf k (bs @ ?w))"
    using Suc.prems by (subst memcpy_at_patch) (simp_all add: patch_patch del: le_bytes.simps)
  moreover have "drop i table = table ! i # drop (Suc i) table"
    using Suc.prems by (simp add: Cons_nth_drop_Suc)
  ultimately show ?case using Suc.prems
    by (simp add: Let_def ac_simps del: le_bytes.simps)
qed

text \<open>A segment no earlier segment of the list hides.\<close>

definition visible :: "Memory \<Rightarrow> MemorySegm \<Rightarrow> bool" where
  "visible m s \<longleftrightarrow> length (data s) < 2 ^ 32 \<and>
     (\<forall>j < length (data s). find_segm (segms m) (start_addr s + of_nat j) = Some s)"

lemma visible_load:
  assumes "visible m s" "off + LENGTH('a) div 8 \<le> length (data s)" "0 < LENGTH('a) div 8"
  shows "(Load_loop c (segms m) (start_addr s + of_nat off) :: error + 'a::len word) =
    Inr (le_word (take (LENGTH('a) div 8) (drop off (data s))))"
proof -
  have "off < length (data s)" using assms by linarith
  then have "find_segm (segms m) (start_addr s + of_nat off) = Some s" "off < 2 ^ 32"
    using assms(1) by (auto simp: visible_def)
  then show ?thesis using assms(2) by (simp add: Load_loop_eq memcpy_from_def)
qed

lemma visible_read:
  "visible m s \<Longrightarrow> off + n \<le> length (data s) \<Longrightarrow>
    read_range (LoadU8 c) m (start_addr s + of_nat off) n = Inr (take n (drop off (data s)))"
proof (induction n arbitrary: off)
  case 0
  then show ?case by simp
next
  case (Suc n)
  have "drop off (data s) = data s ! off # drop (Suc off) (data s)"
    using Suc.prems by (simp add: Cons_nth_drop_Suc)
  moreover have "LoadU8 c m (start_addr s + of_nat off) = Inr (data s ! off)"
    using visible_load [OF Suc.prems(1), of off c, where ?'a = 8] Suc.prems(2) calculation
    by (simp add: LoadU8_def)
  moreover have "read_range (LoadU8 c) m (start_addr s + of_nat (Suc off)) n =
      Inr (take n (drop (Suc off) (data s)))"
    using Suc.prems by (intro Suc.IH) simp_all
  ultimately show ?case by (simp add: ac_simps)
qed

text \<open>
  Arguments that fit: one string per argument, all of them in the address space above the
  stack, and their pointers in the stack.
\<close>

definition args_fit :: "ProgramArgs \<Rightarrow> bool" where
  "args_fit a \<longleftrightarrow> args_count a = int (length (args_strings a)) \<and>
     4 * (length (args_strings a) + 2) \<le> kStackSize \<and>
     length (argv_bytes (args_strings a)) < 2 ^ 31"

definition initial_sp :: "ProgramArgs \<Rightarrow> u32" where
  "initial_sp a = kStackTop - of_nat (4 * (length (args_strings a) + 2))"

definition stack_segment :: "ProgramArgs \<Rightarrow> MemorySegm" where
  "stack_segment a =
     \<lparr>start_addr = kStackBase, end_addr = kStackTop,
      data = patch (replicate kStackSize 0) (kStackSize - 4 * (length (args_strings a) + 2))
        (words_bytes (argv_words a)),
      r_permission = True, w_permission = True, x_permission = False\<rparr>"

definition argv_segment :: "ProgramArgs \<Rightarrow> MemorySegm" where
  "argv_segment a =
     \<lparr>start_addr = kArgvBase,
      end_addr = kArgvBase + of_nat (length (argv_bytes (args_strings a))) + 4,
      data = argv_bytes (args_strings a),
      r_permission = True, w_permission = False, x_permission = False\<rparr>"

lemma length_argv_words [simp]: "length (argv_words a) = length (args_strings a) + 2"
  by (simp add: argv_words_def)

lemma stack_constants:
  "unat kStackTop = 2 ^ 30" "unat kStackBase = 2 ^ 30 - 2 ^ 20" "unat kArgvBase = 2 ^ 30 + 4"
  "kStackSize = 2 ^ 20"
  by (simp_all add: kStackTop_def kStackBase_def kArgvBase_def kStackSize_def)

lemma initial_sp_offset:
  assumes "args_fit a"
  shows "unat (initial_sp a) = 2 ^ 30 - 4 * (length (args_strings a) + 2)"
    and "initial_sp a = kStackBase + of_nat (kStackSize - 4 * (length (args_strings a) + 2))"
proof -
  let ?n = "4 * (length (args_strings a) + 2)"
  have n: "?n \<le> 2 ^ 20" using assms by (simp add: args_fit_def stack_constants)
  then have "unat (of_nat ?n :: u32) = ?n" by (intro unat_of_nat_small) simp
  then show "unat (initial_sp a) = 2 ^ 30 - ?n"
    using n by (subst initial_sp_def, subst unat_sub)
      (simp_all add: word_le_nat_alt stack_constants)
  show "initial_sp a = kStackBase + of_nat (kStackSize - ?n)"
    using n by (simp add: initial_sp_def kStackBase_def stack_constants of_nat_diff)
qed

lemma RVSim_effect:
  assumes "args_fit a"
  shows "RVSim p a = Inr
    \<lparr>memory = \<lparr>segms = mem p @ [stack_segment a, argv_segment a]\<rparr>, ip = entry_point p,
     should_stop = False,
     xregs = (replicate 32 0)[3 := global_ptr p, 2 := initial_sp a],
     fregs = replicate 32 0, fcsr = 0\<rparr>"
proof -
  let ?strs = "args_strings a" and ?k = "kStackSize - 4 * (length (args_strings a) + 2)"
  let ?bytes = "argv_bytes ?strs"
  let ?table = "map of_nat (argv_offsets 0 ?strs) :: u32 list"
  let ?argc = "le_bytes 4 (of_nat (length ?strs) :: u32)"
  have n: "4 * (length ?strs + 2) \<le> 2 ^ 20" and c: "args_count a = int (length ?strs)"
    and b: "length ?bytes < 2 ^ 31"
    using assms by (simp_all add: args_fit_def stack_constants)
  have size: "unat (SizeOfArgv a) = length ?bytes"
    using b by (simp add: SizeOfArgv_bytes)
  have sp: "kStackTop - word_of_int (4 * (Argc a + 2)) = initial_sp a"
    using c by (simp add: Argc_def initial_sp_def)
  have off: "int (unat (initial_sp a)) - int (unat kStackBase) = int ?k"
    using n initial_sp_offset [OF assms] by (simp add: stack_constants)
  have copy: "CopyArgv a (replicate (unat (SizeOfArgv a)) 0) = Inr (?table, ?bytes)"
    using size by (simp add: CopyArgv_exact)
  have fill: "fill_argv ?table 0 (length ?strs) (int (?k + length ?argc))
        (patch (replicate kStackSize 0) ?k ?argc) =
      Inr (int (?k + length ?argc + 4 * length ?strs),
        patch (replicate kStackSize 0) ?k
          (?argc @ words_bytes (map (\<lambda>off. kArgvBase + off) (drop 0 ?table))))"
    using n by (intro fill_argv_patch) (simp_all add: stack_constants)
  let ?zeros = "replicate kStackSize 0 :: u8 list"
  let ?ptrs = "words_bytes (map (\<lambda>off. kArgvBase + off) (drop 0 ?table))"
  have first: "memcpy_at ?zeros (int ?k) ?argc = Inr (patch ?zeros ?k ?argc)"
    using n by (intro memcpy_at_patch) (simp add: stack_constants)
  have len: "int ?k + 4 = int (?k + length ?argc)" by simp
  have "memcpy_at (patch ?zeros ?k (?argc @ ?ptrs)) (int (?k + length (?argc @ ?ptrs))) (le_bytes 4 (0 :: u32)) =
      Inr (patch (patch ?zeros ?k (?argc @ ?ptrs)) (?k + length (?argc @ ?ptrs)) (le_bytes 4 (0 :: u32)))"
    using n by (intro memcpy_at_patch) (simp add: stack_constants)
  also have "patch (patch ?zeros ?k (?argc @ ?ptrs)) (?k + length (?argc @ ?ptrs)) (le_bytes 4 (0 :: u32)) =
      patch ?zeros ?k ((?argc @ ?ptrs) @ le_bytes 4 (0 :: u32))"
    using n by (intro patch_patch) (simp add: stack_constants)
  finally have last: "memcpy_at (patch ?zeros ?k (?argc @ ?ptrs)) (int (?k + length ?argc + 4 * length ?strs))
      (le_bytes 4 (0 :: u32)) = Inr (patch ?zeros ?k ((?argc @ ?ptrs) @ le_bytes 4 (0 :: u32)))"
    by (simp add: add.assoc)
  have argc: "(word_of_int (Argc a) :: u32) = of_nat (length ?strs)" "nat (Argc a) = length ?strs"
    using c by (simp_all add: Argc_def)
  have words: "(?argc @ ?ptrs) @ le_bytes 4 (0 :: u32) = words_bytes (argv_words a)"
    by (simp add: argv_words_def comp_def)
  have regs: "array_set (replicate kNumXRegisters 0) (XReg_FromEnum X_gp) g = Inr ((replicate 32 0)[3 := g])"
    "array_set ((replicate 32 0)[3 := g]) (XReg_FromEnum X_sp) v = Inr ((replicate 32 0)[3 := g, 2 := v])"
    for g v :: u32
    by (simp_all add: kNumXRegisters_def)
  show ?thesis
    unfolding RVSim_def Let_def
    by (simp only: copy sp off argc first len fill last words regs and_then_Inr prod.case
        AddSegment_def kNumFRegisters_def)
      (simp add: stack_segment_def argv_segment_def SizeOfArgv_bytes)
qed

text \<open>The loaded program leaves the stack and the argument strings alone.\<close>

definition elf_clear :: "ParsedElf \<Rightarrow> ProgramArgs \<Rightarrow> bool" where
  "elf_clear p a \<longleftrightarrow>
     list_all (\<lambda>s. segm_disjoint s (stack_segment a) \<and> segm_disjoint s (argv_segment a)) (mem p)"

definition initial_memory :: "ParsedElf \<Rightarrow> ProgramArgs \<Rightarrow> Memory" where
  "initial_memory p a = \<lparr>segms = mem p @ [stack_segment a, argv_segment a]\<rparr>"

lemma startup_segments:
  assumes "args_fit a"
  shows "length (data (stack_segment a)) = 2 ^ 20"
    and "data (argv_segment a) = argv_bytes (args_strings a)"
    and "unat (end_addr (argv_segment a)) = 2 ^ 30 + 8 + length (argv_bytes (args_strings a))"
proof -
  have n: "4 * (length (args_strings a) + 2) \<le> 2 ^ 20" and b: "length (argv_bytes (args_strings a)) < 2 ^ 31"
    using assms by (simp_all add: args_fit_def stack_constants)
  show "length (data (stack_segment a)) = 2 ^ 20"
    using n by (simp add: stack_segment_def stack_constants)
  show "data (argv_segment a) = argv_bytes (args_strings a)" by (simp add: argv_segment_def)
  show "unat (end_addr (argv_segment a)) = 2 ^ 30 + 8 + length (argv_bytes (args_strings a))"
    using b by (simp add: argv_segment_def kArgvBase_def kStackTop_def unat_word_ariths unat_of_nat)
qed

lemma in_startup_segment:
  assumes "args_fit a"
  shows "j < 2 ^ 20 \<Longrightarrow> IsAddrInSegment (start_addr (stack_segment a) + of_nat j) (stack_segment a)"
    and "j < length (argv_bytes (args_strings a)) \<Longrightarrow>
      IsAddrInSegment (start_addr (argv_segment a) + of_nat j) (argv_segment a)"
proof -
  have b: "length (argv_bytes (args_strings a)) < 2 ^ 31"
    using assms by (simp add: args_fit_def)
  have st: "start_addr (stack_segment a) = kStackBase" "end_addr (stack_segment a) = kStackTop"
    "start_addr (argv_segment a) = kArgvBase"
    by (simp_all add: stack_segment_def argv_segment_def)
  have o: "unat (k + of_nat j :: u32) = unat k + j" if "unat k + j < 2 ^ 32" for k :: u32 and j
    using that by (simp add: unat_word_ariths unat_of_nat)
  show "IsAddrInSegment (start_addr (stack_segment a) + of_nat j) (stack_segment a)" if "j < 2 ^ 20"
    using that by (simp add: IsAddrInSegment_def st word_le_nat_alt word_less_nat_alt o stack_constants)
  show "IsAddrInSegment (start_addr (argv_segment a) + of_nat j) (argv_segment a)"
    if "j < length (argv_bytes (args_strings a))"
    using that b startup_segments(3) [OF assms]
    by (simp add: IsAddrInSegment_def st word_le_nat_alt word_less_nat_alt o stack_constants)
qed

lemma startup_disjoint:
  assumes "args_fit a"
  shows "segm_disjoint (stack_segment a) (argv_segment a)"
  by (simp add: segm_disjoint_def stack_segment_def argv_segment_def word_le_nat_alt stack_constants)

lemma startup_visible:
  assumes "args_fit a" "elf_clear p a"
  shows "visible (initial_memory p a) (stack_segment a)"
    and "visible (initial_memory p a) (argv_segment a)"
proof -
  have b: "length (argv_bytes (args_strings a)) < 2 ^ 31"
    using assms by (simp add: args_fit_def)
  have elf: "find_segm (mem p) x = None"
    if "IsAddrInSegment x (stack_segment a) \<or> IsAddrInSegment x (argv_segment a)" for x
    using that assms(2) segm_disjointD unfolding find_segm_None elf_clear_def list_all_iff by blast
  show "visible (initial_memory p a) (stack_segment a)"
    using in_startup_segment(1) [OF assms(1)] elf
    by (simp add: visible_def startup_segments(1) [OF assms(1)] initial_memory_def find_segm_append)
  have "\<not> IsAddrInSegment x (stack_segment a)" if "IsAddrInSegment x (argv_segment a)" for x
    using that startup_disjoint [OF assms(1)] segm_disjointD by blast
  then show "visible (initial_memory p a) (argv_segment a)"
    using in_startup_segment(2) [OF assms(1)] elf b
    by (simp add: visible_def startup_segments [OF assms(1)] initial_memory_def find_segm_append)
qed

lemma segms_ok_append:
  "segms_ok (xs @ ys) \<longleftrightarrow> segms_ok xs \<and> segms_ok ys \<and> list_all (\<lambda>x. list_all (segm_disjoint x) ys) xs"
  by (induction xs) auto

lemma startup_segms_ok:
  assumes "args_fit a" "elf_clear p a" "segms_ok (mem p)"
  shows "mem_ok (initial_memory p a)"
proof -
  have "segm_ok (stack_segment a)"
    using startup_segments(1) [OF assms(1)] by (simp add: segm_ok_def stack_segment_def stack_constants)
  moreover have "segm_ok (argv_segment a)"
    using startup_segments [OF assms(1)] by (simp add: segm_ok_def) (simp add: argv_segment_def stack_constants)
  ultimately show ?thesis
    using assms(2,3) startup_disjoint [OF assms(1)]
    by (simp add: mem_ok_def initial_memory_def segms_ok_append elf_clear_def list_all_iff)
qed

text \<open>What the guest reads at its stack pointer, and where the pointers there lead.\<close>

lemma startup_stack_words:
  assumes "args_fit a" "elf_clear p a" "i < length (args_strings a) + 2"
  shows "LoadU32 c (initial_memory p a) (initial_sp a + of_nat (4 * i)) = Inr (argv_words a ! i)"
proof -
  let ?k = "kStackSize - 4 * (length (args_strings a) + 2)"
  have n: "4 * (length (args_strings a) + 2) \<le> 2 ^ 20"
    using assms(1) by (simp add: args_fit_def stack_constants)
  have addr: "initial_sp a + of_nat (4 * i) = start_addr (stack_segment a) + of_nat (?k + 4 * i)"
    using initial_sp_offset(2) [OF assms(1)] by (simp add: stack_segment_def)
  have "take 4 (drop (?k + 4 * i) (data (stack_segment a))) =
      take 4 (drop (4 * i) (words_bytes (argv_words a)))"
    using n assms(3) by (simp add: stack_segment_def patch_def stack_constants)
  also have "\<dots> = le_bytes 4 (argv_words a ! i)"
    using assms(3) by (intro words_bytes_nth) simp
  finally have "take 4 (drop (?k + 4 * i) (data (stack_segment a))) = le_bytes 4 (argv_words a ! i)" .
  moreover have "?k + 4 * i + 4 \<le> length (data (stack_segment a))"
    using n assms(3) by (simp add: startup_segments(1) [OF assms(1)] stack_constants)
  ultimately show ?thesis
    unfolding LoadU32_def addr
    by (subst visible_load [OF startup_visible(1) [OF assms(1,2)]]) simp_all
qed

lemma startup_argument_string:
  assumes "args_fit a" "elf_clear p a" "i < length (args_strings a)"
  shows "read_range (LoadU8 c) (initial_memory p a) (argv_words a ! Suc i)
      (length (args_strings a ! i) + 1) = Inr (args_strings a ! i @ [0])"
proof -
  let ?o = "argv_offsets 0 (args_strings a) ! i"
  have o: "?o + length (args_strings a ! i) < length (argv_bytes (args_strings a))"
    "take (length (args_strings a ! i) + 1) (drop ?o (argv_bytes (args_strings a))) = args_strings a ! i @ [0]"
    using argv_offsets_string [OF assms(3), of 0] by simp_all
  have addr: "argv_words a ! Suc i = start_addr (argv_segment a) + of_nat ?o"
    using assms(3) by (simp add: argv_words_def argv_segment_def nth_append)
  show ?thesis
    unfolding addr using o startup_segments(2) [OF assms(1)]
    by (subst visible_read [OF startup_visible(2) [OF assms(1,2)]]) simp_all
qed

section \<open>Properties\<close>

text \<open>
  C21: The guest starts with the stack its ABI promises. At the stack pointer it reads the
  argument count, above it one pointer per argument and a null word, and at each pointer the
  argument's bytes with their terminator; all registers but \<open>sp\<close> and \<open>gp\<close> are 0, the state is
  well-formed and execution starts at the entry point. This holds for arguments that fit the
  stack and a program whose segments leave stack and arguments alone.
\<close>

theorem guest_sees_arguments:
  assumes "args_fit a" "elf_clear p a"
  shows "\<exists>s. RVSim p a = Inr s \<and> sim_ok s \<and> ip s = entry_point p \<and> \<not> should_stop s \<and>
    (\<forall>i < 32. xreg s i = (if i = 2 then initial_sp a else if i = 3 then global_ptr p else 0)) \<and>
    LoadU32 c (memory s) (xreg s 2) = Inr (of_nat (length (args_strings a))) \<and>
    (\<forall>i < length (args_strings a). \<exists>ptr.
      LoadU32 c (memory s) (xreg s 2 + of_nat (4 * (i + 1))) = Inr ptr \<and>
      read_range (LoadU8 c) (memory s) ptr (length (args_strings a ! i) + 1) = Inr (args_strings a ! i @ [0])) \<and>
    LoadU32 c (memory s) (xreg s 2 + of_nat (4 * (length (args_strings a) + 1))) = Inr 0"
proof -
  let ?s = "\<lparr>memory = initial_memory p a, ip = entry_point p, should_stop = False,
     xregs = (replicate 32 0)[3 := global_ptr p, 2 := initial_sp a], fregs = replicate 32 0, fcsr = 0\<rparr>"
  have r: "RVSim p a = Inr ?s" using RVSim_effect [OF assms(1)] by (simp add: initial_memory_def)
  have ok: "sim_ok ?s" by (simp add: sim_ok_def kNumXRegisters_def kNumFRegisters_def nth_list_update del: sim_ok_lengths)
  have x: "xreg ?s i = (if i = 2 then initial_sp a else if i = 3 then global_ptr p else 0)" if "i < 32" for i
    using that by (auto simp: xreg_def nth_list_update)
  have sp: "xreg ?s 2 = initial_sp a" using x [of 2] by simp
  note words = startup_stack_words [OF assms, of _ c]
  have argc: "argv_words a ! 0 = of_nat (length (args_strings a))" by (simp add: argv_words_def)
  have null: "argv_words a ! (length (args_strings a) + 1) = 0"
    by (simp add: argv_words_def nth_append)
  show ?thesis
    using r ok x words [of 0] words [of "Suc i" for i] words [of "length (args_strings a) + 1"]
      startup_argument_string [OF assms, of _ c] argc null
    unfolding sp by (intro exI [of _ ?s]) auto
qed

text \<open>The sample program: one segment, whose first instructions are \<open>addi a7, x0, 93\<close> and \<open>ecall\<close>.\<close>

definition sample_program :: ParsedElf where
  "sample_program =
     \<lparr>mem = [\<lparr>start_addr = 0x1000, end_addr = 0x100a,
        data = [0x93, 0x08, 0xd0, 0x05, 0x73, 0, 0, 0, 0, 0],
        r_permission = True, w_permission = False, x_permission = True\<rparr>],
      entry_point = 0x1000, global_ptr = 0x1800\<rparr>"

definition sample_args :: ProgramArgs where
  "sample_args = \<lparr>args_count = 2, args_strings = [[97], [49, 50]]\<rparr>"

lemma sample_startup:
  "args_fit sample_args" "elf_clear sample_program sample_args" "segms_ok (mem sample_program)"
  by (simp_all add: args_fit_def elf_clear_def sample_args_def sample_program_def kStackSize_def
      segm_disjoint_def stack_segment_def argv_segment_def kStackBase_def kStackTop_def kArgvBase_def
      segm_ok_def)

lemma guest_sees_arguments_witness:
  "\<exists>s. RVSim sample_program sample_args = Inr s \<and>
     LoadU32 \<lparr>ndebug = False\<rparr> (memory s) (xreg s 2) = Inr 2"
  using guest_sees_arguments [OF sample_startup(1,2), of "\<lparr>ndebug = False\<rparr>"]
  by (auto simp: sample_args_def)

lemma RVSim_total:
  assumes "args_fit a"
  obtains sim where "RVSim p a = Inr sim" "sim_ok sim"
  using RVSim_effect [OF assms, of p]
  by (auto simp: sim_ok_def kNumXRegisters_def kNumFRegisters_def nth_list_update simp del: sim_ok_lengths)

lemma start_fields [simp]:
  "sim_ok (start sim rounding flags w) = sim_ok sim" "memory (start sim rounding flags w) = memory sim"
  "ip (start sim rounding flags w) = ip sim" "should_stop (start sim rounding flags w) = should_stop sim"
  "xreg (start sim rounding flags w) i = xreg sim i"
  by (simp_all add: start_def rvsim.extend_def sim_ok_def xreg_def del: sim_ok_lengths)

lemma main_simulates:
  assumes "argc = int (length argv)" "2 \<le> length argv" "LoadElf api (argv ! 1) = Inr p"
    and "RVSim p \<lparr>args_count = argc - 1, args_strings = tl argv\<rparr> = Inr sim"
  shows "main e api rounding flags w argc argv =
    map_option (\<lambda>r. and_then r (\<lambda>(status, _). Inr status)) (Execute e (start sim rounding flags w))"
proof -
  have "argv \<noteq> []" using assms(2) by auto
  then have args: "make_ProgramArgs argc argv = Inr \<lparr>args_count = argc - 1, args_strings = tl argv\<rparr>"
    using make_ProgramArgs_tl [OF assms(1)] assms(1) by (cases argv) simp_all
  show ?thesis using args assms by (simp add: main_def)
qed

text \<open>
  With a program that loads and arguments that fit, \<open>main\<close> returns a status if and only if
  the simulation reaches a state where the guest has exited, and then it is the guest's \<open>a0\<close>
  there; the simulation starts from a well-formed state with the guest's arguments in place.
\<close>

theorem main_returns_guest_status:
  assumes "argc = int (length argv)" "2 \<le> length argv"
    and "LoadElf api (argv ! 1) = Inr p" "a = \<lparr>args_count = argc - 1, args_strings = tl argv\<rparr>"
    and "args_fit a" "elf_clear p a"
  shows "\<exists>sim. RVSim p a = Inr sim \<and> sim_ok (start sim rounding flags w) \<and>
    (main e api rounding flags w argc argv = Some (Inr status) \<longleftrightarrow>
      (\<exists>t. loop_steps should_stop (Execute_body e) (start sim rounding flags w) t \<and>
        should_stop t \<and> xreg t 10 = status))"
proof -
  obtain sim where sim: "RVSim p a = Inr sim" "sim_ok sim" using RVSim_total [OF assms(5)] .
  let ?s = "start sim rounding flags w"
  have ok: "sim_ok ?s" using sim(2) by simp
  have "main e api rounding flags w argc argv = Some (Inr status) \<longleftrightarrow>
      (\<exists>t. Execute e ?s = Some (Inr (status, t)))"
    using main_simulates [OF assms(1-3) sim(1) [unfolded assms(4)], of e rounding flags w]
    by (auto simp: and_then_eq_Inr)
  also have "\<dots> \<longleftrightarrow> (\<exists>t. loop_steps should_stop (Execute_body e) ?s t \<and> should_stop t \<and> xreg t 10 = status)"
    unfolding Execute_ends_iff [OF ok] by (auto split: if_splits)
  finally show ?thesis using sim ok by blast
qed

text \<open>The sample image loads; with the arguments of the sample call it gives the sample program.\<close>

lemma sample_elf_loads: "LoadElf sample_elfio path = Inr sample_program"
proof -
  have reps: "replicate 2 0 = [0, 0 :: u8]" "replicate 10 0 = [0, 0, 0, 0, 0, 0, 0, 0, 0, 0 :: u8]"
    by (simp_all add: eval_nat_numeral)
  have "load_segment sample_elfio (segments sample_elf ! 1) = Inr (mem sample_program ! 0)"
    by (simp add: load_segment_def sample_elf_def sample_program_def sample_elfio_def reps
        memcpy_from_def memcpy_to_def Let_def)
  then show ?thesis
    by (simp add: LoadElf_def sample_elfio_def sample_elf_def sample_program_def IsTargetCorrect_def)
qed

lemma main_returns_guest_status_witness:
  "\<exists>sim. RVSim sample_program sample_args = Inr sim \<and>
     (main (sample_env False) sample_elfio 0 0 [] 3 [[115], [97], [49, 50]] = Some (Inr 0) \<longleftrightarrow>
      (\<exists>t. loop_steps should_stop (Execute_body (sample_env False)) (start sim 0 0 []) t \<and>
        should_stop t \<and> xreg t 10 = 0))"
proof -
  have a: "sample_args = \<lparr>args_count = 3 - 1, args_strings = tl [[115], [97], [49, 50]]\<rparr>"
    by (simp add: sample_args_def)
  show ?thesis
    using main_returns_guest_status [where argc = 3 and argv = "[[115], [97], [49, 50]]" and e = "sample_env False"
        and status = 0 and rounding = 0 and flags = 0 and w = "[]", OF _ _ sample_elf_loads a sample_startup(1,2)]
    by auto
qed

text \<open>
  C37: \<open>main\<close> fails with status 1 when no program is named and when the loader throws, and in
  no case starts a simulation then; without any argument, not even the program's name, its usage
  message dereferences a null pointer. Undefined behaviour of the loader is not caught, and
  neither is an exception of the simulation, which terminates the process instead of returning
  a status.
\<close>

theorem main_failures:
  assumes "argc = int (length argv)"
  shows "(argc = 0 \<longrightarrow> main e api rounding flags w argc argv = Some (Inl (UndefinedBehaviour NullPointer))) \<and>
    (argc = 1 \<longrightarrow> main e api rounding flags w argc argv = Some (Inr EXIT_FAILURE)) \<and>
    (2 \<le> argc \<longrightarrow> LoadElf api (argv ! 1) = Inl (TraceableException msg) \<longrightarrow>
      main e api rounding flags w argc argv = Some (Inr EXIT_FAILURE)) \<and>
    (2 \<le> argc \<longrightarrow> LoadElf api (argv ! 1) = Inl (UndefinedBehaviour u) \<longrightarrow>
      main e api rounding flags w argc argv = Some (Inl (UndefinedBehaviour u))) \<and>
    (2 \<le> argc \<longrightarrow> LoadElf api (argv ! 1) = Inr p \<longrightarrow>
      RVSim p \<lparr>args_count = argc - 1, args_strings = tl argv\<rparr> = Inr sim \<longrightarrow>
      Execute e (start sim rounding flags w) = Some (Inl err) \<longrightarrow>
      main e api rounding flags w argc argv = Some (Inl err))"
proof -
  have args: "make_ProgramArgs argc argv = Inr \<lparr>args_count = argc - 1, args_strings = tl argv\<rparr>"
    if "2 \<le> argc"
    using that make_ProgramArgs_tl [OF assms] assms by (cases argv) simp_all
  show ?thesis
    using args main_simulates [OF assms, of api p sim e rounding flags w] assms by (auto simp: main_def ub_def)
qed

definition missing_elfio :: "u8 list elfio" where
  "missing_elfio = sample_elfio\<lparr>load := (\<lambda>path. None)\<rparr>"

lemma main_failures_witness:
  "main (sample_env False) missing_elfio 0 0 [] 2 [[115], [97]] = Some (Inr EXIT_FAILURE) \<and>
   main (sample_env False) missing_elfio 0 0 [] 1 [[115]] = Some (Inr EXIT_FAILURE)"
proof -
  have l: "LoadElf missing_elfio path = Inl (TraceableException ''Unable to load elf file'')" for path
    by (simp add: LoadElf_def missing_elfio_def)
  show ?thesis
    using main_failures [where argc = 2 and argv = "[[115], [97]]" and api = missing_elfio
        and msg = "''Unable to load elf file''" and e = "sample_env False" and rounding = 0 and flags = 0 and w = "[]"]
      main_failures [where argc = 1 and argv = "[[115]]" and api = missing_elfio
        and e = "sample_env False" and rounding = 0 and flags = 0 and w = "[]"] l
    by simp
qed

end
