(* ===== verification/RV_Refinement.thy ===== *)
theory RV_Refinement
  imports RV_Build
begin

text \<open>
  The architecture the simulator implements, as an abstract machine: a program counter, the two
  register files as functions, the floating-point control and status register, memory as a map
  from addresses to bytes together with the accesses the platform allows, and the world the
  system calls act on. \<open>isa_exec\<close> gives the meaning of the instructions from the manual's
  results, with SoftFloat's operations as the IEEE ones and the host's \<open>read\<close> and \<open>write\<close>;
  \<open>arch_of\<close> reads a simulator state as an abstract one. The simulation lemmas show that the
  simulator does what the architecture says, instruction by instruction and along runs, for
  the instructions and operands \<open>agrees\<close> admits: all but \<open>MULH\<close> and \<open>MULHSU\<close>, \<open>SLL\<close> and
  \<open>SRL\<close> by 32 or more, rotations by 0, \<open>FNMADD_S\<close>, and the conversions from integers. The
  abstract machine has no \<open>FMIN_S\<close> and \<open>FMAX_S\<close>, no reserved rounding modes and no other
  control and status registers than the floating-point one.
\<close>

section \<open>The abstract machine\<close>

record 'w arch =
  pc :: u32
  X :: "nat \<Rightarrow> u32"
  F :: "nat \<Rightarrow> u32"
  csr :: u32
  bytes :: "u32 \<Rightarrow> u8 option"
  allowed :: "u32 \<Rightarrow> nat \<Rightarrow> bool"
  world :: 'w

definition isa_put :: "u32 \<Rightarrow> u32 \<Rightarrow> 'w arch \<Rightarrow> 'w arch" where
  "isa_put insn v a =
     (if Rd insn = 0 then a else a\<lparr>X := (X a)(unat (Rd insn) := v)\<rparr>)"

definition isa_next :: "'w arch \<Rightarrow> 'w arch" where
  "isa_next a = a\<lparr>pc := pc a + 4\<rparr>"

definition isa_load :: "nat \<Rightarrow> u32 \<Rightarrow> 'w arch \<Rightarrow> 'a::len word option" where
  "isa_load n addr a =
     (if allowed a addr n then Some (le_word (map (\<lambda>i. the (bytes a (addr + of_nat i))) [0..<n]))
      else None)"

definition isa_store :: "nat \<Rightarrow> u32 \<Rightarrow> 'a::len word \<Rightarrow> 'w arch \<Rightarrow> 'w arch option" where
  "isa_store n addr v a =
     (if allowed a addr n
      then Some (a\<lparr>bytes := \<lambda>b. if unat (b - addr) < n then Some (le_bytes n v ! unat (b - addr))
                                else bytes a b\<rparr>)
      else None)"

definition isa_retire :: "u32 \<Rightarrow> u32 \<Rightarrow> 'w arch \<Rightarrow> 'w arch" where
  "isa_retire insn v a = isa_next (isa_put insn v a)"

text \<open>Loads, stores, jumps and the rest of the base set; the arithmetic is in \<open>isa_i_R\<close> and its kin.\<close>

fun isa_exec_other :: "ext_i_mnem \<Rightarrow> u32 \<Rightarrow> 'w arch \<Rightarrow> 'w arch option" where
  "isa_exec_other LUI insn a = Some (isa_retire insn (ImmU insn) a)"
| "isa_exec_other AUIPC insn a = Some (isa_retire insn (pc a + ImmU insn) a)"
| "isa_exec_other JAL insn a = Some ((isa_put insn (pc a + 4) a)\<lparr>pc := pc a + ImmJ insn\<rparr>)"
| "isa_exec_other JALR insn a =
     Some ((isa_put insn (pc a + 4) a)\<lparr>pc := unset_bit 0 (X a (unat (Rs1 insn)) + ImmI insn)\<rparr>)"
| "isa_exec_other LB insn a = map_option (\<lambda>v :: u8. isa_retire insn (scast v) a)
     (isa_load 1 (X a (unat (Rs1 insn)) + ImmI insn) a)"
| "isa_exec_other LH insn a = map_option (\<lambda>v :: u16. isa_retire insn (scast v) a)
     (isa_load 2 (X a (unat (Rs1 insn)) + ImmI insn) a)"
| "isa_exec_other LW insn a = map_option (\<lambda>v :: u32. isa_retire insn v a)
     (isa_load 4 (X a (unat (Rs1 insn)) + ImmI insn) a)"
| "isa_exec_other LBU insn a = map_option (\<lambda>v :: u8. isa_retire insn (ucast v) a)
     (isa_load 1 (X a (unat (Rs1 insn)) + ImmI insn) a)"
| "isa_exec_other LHU insn a = map_option (\<lambda>v :: u16. isa_retire insn (ucast v) a)
     (isa_load 2 (X a (unat (Rs1 insn)) + ImmI insn) a)"
| "isa_exec_other SB insn a = map_option isa_next
     (isa_store 1 (X a (unat (Rs1 insn)) + ImmS insn) (ucast (X a (unat (Rs2 insn))) :: u8) a)"
| "isa_exec_other SH insn a = map_option isa_next
     (isa_store 2 (X a (unat (Rs1 insn)) + ImmS insn) (ucast (X a (unat (Rs2 insn))) :: u16) a)"
| "isa_exec_other SW insn a = map_option isa_next
     (isa_store 4 (X a (unat (Rs1 insn)) + ImmS insn) (X a (unat (Rs2 insn))) a)"
| "isa_exec_other FENCE insn a = Some (isa_next a)"
| "isa_exec_other FENCE_I insn a = Some (isa_next a)"
| "isa_exec_other _ insn a = None"

definition isa_exec_i :: "ext_i_mnem \<Rightarrow> u32 \<Rightarrow> 'w arch \<Rightarrow> 'w arch option" where
  "isa_exec_i m insn a =
     (let rs1 = X a (unat (Rs1 insn)); rs2 = X a (unat (Rs2 insn)) in
      case isa_i_R m rs1 rs2 of Some v \<Rightarrow> Some (isa_retire insn v a)
      | None \<Rightarrow> (case isa_i_I m rs1 (ImmI insn) of Some v \<Rightarrow> Some (isa_retire insn v a)
      | None \<Rightarrow> (case isa_i_shift m rs1 (Shamt insn) of Some v \<Rightarrow> Some (isa_retire insn v a)
      | None \<Rightarrow> (case isa_i_branch m rs1 rs2 of
          Some taken \<Rightarrow> Some (if taken then a\<lparr>pc := pc a + ImmB insn\<rparr> else isa_next a)
      | None \<Rightarrow> isa_exec_other m insn a))))"

text \<open>
  The control and status register: an instruction returns the old value of the view it names
  and writes the new one. The second operand is a register or the field of \<open>rs1\<close>.
\<close>

definition isa_exec_csr :: "ext_zicsr_mnem \<Rightarrow> u32 \<Rightarrow> 'w arch \<Rightarrow> 'w arch option" where
  "isa_exec_csr m insn a =
     (case CSR_ToEnum (unat (ImmCSR insn)) of None \<Rightarrow> None
      | Some r \<Rightarrow>
          (let old = csr_read r (csr a);
               v = isa_csr m old (if m \<in> {CSRRW, CSRRS, CSRRC} then X a (unat (Rs1 insn)) else Rs1 insn)
           in Some (isa_retire insn old (a\<lparr>csr := csr_write r v (csr a)\<rparr>))))"

text \<open>
  Floating point. A rounded operation runs in the mode its \<open>rm\<close> field or the dynamic mode
  names; the flags it raises are accrued.
\<close>

definition isa_fretire :: "u32 \<Rightarrow> u32 \<Rightarrow> 'w arch \<Rightarrow> 'w arch" where
  "isa_fretire insn v a = isa_next (a\<lparr>F := (F a)(unat (Rd insn) := v)\<rparr>)"

definition isa_accrue :: "u8 \<Rightarrow> 'w arch \<Rightarrow> 'w arch" where
  "isa_accrue flags a = a\<lparr>csr := csr a OR (ucast flags AND 0x1f)\<rparr>"

definition isa_rm :: "u32 \<Rightarrow> 'w arch \<Rightarrow> RoundingMode" where
  "isa_rm insn a = (if Rm insn = 7 then RM_ToEnum (csr_read frm (csr a)) else RM_ToEnum (Rm insn))"

definition isa_rounded ::
  "(u32 \<Rightarrow> u32 \<Rightarrow> 'w arch \<Rightarrow> 'w arch) \<Rightarrow> 'w env \<Rightarrow> (u8 \<Rightarrow> u32 \<times> u8) \<Rightarrow> u32 \<Rightarrow> 'w arch \<Rightarrow> 'w arch option" where
  "isa_rounded put e f insn a =
     map_option (\<lambda>code. let (v, flags) = f code in isa_accrue flags (put insn v a)) (rm_code e (isa_rm insn a))"

definition isa_compare :: "bool \<times> u8 \<Rightarrow> u32 \<Rightarrow> 'w arch \<Rightarrow> 'w arch" where
  "isa_compare r insn a = isa_accrue (snd r) (isa_retire insn (of_bool (fst r)) a)"

definition isa_neg :: "u32 \<Rightarrow> u32" where
  "isa_neg v = with_sign (\<not> bit v 31) v"

fun isa_arith :: "'w env \<Rightarrow> ext_f_mnem \<Rightarrow> u32 \<Rightarrow> u32 \<Rightarrow> u32 \<Rightarrow> (u8 \<Rightarrow> u32 \<times> u8) option" where
  "isa_arith e FADD_S x y z = Some (\<lambda>rm. f32_add e rm x y)"
| "isa_arith e FSUB_S x y z = Some (\<lambda>rm. f32_sub e rm x y)"
| "isa_arith e FMUL_S x y z = Some (\<lambda>rm. f32_mul e rm x y)"
| "isa_arith e FDIV_S x y z = Some (\<lambda>rm. f32_div e rm x y)"
| "isa_arith e FSQRT_S x y z = Some (\<lambda>rm. f32_sqrt e rm x)"
| "isa_arith e FMADD_S x y z = Some (\<lambda>rm. f32_mulAdd e rm x y z)"
| "isa_arith e FMSUB_S x y z = Some (\<lambda>rm. f32_mulAdd e rm x y (isa_neg z))"
| "isa_arith e FNMSUB_S x y z = Some (\<lambda>rm. f32_mulAdd e rm (isa_neg x) y z)"
| "isa_arith e FNMADD_S x y z = Some (\<lambda>rm. f32_mulAdd e rm (isa_neg x) y (isa_neg z))"
| "isa_arith e _ x y z = None"

fun isa_exec_f_other :: "'w env \<Rightarrow> ext_f_mnem \<Rightarrow> u32 \<Rightarrow> 'w arch \<Rightarrow> 'w arch option" where
  "isa_exec_f_other e FLW insn a = map_option (\<lambda>v. isa_fretire insn v a)
     (isa_load 4 (X a (unat (Rs1 insn)) + ImmI insn) a)"
| "isa_exec_f_other e FSW insn a = map_option isa_next
     (isa_store 4 (X a (unat (Rs1 insn)) + ImmS insn) (F a (unat (Rs2 insn))) a)"
| "isa_exec_f_other e FSGNJ_S insn a =
     Some (isa_fretire insn (with_sign (bit (F a (unat (Rs2 insn))) 31) (F a (unat (Rs1 insn)))) a)"
| "isa_exec_f_other e FSGNJN_S insn a =
     Some (isa_fretire insn (with_sign (\<not> bit (F a (unat (Rs2 insn))) 31) (F a (unat (Rs1 insn)))) a)"
| "isa_exec_f_other e FSGNJX_S insn a =
     Some (isa_fretire insn
       (with_sign (bit (F a (unat (Rs1 insn))) 31 \<noteq> bit (F a (unat (Rs2 insn))) 31) (F a (unat (Rs1 insn)))) a)"
| "isa_exec_f_other e FLE_S insn a =
     Some (isa_compare (f32_le e (F a (unat (Rs1 insn))) (F a (unat (Rs2 insn)))) insn a)"
| "isa_exec_f_other e FLT_S insn a =
     Some (isa_compare (f32_lt e (F a (unat (Rs1 insn))) (F a (unat (Rs2 insn)))) insn a)"
| "isa_exec_f_other e FEQ_S insn a =
     Some (isa_compare (f32_eq e (F a (unat (Rs1 insn))) (F a (unat (Rs2 insn)))) insn a)"
| "isa_exec_f_other e FCVT_W_S insn a =
     isa_rounded isa_retire e (\<lambda>rm. f32_to_i32 e (F a (unat (Rs1 insn))) rm True) insn a"
| "isa_exec_f_other e FCVT_WU_S insn a =
     isa_rounded isa_retire e (\<lambda>rm. f32_to_ui32 e (F a (unat (Rs1 insn))) rm True) insn a"
| "isa_exec_f_other e FCVT_S_W insn a =
     isa_rounded isa_fretire e (\<lambda>rm. i32_to_f32 e rm (X a (unat (Rs1 insn)))) insn a"
| "isa_exec_f_other e FCVT_S_WU insn a =
     isa_rounded isa_fretire e (\<lambda>rm. ui32_to_f32 e rm (X a (unat (Rs1 insn)))) insn a"
| "isa_exec_f_other e FMV_X_W insn a = Some (isa_retire insn (F a (unat (Rs1 insn))) a)"
| "isa_exec_f_other e FMV_W_X insn a = Some (isa_fretire insn (X a (unat (Rs1 insn))) a)"
| "isa_exec_f_other e FCLASS_S insn a =
     Some (isa_retire insn (push_bit (isa_fclass (f32_isSignalingNaN e) (F a (unat (Rs1 insn)))) 1) a)"
| "isa_exec_f_other e _ insn a = None"

definition isa_exec_f :: "'w env \<Rightarrow> ext_f_mnem \<Rightarrow> u32 \<Rightarrow> 'w arch \<Rightarrow> 'w arch option" where
  "isa_exec_f e m insn a =
     (case isa_arith e m (F a (unat (Rs1 insn))) (F a (unat (Rs2 insn))) (F a (unat (Rs3 insn))) of
        Some f \<Rightarrow> isa_rounded isa_fretire e f insn a
      | None \<Rightarrow> isa_exec_f_other e m insn a)"

text \<open>
  The system calls 63 and 64 on a buffer whose bytes are all mapped; the result of a read that
  succeeds is at most the length asked for, as the host's interface promises.
\<close>

definition isa_result :: "u64 \<Rightarrow> 'w arch \<Rightarrow> 'w arch" where
  "isa_result r a = isa_next (a\<lparr>X := (X a)(10 := ucast r)\<rparr>)"

definition isa_range :: "'w arch \<Rightarrow> u32 \<Rightarrow> nat \<Rightarrow> bool" where
  "isa_range a addr n \<longleftrightarrow> list_all (\<lambda>i. allowed a (addr + of_nat i) 1) [0..<n]"

definition isa_write :: "'w env \<Rightarrow> 'w arch \<Rightarrow> 'w arch option" where
  "isa_write e a =
     (let addr = X a 11; n = unat (X a 12) in
      if isa_range a addr n then
        let (wc, w) = host_write e (X a 10) (map (\<lambda>i. the (bytes a (addr + of_nat i))) [0..<n]) (world a)
        in Some (isa_result wc (a\<lparr>world := w\<rparr>))
      else None)"

definition isa_read :: "'w env \<Rightarrow> 'w arch \<Rightarrow> 'w arch option" where
  "isa_read e a =
     (let addr = X a 11; n = unat (X a 12);
          (rc, buf, w) = host_read e (X a 10) (replicate n 0) (world a) in
      if sint rc < 0 then Some (isa_result rc (a\<lparr>world := w\<rparr>))
      else if unat rc \<le> n \<and> unat rc \<le> length buf \<and> isa_range a addr (unat rc) then
        Some (isa_result rc (a\<lparr>world := w,
          bytes := \<lambda>b. if unat (b - addr) < unat rc then Some (buf ! unat (b - addr)) else bytes a b\<rparr>))
      else None)"

definition isa_ecall :: "'w env \<Rightarrow> 'w arch \<Rightarrow> 'w arch option" where
  "isa_ecall e a =
     (if X a 17 = 64 then isa_write e a else if X a 17 = 63 then isa_read e a else None)"

text \<open>The second operand of Zbb is \<open>rs2\<close>, except for \<open>RORI\<close>.\<close>

fun isa_exec :: "'w env \<Rightarrow> InsnMnemonic \<Rightarrow> u32 \<Rightarrow> 'w arch \<Rightarrow> 'w arch option" where
  "isa_exec e (Ext_I m) insn a = (if m = ECALL then isa_ecall e a else isa_exec_i m insn a)"
| "isa_exec e (Ext_M m) insn a =
     Some (isa_retire insn (isa_m m (X a (unat (Rs1 insn))) (X a (unat (Rs2 insn)))) a)"
| "isa_exec e (Ext_Zbb m) insn a =
     Some (isa_retire insn (isa_zbb m (X a (unat (Rs1 insn)))
       (if m = RORI then Shamt insn else X a (unat (Rs2 insn)))) a)"
| "isa_exec e (Ext_Zicsr m) insn a = isa_exec_csr m insn a"
| "isa_exec e (Ext_F m) insn a = isa_exec_f e m insn a"
| "isa_exec e _ insn a = None"

text \<open>The operands for which the simulator follows the manual.\<close>

fun agrees :: "InsnMnemonic \<Rightarrow> u32 \<Rightarrow> 'w arch \<Rightarrow> bool" where
  "agrees (Ext_I m) insn a \<longleftrightarrow> (m = SLL \<or> m = SRL \<longrightarrow> unat (X a (unat (Rs2 insn))) < 32)"
| "agrees (Ext_M m) insn a \<longleftrightarrow> m \<noteq> MULH \<and> m \<noteq> MULHSU"
| "agrees (Ext_Zbb m) insn a \<longleftrightarrow>
     (m = ROL \<or> m = ROR \<longrightarrow> unat (X a (unat (Rs2 insn))) mod 32 \<noteq> 0) \<and> (m = RORI \<longrightarrow> Shamt insn \<noteq> 0)"
| "agrees (Ext_F m) insn a \<longleftrightarrow> m \<noteq> FNMADD_S \<and> m \<noteq> FCVT_S_W \<and> m \<noteq> FCVT_S_WU"
| "agrees _ insn a \<longleftrightarrow> True"

text \<open>One step of the abstract machine: fetch, decode, execute.\<close>

definition isa_step :: "'w env \<Rightarrow> 'w arch \<Rightarrow> 'w arch option" where
  "isa_step e a =
     (case isa_load 4 (pc a) a of None \<Rightarrow> None
      | Some w \<Rightarrow> if agrees (Decode w) w a then isa_exec e (Decode w) w a else None)"

fun isa_steps :: "nat \<Rightarrow> 'w env \<Rightarrow> 'w arch \<Rightarrow> 'w arch option" where
  "isa_steps 0 e a = Some a"
| "isa_steps (Suc n) e a = (case isa_step e a of None \<Rightarrow> None | Some b \<Rightarrow> isa_steps n e b)"

section \<open>The simulator as the abstract machine\<close>

definition arch_of :: "'w machine \<Rightarrow> 'w arch" where
  "arch_of s = \<lparr>pc = ip s, X = xreg s, F = freg s, csr = fcsr s, bytes = byte_at (segms (memory s)),
     allowed = accessible (segms (memory s)), world = host s\<rparr>"

lemma arch_of_fields [simp]:
  "pc (arch_of s) = ip s" "X (arch_of s) = xreg s" "F (arch_of s) = freg s" "csr (arch_of s) = fcsr s"
  "bytes (arch_of s) = byte_at (segms (memory s))" "allowed (arch_of s) = accessible (segms (memory s))"
  "world (arch_of s) = host s"
  by (simp_all add: arch_of_def)

lemma arch_of_put:
  assumes "sim_ok s"
  shows "arch_of (xput (unat (Rd insn)) v s) = isa_put insn v (arch_of s)"
  using assms by (auto simp: arch_of_def isa_put_def fun_eq_iff unat_eq_0)

lemma arch_of_Step [simp]: "arch_of (Step s) = isa_next (arch_of s)"
  by (simp add: arch_of_def isa_next_def fun_eq_iff)

lemma arch_of_retire: "sim_ok s \<Longrightarrow> arch_of (retire insn v s) = isa_retire insn v (arch_of s)"
  by (simp add: retire_def isa_retire_def arch_of_put)

lemma arch_of_fretire: "sim_ok s \<Longrightarrow> arch_of (fretire insn v s) = isa_fretire insn v (arch_of s)"
  by (simp add: fretire_def isa_fretire_def) (auto simp: arch_of_def isa_next_def fun_eq_iff)

lemma arch_of_ip: "arch_of (s\<lparr>ip := v\<rparr>) = (arch_of s)\<lparr>pc := v\<rparr>"
  by (simp add: arch_of_def fun_eq_iff)

lemma arch_of_csr: "arch_of (s\<lparr>fcsr := w\<rparr>) = (arch_of s)\<lparr>csr := w\<rparr>"
  by (simp add: arch_of_def fun_eq_iff)

lemma isa_put_pc: "isa_put insn v (a\<lparr>pc := w\<rparr>) = (isa_put insn v a)\<lparr>pc := w\<rparr>"
  by (simp add: isa_put_def)

text \<open>After a SoftFloat call; the library's globals are not part of the architecture.\<close>

lemma fp_done_put:
  assumes "sim_ok s"
  shows "arch_of (fp_done code flags (fput (unat (Rd insn)) v) s) =
      isa_accrue flags (isa_fretire insn v (arch_of s))"
    and "arch_of (fp_done code flags (xput (unat (Rd insn)) v) s) =
      isa_accrue flags (isa_retire insn v (arch_of s))"
    and "should_stop (fp_done code flags (fput (unat (Rd insn)) v) s) = should_stop s"
    and "should_stop (fp_done code flags (xput (unat (Rd insn)) v) s) = should_stop s"
  using assms
  by (auto simp: fp_done_def arch_of_def isa_accrue_def isa_fretire_def isa_retire_def isa_next_def
      isa_put_def fun_eq_iff unat_eq_0)

lemma load_refines:
  assumes "mem_ok (memory s)" "isa_load (LENGTH('a) div 8) addr (arch_of s) = Some v"
  shows "Load_loop c (segms (memory s)) addr = Inr (v :: 'a::len word)"
  using assms Load_loop_bytes [of "segms (memory s)" addr c, where ?'a = 'a]
  by (auto simp: isa_load_def mem_ok_def split: if_splits)

lemma store_refines:
  assumes "mem_ok (memory s)"
    "isa_store (LENGTH('a) div 8) addr (v :: 'a::len word) (arch_of s) = Some a"
  shows "\<exists>m. Store_with c (memory s) addr v = Inr m \<and> arch_of (s\<lparr>memory := m\<rparr>) = a"
proof -
  have acc: "accessible (segms (memory s)) addr (LENGTH('a) div 8)"
    using assms(2) by (auto simp: isa_store_def split: if_splits)
  then obtain ss where ss: "Store_loop c (segms (memory s)) addr v = Inr ss"
    "layout ss = layout (segms (memory s))"
    "\<And>b. byte_at ss b =
      (if unat (b - addr) < LENGTH('a) div 8 then Some (le_bytes (LENGTH('a) div 8) v ! unat (b - addr))
       else byte_at (segms (memory s)) b)"
    using Store_loop_bytes [of "segms (memory s)" addr c v] assms(1) by (auto simp: mem_ok_def)
  have "arch_of (s\<lparr>memory := (memory s)\<lparr>segms := ss\<rparr>\<rparr>) = a"
    using assms(2) acc ss(3) accessible_layout [OF ss(2)]
    by (auto simp: isa_store_def arch_of_def fun_eq_iff)
  then show ?thesis using ss(1) by (simp add: Store_with_def)
qed

lemma isa_load_word:
  assumes "mem_ok (memory s)" "accessible (segms (memory s)) addr 4" "LoadU32 c (memory s) addr = Inr v"
  shows "isa_load 4 addr (arch_of s) = Some v"
  using Load_loop_bytes [of "segms (memory s)" addr c, where ?'a = 32] assms
  by (simp add: isa_load_def LoadU32_def mem_ok_def)

section \<open>One instruction\<close>

text \<open>The computation \<open>m\<close> succeeds in a state whose abstraction is \<open>a\<close> and does not stop the run.\<close>

definition refines :: "'w machine \<Rightarrow> 'w arch \<Rightarrow> error + 'w machine \<Rightarrow> bool" where
  "refines s a m \<longleftrightarrow> (\<exists>s'. m = Inr s' \<and> arch_of s' = a \<and> should_stop s' = should_stop s)"

lemma refines_Inr [simp]: "refines s a (Inr s') \<longleftrightarrow> arch_of s' = a \<and> should_stop s' = should_stop s"
  by (simp add: refines_def)

lemma should_stop_retire [simp]:
  "should_stop (retire insn v s) = should_stop s" "should_stop (fretire insn v s) = should_stop s"
  by (simp_all add: retire_def fretire_def)

lemma unset_bit_0: "unset_bit 0 (x :: u32) = x AND NOT 1"
  by (simp add: unset_bit_eq_and_not)

lemma shamt_mod [simp]: "unat (Shamt w) mod 32 = unat (Shamt w)"
  using reg_fields_less(5) by simp

lemma less_words: "uint (a :: u32) < uint b \<longleftrightarrow> a < b" "uint a = uint b \<longleftrightarrow> a = b" "uint a \<le> uint b \<longleftrightarrow> a \<le> b"
  by (simp_all add: word_less_def word_le_def word_uint_eq_iff)

lemma alu_refines:
  assumes "sim_ok s" "agrees (Ext_I m) insn (arch_of s)"
    and "isa_i_R m (rs1_val insn s) (rs2_val insn s) = Some v \<or>
      isa_i_I m (rs1_val insn s) (ImmI insn) = Some v \<or>
      isa_i_shift m (rs1_val insn s) (Shamt insn) = Some v"
  shows "ext_i_callback m e insn s = Inr (retire insn v s)"
  using assms by (cases m) (auto simp: ext_i_effects field_simps_rv less_words push_bit_eq_mult)

lemma branch_refines:
  assumes "sim_ok s" "isa_i_branch m (rs1_val insn s) (rs2_val insn s) = Some taken"
  shows "ext_i_callback m e insn s = Inr (if taken then s\<lparr>ip := ip s + ImmB insn\<rparr> else Step s)"
  using assms by (cases m) (auto simp: ext_i_effects less_words)

lemma loads_refine:
  assumes "mem_ok (memory s)"
  shows "isa_load 4 addr (arch_of s) = Some v32 \<Longrightarrow> LoadU32 c (memory s) addr = Inr v32"
    and "isa_load 2 addr (arch_of s) = Some v16 \<Longrightarrow> LoadU16 c (memory s) addr = Inr v16"
    and "isa_load 1 addr (arch_of s) = Some v8 \<Longrightarrow> LoadU8 c (memory s) addr = Inr v8"
  using load_refines [OF assms, where ?'a = 32] load_refines [OF assms, where ?'a = 16]
    load_refines [OF assms, where ?'a = 8]
  by (simp_all add: access_defs)

lemma stores_refine:
  assumes "mem_ok (memory s)"
  shows "isa_store 4 addr v32 (arch_of s) = Some a \<Longrightarrow>
      \<exists>m. StoreU32 c (memory s) addr v32 = Inr m \<and> arch_of (s\<lparr>memory := m\<rparr>) = a"
    and "isa_store 2 addr v16 (arch_of s) = Some a \<Longrightarrow>
      \<exists>m. StoreU16 c (memory s) addr v16 = Inr m \<and> arch_of (s\<lparr>memory := m\<rparr>) = a"
    and "isa_store 1 addr v8 (arch_of s) = Some a \<Longrightarrow>
      \<exists>m. StoreU8 c (memory s) addr v8 = Inr m \<and> arch_of (s\<lparr>memory := m\<rparr>) = a"
  unfolding StoreU32_def StoreU16_def StoreU8_def
  by (rule store_refines [OF assms]; simp)+

lemma other_refines:
  assumes "sim_ok s" "mem_ok (memory s)" "isa_exec_other m insn (arch_of s) = Some a"
  shows "refines s a (ext_i_callback m e insn s)"
proof (cases "m \<in> {SB, SH, SW}")
  case True
  then show ?thesis
    using assms(1,3) stores_refine [OF assms(2), of _ _ _ e]
    by (auto simp: ext_i_store_effect refines_def and_then_eq_Inr; fastforce)
next
  case False
  then show ?thesis
    using assms(1,3) loads_refine [OF assms(2), of _ _ e]
    by (cases m) (auto simp: ext_i_alu_effect ext_i_jump_effect ext_i_load_effect arch_of_retire
      arch_of_put arch_of_ip isa_put_pc unset_bit_0 CallbackFENCE_def CallbackFENCE_I_def)
qed

lemma exec_i_refines:
  assumes "sim_ok s" "mem_ok (memory s)" "agrees (Ext_I m) insn (arch_of s)"
    and "isa_exec_i m insn (arch_of s) = Some a"
  shows "refines s a (ext_i_callback m e insn s)"
proof -
  let ?r = "isa_i_R m (rs1_val insn s) (rs2_val insn s)" and ?i = "isa_i_I m (rs1_val insn s) (ImmI insn)"
    and ?s = "isa_i_shift m (rs1_val insn s) (Shamt insn)"
    and ?b = "isa_i_branch m (rs1_val insn s) (rs2_val insn s)"
  have "(\<exists>v. (?r = Some v \<or> ?i = Some v \<or> ?s = Some v) \<and> a = isa_retire insn v (arch_of s)) \<or>
      (\<exists>taken. ?b = Some taken \<and>
        a = (if taken then (arch_of s)\<lparr>pc := ip s + ImmB insn\<rparr> else isa_next (arch_of s))) \<or>
      isa_exec_other m insn (arch_of s) = Some a"
    using assms(4) unfolding isa_exec_i_def Let_def arch_of_fields
    by (cases ?r; cases ?i; cases ?s; cases ?b; fastforce)
  then consider (alu) v where "isa_i_R m (rs1_val insn s) (rs2_val insn s) = Some v \<or>
      isa_i_I m (rs1_val insn s) (ImmI insn) = Some v \<or>
      isa_i_shift m (rs1_val insn s) (Shamt insn) = Some v" "a = isa_retire insn v (arch_of s)"
    | (branch) taken where "isa_i_branch m (rs1_val insn s) (rs2_val insn s) = Some taken"
      "a = (if taken then (arch_of s)\<lparr>pc := ip s + ImmB insn\<rparr> else isa_next (arch_of s))"
    | (other) "isa_exec_other m insn (arch_of s) = Some a"
    by blast
  then show ?thesis
  proof cases
    case alu
    then show ?thesis using alu_refines [OF assms(1,3)] arch_of_retire [OF assms(1)] by simp
  next
    case branch
    then show ?thesis using branch_refines [OF assms(1)] by (simp add: arch_of_ip)
  next
    case other
    then show ?thesis using other_refines assms(1,2) by blast
  qed
qed

lemma exec_m_refines:
  assumes "sim_ok s" "m \<noteq> MULH" "m \<noteq> MULHSU"
  shows "ext_m_callback m e insn s = Inr (retire insn (isa_m m (rs1_val insn s) (rs2_val insn s)) s)"
  using assms by (cases m) (simp_all add: ext_m_effect del: isa_m.simps)

lemma exec_zbb_refines:
  assumes "sim_ok s" "agrees (Ext_Zbb m) insn (arch_of s)"
  shows "ext_zbb_callback m e insn s =
    Inr (retire insn (isa_zbb m (rs1_val insn s) (if m = RORI then Shamt insn else rs2_val insn s)) s)"
  using assms by (cases m) (simp_all add: ext_zbb_effects del: isa_zbb.simps)

lemma exec_csr_refines:
  assumes "sim_ok s" "isa_exec_csr m insn (arch_of s) = Some a"
  shows "refines s a (ext_zicsr_callback m e insn s)"
proof -
  obtain r where r: "CSR_ToEnum (unat (ImmCSR insn)) = Some r"
    using assms(2) by (auto simp: isa_exec_csr_def split: option.splits)
  have "refines s (isa_retire insn (csr_read r (fcsr s)) ((arch_of s)\<lparr>csr := csr_write r v (fcsr s)\<rparr>))
      (Inr (csr_swap r insn v s))" for v
    using assms(1) by (simp add: csr_swap_def arch_of_retire arch_of_csr del: csr_read.simps csr_write.simps)
  then show ?thesis
    using assms r
    by (cases m) (auto simp: isa_exec_csr_def ext_zicsr_effect Let_def simp del: csr_read.simps csr_write.simps)
qed

text \<open>Floating point.\<close>

lemma isa_rm_arch_of: "isa_rm insn (arch_of s) = selected_rm insn s"
  by (simp add: isa_rm_def selected_rm_def)

lemma isa_neg_is_f32_neg: "isa_neg v = f32_neg v"
  by (simp add: isa_neg_def f32_neg_flips)

lemma rounded_refines:
  assumes "sim_ok s" "isa_rounded put e f insn (arch_of s) = Some a"
  obtains code v flags where "rm_code e (selected_rm insn s) = Some code" "f code = (v, flags)"
    "a = isa_accrue flags (put insn v (arch_of s))"
proof -
  obtain code where c: "rm_code e (selected_rm insn s) = Some code"
    "a = (let (v, flags) = f code in isa_accrue flags (put insn v (arch_of s)))"
    using assms(2) by (auto simp: isa_rounded_def isa_rm_arch_of)
  then show ?thesis using that by (cases "f code") auto
qed

lemma arith_refines:
  assumes "sim_ok s" "m \<noteq> FNMADD_S" "isa_arith e m (frs1_val insn s) (frs2_val insn s) (frs3_val insn s) = Some f"
    and "isa_rounded isa_fretire e f insn (arch_of s) = Some a"
  shows "refines s a (ext_f_callback m e insn s)"
proof -
  obtain code v flags where c: "rm_code e (selected_rm insn s) = Some code" "f code = (v, flags)"
    "a = isa_accrue flags (isa_fretire insn v (arch_of s))"
    using rounded_refines [OF assms(1,4)] .
  have "fp_arith e m code (frs1_val insn s) (frs2_val insn s) (frs3_val insn s) = f code"
    using assms(2,3) by (cases m) (auto simp: isa_neg_is_f32_neg)
  then have "refines s a (Inr (fp_arith_step e m code insn s))"
    using c(2,3) assms(1) by (simp add: fp_arith_step_def fp_done_put)
  then show ?thesis
    using assms(3) ext_f_arith_effect [OF assms(1) c(1)] ext_f_sqrt_effect [OF assms(1) c(1)]
    by (cases m) auto
qed

lemma compare_refines:
  assumes "sim_ok s"
  shows "refines s (isa_compare r insn (arch_of s)) (Inr (fp_compare_step of_bool r insn s))"
  using assms by (simp add: fp_compare_step_def isa_compare_def fp_done_put)

lemma exec_f_other_refines:
  assumes "sim_ok s" "mem_ok (memory s)" "m \<noteq> FCVT_S_W" "m \<noteq> FCVT_S_WU"
    and "isa_exec_f_other e m insn (arch_of s) = Some a"
  shows "refines s a (ext_f_callback m e insn s)"
proof (cases "m \<in> {FCVT_W_S, FCVT_WU_S, FSW}")
  case True
  then show ?thesis
    using assms(1,5) stores_refine(1) [OF assms(2), of _ _ _ e]
    by (auto simp: ext_f_to_int_effect fp_done_put ext_f_memory_effect refines_def and_then_eq_Inr
        elim!: rounded_refines [OF assms(1)]; fastforce)
next
  case False
  then show ?thesis
    using assms(1,3-5) loads_refine(1) [OF assms(2), of _ _ e] compare_refines [OF assms(1)]
    by (cases m) (auto simp: ext_f_sign_effect ext_f_move_effect ext_f_class_effect ext_f_memory_effect
      ext_f_compare_effect arch_of_retire arch_of_fretire)
qed

lemma exec_f_refines:
  assumes "sim_ok s" "mem_ok (memory s)" "agrees (Ext_F m) insn (arch_of s)"
    and "isa_exec_f e m insn (arch_of s) = Some a"
  shows "refines s a (ext_f_callback m e insn s)"
  using assms arith_refines [OF assms(1), of m e insn] exec_f_other_refines [OF assms(1,2), of m e insn]
  by (auto simp: isa_exec_f_def split: option.splits)

text \<open>System calls.\<close>

lemma isa_range_mapped: "isa_range (arch_of s) addr n \<longleftrightarrow> guest.range_mapped (memory s) addr n"
  by (auto simp: isa_range_def guest.range_mapped_def mem_mapped_def list_all_iff)

lemma read_range_bytes:
  assumes "mem_ok m" "guest.range_mapped m addr n"
  shows "read_range (LoadU8 c) m addr n = Inr (map (\<lambda>i. the (byte_at (segms m) (addr + of_nat i))) [0..<n])"
proof -
  obtain bs where bs: "read_range (LoadU8 c) m addr n = Inr bs" "length bs = n"
    using guest.read_range_ok [OF assms, of c] by blast
  have "bs = map (\<lambda>i. the (byte_at (segms m) (addr + of_nat i))) [0..<n]"
  proof (rule nth_equalityI)
    fix i
    assume "i < length bs"
    then have i: "i < n" using bs(2) by simp
    then have "mem_mapped m (addr + of_nat i)" using assms(2) by (simp add: guest.range_mapped_def)
    then show "bs ! i = map (\<lambda>i. the (byte_at (segms m) (addr + of_nat i))) [0..<n] ! i"
      using read_range_nth [OF bs(1) i] LoadU8_byte_at [OF assms(1), of "addr + of_nat i" c] i by simp
  qed (simp add: bs(2))
  then show ?thesis using bs(1) by simp
qed

lemma write_range_bytes:
  assumes "mem_ok m" "guest.range_mapped m addr (length bs)" "length bs < 2 ^ 32"
  shows "\<exists>m'. write_range (StoreU8 c) m addr bs = Inr m' \<and> layout (segms m') = layout (segms m) \<and>
    byte_at (segms m') =
      (\<lambda>b. if unat (b - addr) < length bs then Some (bs ! unat (b - addr)) else byte_at (segms m) b)"
proof -
  obtain m' where m': "write_range (StoreU8 c) m addr bs = Inr m'" "mem_ok m'"
    "\<forall>b. mem_mapped m' b = mem_mapped m b" "read_range (LoadU8 c) m' addr (length bs) = Inr bs"
    "\<forall>b. length bs \<le> unat (b - addr) \<longrightarrow> LoadU8 c m' b = LoadU8 c m b"
    using guest.write_range_ok [OF assms(1,2), of c] assms(3) by auto
  have "byte_at (segms m') b =
      (if unat (b - addr) < length bs then Some (bs ! unat (b - addr)) else byte_at (segms m) b)" for b
  proof (cases "mem_mapped m b")
    case True
    then have mapped: "mem_mapped m' b" "byte_at (segms m) b \<noteq> None" "byte_at (segms m') b \<noteq> None"
      using m'(3) accessible_iff_bytes_1 by (auto simp: mem_mapped_def)
    have b: "addr + of_nat (unat (b - addr)) = b" by simp
    show ?thesis
    proof (cases "unat (b - addr) < length bs")
      case True
      then show ?thesis
        using read_range_nth [OF m'(4) True] LoadU8_byte_at [OF m'(2) mapped(1), of c] mapped(3) b by auto
    next
      case False
      then show ?thesis
        using m'(5) LoadU8_byte_at [OF m'(2) mapped(1), of c] LoadU8_byte_at [OF assms(1) True, of c] mapped
        by auto
    qed
  next
    case False
    have "\<not> unat (b - addr) < length bs"
    proof
      assume "unat (b - addr) < length bs"
      then have "mem_mapped m (addr + of_nat (unat (b - addr)))"
        using assms(2) unfolding guest.range_mapped_def by blast
      then show False using False by simp
    qed
    moreover have "byte_at (segms m) b = None" "byte_at (segms m') b = None"
      using False m'(3) accessible_iff_bytes_1 unfolding mem_mapped_def by metis+
    ultimately show ?thesis by simp
  qed
  moreover have "layout (segms m') = layout (segms m)"
    using CopyHostToGuest_layout [of c m addr bs "length bs" m'] m'(1) by (simp add: CopyHostToGuest_write_range)
  ultimately show ?thesis using m'(1) by (intro exI [of _ m']) (simp add: fun_eq_iff)
qed

lemma arch_of_result:
  "sim_ok s \<Longrightarrow> isa_next (arch_of (xput 10 (ucast r) s)) = isa_result r (arch_of s)"
  by (simp add: isa_result_def) (auto simp: arch_of_def isa_next_def fun_eq_iff)

lemma arch_of_host: "arch_of (s\<lparr>host := w\<rparr>) = (arch_of s)\<lparr>world := w\<rparr>"
  by (simp add: arch_of_def fun_eq_iff xreg_def freg_def)

lemma write_refines:
  assumes "sim_ok s" "mem_ok (memory s)" "xreg s 17 = 64" "isa_write e (arch_of s) = Some a"
  shows "refines s a (CallbackECALL e insn s)"
proof -
  let ?addr = "xreg s 11" and ?n = "unat (xreg s 12)"
  have r: "guest.range_mapped (memory s) ?addr ?n"
    using assms(4) by (auto simp: isa_write_def isa_range_mapped Let_def split: if_splits)
  note bs = read_range_bytes [OF assms(2) r, of e]
  show ?thesis
    using assms(1,3,4) r
    by (auto simp: ecall_effect sys_write_effect bs isa_write_def isa_range_mapped Let_def
        arch_of_result arch_of_host split: prod.splits)
qed

lemma read_refines:
  assumes "sim_ok s" "mem_ok (memory s)" "xreg s 17 = 63" "isa_read e (arch_of s) = Some a"
  shows "refines s a (CallbackECALL e insn s)"
proof -
  let ?addr = "xreg s 11" and ?n = "unat (xreg s 12)"
  obtain rc buf w where h: "host_read e (xreg s 10) (replicate ?n 0) (host s) = (rc, buf, w)"
    by (metis prod.exhaust)
  show ?thesis
  proof (cases "sint rc < 0")
    case True
    then show ?thesis
      using assms(1,3,4) h
      by (simp add: ecall_effect sys_read_effect [OF assms(1) h] isa_read_def Let_def arch_of_result arch_of_host)
  next
    case False
    let ?k = "unat rc"
    have k: "?k \<le> ?n" "?k \<le> length buf" "guest.range_mapped (memory s) ?addr ?k"
      and a: "a = isa_result rc ((arch_of s)\<lparr>world := w,
        bytes := \<lambda>b. if unat (b - ?addr) < ?k then Some (buf ! unat (b - ?addr)) else bytes (arch_of s) b\<rparr>)"
      using assms(4) False h by (auto simp: isa_read_def isa_range_mapped Let_def split: if_splits)
    have "?n < 2 ^ 32" using unsigned_less [of "xreg s 12"] by simp
    then obtain m where m: "write_range (StoreU8 e) (memory s) ?addr (take ?k buf) = Inr m"
      "layout (segms m) = layout (segms (memory s))"
      "byte_at (segms m) = (\<lambda>b. if unat (b - ?addr) < ?k then Some (buf ! unat (b - ?addr))
        else byte_at (segms (memory s)) b)"
      using write_range_bytes [OF assms(2), of ?addr "take ?k buf" e] k by (auto cong: if_cong)
    have "CallbackECALL e insn s = Inr (Step (xput 10 (ucast rc) (s\<lparr>host := w, memory := m\<rparr>)))"
      using False assms(1,3) m(1) k(2)
      by (simp add: ecall_effect sys_read_effect [OF assms(1) h] CopyHostToGuest_write_range)
    moreover have "arch_of (s\<lparr>host := w, memory := m\<rparr>) = (arch_of s)\<lparr>world := w, bytes := byte_at (segms m)\<rparr>"
      using accessible_layout [OF m(2)] by (simp add: arch_of_def fun_eq_iff xreg_def freg_def)
    ultimately show ?thesis
      using assms(1) unfolding a by (simp add: arch_of_result m(3) cong: if_cong)
  qed
qed

lemma ecall_refines:
  assumes "sim_ok s" "mem_ok (memory s)" "isa_ecall e (arch_of s) = Some a"
  shows "refines s a (CallbackECALL e insn s)"
  using assms write_refines [OF assms(1,2)] read_refines [OF assms(1,2)]
  by (auto simp: isa_ecall_def split: if_splits)

lemma exec_refines:
  assumes "sim_ok s" "mem_ok (memory s)" "agrees m insn (arch_of s)" "isa_exec e m insn (arch_of s) = Some a"
  obtains cb where "GetInsnCallback m = Inr cb" "refines s a (cb e insn s)"
proof (cases m)
  case (Ext_I i)
  then show ?thesis
    using that [of "ext_i_callback i"] exec_i_refines [of s i insn a e] ecall_refines [of s e a insn] assms
    by (cases "i = ECALL") (auto simp del: agrees.simps)
next
  case (Ext_M i)
  then show ?thesis
    using that [of "ext_m_callback i"] exec_m_refines [of s i e insn] assms arch_of_retire [OF assms(1)]
    by auto
next
  case (Ext_Zbb i)
  then show ?thesis
    using that [of "ext_zbb_callback i"] exec_zbb_refines [of s i insn e] assms arch_of_retire [OF assms(1)]
    by (auto simp del: agrees.simps)
next
  case (Ext_Zicsr i)
  then show ?thesis
    using that [of "ext_zicsr_callback i"] exec_csr_refines [of s i insn a e] assms by auto
next
  case (Ext_F i)
  then show ?thesis
    using that [of "ext_f_callback i"] exec_f_refines [of s i insn e a] assms by (auto simp del: agrees.simps)
qed (use assms in auto)

section \<open>Runs\<close>

lemma step_refines:
  assumes "sim_ok s" "mem_ok (memory s)" "isa_step e (arch_of s) = Some a"
  shows "refines s a (Execute_body e s)"
proof -
  obtain w where w: "isa_load 4 (ip s) (arch_of s) = Some w" "agrees (Decode w) w (arch_of s)"
    "isa_exec e (Decode w) w (arch_of s) = Some a"
    using assms(3) by (auto simp: isa_step_def split: option.splits if_splits)
  have "Fetch e (memory s) (ip s) = Inr w"
    using loads_refine(1) [OF assms(2) w(1)] by (simp add: Fetch_def)
  moreover obtain cb where "GetInsnCallback (Decode w) = Inr cb" "refines s a (cb e w s)"
    using exec_refines [OF assms(1,2) w(2,3)] .
  moreover have "Decode w \<noteq> kInvalid" using w(3) by auto
  ultimately show ?thesis by (simp add: Execute_body_def Let_def)
qed

lemma steps_refine:
  assumes "sim_ok s" "mem_ok (memory s)" "\<not> should_stop s" "isa_steps n e (arch_of s) = Some a"
  shows "\<exists>s'. loop_steps should_stop (Execute_body e) s s' \<and> arch_of s' = a \<and> sim_ok s' \<and>
    mem_ok (memory s') \<and> \<not> should_stop s'"
  using assms
proof (induction n arbitrary: s)
  case 0
  then show ?case by auto
next
  case (Suc n)
  obtain b where b: "isa_step e (arch_of s) = Some b" "isa_steps n e b = Some a"
    using Suc.prems(4) by (auto split: option.splits)
  obtain t where t: "Execute_body e s = Inr t" "arch_of t = b" "should_stop t = should_stop s"
    using step_refines [OF Suc.prems(1,2) b(1)] by (auto simp: refines_def)
  have "keeps s t" using Execute_body_keeps [OF Suc.prems(1) t(1)] .
  then have "sim_ok t" "mem_ok (memory t)"
    using Suc.prems(2) mem_layout_same(1) [of "memory t" "memory s"] by (simp_all add: keeps_def)
  then obtain s' where "loop_steps should_stop (Execute_body e) t s'" "arch_of s' = a"
      "sim_ok s'" "mem_ok (memory s')" "\<not> should_stop s'"
    using Suc.IH [of t] b(2) t(2,3) Suc.prems(3) by auto
  moreover have "loop_step should_stop (Execute_body e) s t"
    using t(1) Suc.prems(3) by (rule iterate [rotated])
  ultimately show ?case
    by (intro exI [of _ s'] conjI) (auto intro: converse_rtranclp_into_rtranclp)
qed

text \<open>
  A program ends at an \<open>ECALL\<close> with the number of the exit call in \<open>a7\<close>; the simulation
  then returns the abstract machine's \<open>a0\<close>.
\<close>

definition isa_exits :: "'w arch \<Rightarrow> bool" where
  "isa_exits a \<longleftrightarrow> X a 17 = 93 \<and>
     (case isa_load 4 (pc a) a of None \<Rightarrow> False | Some w \<Rightarrow> Decode w = Ext_I ECALL)"

lemma exit_step:
  assumes "sim_ok s" "mem_ok (memory s)" "isa_exits (arch_of s)"
  shows "Execute_body e s = Inr (Step (s\<lparr>should_stop := True\<rparr>))"
proof -
  obtain w where w: "isa_load 4 (ip s) (arch_of s) = Some w" "Decode w = Ext_I ECALL" "xreg s 17 = 93"
    using assms(3) by (auto simp: isa_exits_def split: option.splits)
  then have "Fetch e (memory s) (ip s) = Inr w"
    using loads_refine(1) [OF assms(2)] by (simp add: Fetch_def)
  then show ?thesis using w(2,3) assms(1) by (simp add: Execute_body_def ecall_effect)
qed

lemma exit_refines:
  assumes "sim_ok s" "mem_ok (memory s)" "\<not> should_stop s"
    and "isa_steps n e (arch_of s) = Some a" "isa_exits a"
  shows "\<exists>t. Execute e s = Some (Inr (X a 10, t)) \<and> arch_of t = isa_next a"
proof -
  obtain s' where s': "loop_steps should_stop (Execute_body e) s s'" "arch_of s' = a" "sim_ok s'"
    "mem_ok (memory s')" "\<not> should_stop s'"
    using steps_refine [OF assms(1-4)] by blast
  let ?t = "Step (s'\<lparr>should_stop := True\<rparr>)"
  have "Execute_body e s' = Inr ?t" using exit_step [of s' e] s' assms(5) by simp
  then have "loop_steps should_stop (Execute_body e) s ?t"
    using s'(1,5) by (meson iterate rtranclp.rtrancl_into_rtrancl)
  then have "Execute e s = Some (Inr (xreg ?t 10, ?t))"
    unfolding Execute_ends_iff [OF assms(1)] by (intro exI [of _ ?t]) simp
  moreover have "arch_of ?t = isa_next a" "xreg ?t 10 = X a 10"
    using s'(2) by (auto simp: arch_of_def isa_next_def fun_eq_iff)
  ultimately show ?thesis by simp
qed

end
