(* ===== verification/RV_Outcome.thy ===== *)
theory RV_Outcome
  imports RV_Refinement
begin

text \<open>
  What a whole run comes to. The locale \<open>simulated_loop\<close> lifts a simulation of single steps,
  by the iterations of a loop, to the outcomes of runs: where the abstract machine is never
  stuck short of an exit, the loop returns exactly if the abstract machine reaches an exit, and
  runs forever exactly if the abstract machine does. It is interpreted on the architecture of
  \<open>RV_Refinement\<close> and the main loop.
\<close>

section \<open>Runs of an abstract machine\<close>

fun abs_steps :: "('a \<Rightarrow> 'a option) \<Rightarrow> nat \<Rightarrow> 'a \<Rightarrow> 'a option" where
  "abs_steps step 0 a = Some a"
| "abs_steps step (Suc n) a = (case step a of None \<Rightarrow> None | Some b \<Rightarrow> abs_steps step n b)"

text \<open>A state is safe when the machine never gets stuck from it, except at an exit.\<close>

definition abs_safe :: "('a \<Rightarrow> 'a option) \<Rightarrow> ('a \<Rightarrow> bool) \<Rightarrow> 'a \<Rightarrow> bool" where
  "abs_safe step exits a \<longleftrightarrow> (\<forall>n b. abs_steps step n a = Some b \<longrightarrow> exits b \<or> step b \<noteq> None)"

lemma abs_safe_now: "abs_safe step exits a \<Longrightarrow> exits a \<or> step a \<noteq> None"
  unfolding abs_safe_def by (metis abs_steps.simps(1))

lemma abs_safe_step: "abs_safe step exits a \<Longrightarrow> step a = Some b \<Longrightarrow> abs_safe step exits b"
  unfolding abs_safe_def by (metis abs_steps.simps(2) option.simps(5))

lemma abs_steps_fixpoint: "step a = Some a \<Longrightarrow> abs_steps step n a = Some a"
  by (induction n) simp_all

lemma abs_steps_one_more: "abs_steps step n a = Some b \<Longrightarrow> abs_steps step (Suc n) a = step b"
proof (induction n arbitrary: a)
  case 0
  then show ?case by (simp split: option.split)
next
  case (Suc n)
  obtain c where c: "step a = Some c" "abs_steps step n c = Some b"
    using Suc.prems by (auto split: option.splits)
  have "abs_steps step (Suc (Suc n)) a = abs_steps step (Suc n) c"
    by (subst abs_steps.simps(2)) (simp add: c(1) del: abs_steps.simps)
  then show ?case using Suc.IH [OF c(2)] by simp
qed

section \<open>The interface\<close>

locale simulated_loop = invariant_loop stop body finish run inv
  for stop :: "'s \<Rightarrow> bool" and body :: "'s \<Rightarrow> 'e + 's" and finish :: "'s \<Rightarrow> 'e + 'r"
    and run :: "'s \<Rightarrow> ('e + 'r) option" and inv :: "'s \<Rightarrow> bool" +
  fixes abs :: "'s \<Rightarrow> 'a" and step :: "'a \<Rightarrow> 'a option" and exits :: "'a \<Rightarrow> bool"
    and final :: "'a \<Rightarrow> 'e + 'r \<Rightarrow> bool"
  assumes step_simulated: "inv s \<Longrightarrow> \<not> stop s \<Longrightarrow> step (abs s) = Some a \<Longrightarrow>
      \<exists>t. body s = Inr t \<and> abs t = a \<and> \<not> stop t"
    and exit_simulated: "inv s \<Longrightarrow> \<not> stop s \<Longrightarrow> exits (abs s) \<Longrightarrow>
      \<exists>t. body s = Inr t \<and> stop t \<and> final (abs s) (finish t)"
    and exit_stuck: "exits a \<Longrightarrow> step a = None"
begin

lemma steps_simulated:
  assumes "inv s" "\<not> stop s" "abs_steps step n (abs s) = Some a"
  shows "\<exists>t. loop_steps stop body s t \<and> abs t = a \<and> inv t \<and> \<not> stop t"
  using assms
proof (induction n arbitrary: s)
  case 0
  then show ?case by auto
next
  case (Suc n)
  obtain b where b: "step (abs s) = Some b" "abs_steps step n b = Some a"
    using Suc.prems(3) by (auto split: option.splits)
  obtain t where t: "body s = Inr t" "abs t = b" "\<not> stop t"
    using step_simulated [OF Suc.prems(1,2) b(1)] by blast
  then obtain u where "loop_steps stop body t u" "abs u = a" "inv u" "\<not> stop u"
    using Suc.IH [of t] b(2) body_keeps [OF Suc.prems(1,2) t(1)] by blast
  moreover have "loop_step stop body s t" using Suc.prems(2) t(1) by (rule iterate)
  ultimately show ?case by (metis converse_rtranclp_into_rtranclp)
qed

lemma exit_returns:
  assumes "inv s" "\<not> stop s" "abs_steps step n (abs s) = Some a" "exits a"
  shows "\<exists>r. run s = Some r \<and> final a r"
proof -
  obtain t where t: "loop_steps stop body s t" "abs t = a" "inv t" "\<not> stop t"
    using steps_simulated [OF assms(1-3)] by blast
  obtain u where "body t = Inr u" "stop u" "final a (finish u)"
    using exit_simulated [OF t(3,4)] t(2) assms(4) by auto
  then show ?thesis using run_along [OF t(1)] run_step [OF t(4)] run_stop by metis
qed

text \<open>Backwards: the states of a safe run are those of the abstract machine, until it has exited.\<close>

lemma steps_abstract:
  assumes "loop_steps stop body s t" "inv s" "\<not> stop s" "abs_safe step exits (abs s)"
  shows "(\<not> stop t \<and> (\<exists>n. abs_steps step n (abs s) = Some (abs t)) \<and> abs_safe step exits (abs t)) \<or>
    (\<exists>n a. abs_steps step n (abs s) = Some a \<and> exits a)"
  using assms
proof (induction rule: converse_rtranclp_induct)
  case base
  then show ?case by (auto intro: exI [of _ 0])
next
  case (step s u)
  show ?case
  proof (cases "exits (abs s)")
    case True
    then show ?thesis by (metis abs_steps.simps(1))
  next
    case False
    then obtain a where a: "step (abs s) = Some a" using abs_safe_now step.prems(3) by fastforce
    then have u: "abs u = a" "\<not> stop u" "inv u"
      using step_simulated [OF step.prems(1,2) a] step.hyps(1) body_keeps [OF step.prems(1,2)]
      by (auto simp: loop_step_iff)
    have more: "abs_steps step (Suc n) (abs s) = abs_steps step n (abs u)" for n
      using a u(1) by simp
    show ?thesis using step.IH [OF u(3,2)] abs_safe_step [OF step.prems(3) a] u(1) more by metis
  qed
qed

theorem outcome:
  assumes "inv s" "\<not> stop s" "abs_safe step exits (abs s)"
  shows "run s = None \<longleftrightarrow> (\<forall>n. abs_steps step n (abs s) \<noteq> None)"
    and "run s = Some r \<Longrightarrow> \<exists>n a. abs_steps step n (abs s) = Some a \<and> exits a \<and> final a r"
proof -
  have returns: "\<exists>n a. abs_steps step n (abs s) = Some a \<and> exits a" if r: "run s = Some r" for r
  proof -
    obtain t where t: "loop_steps stop body s t" "inv t" "loop_ends stop body finish t r"
      using run_last_state [OF r assms(1)] by blast
    have "\<not> abs_safe step exits (abs t)" if "\<not> stop t" "\<not> exits (abs t)"
      using that step_simulated [OF t(2) that(1)] abs_safe_now [of step exits "abs t"] t(3)
      by (auto simp: loop_ends_def)
    then show ?thesis using steps_abstract [OF t(1) assms] by blast
  qed
  have stuck: "abs_steps step (Suc n) (abs s) = None" if "abs_steps step n (abs s) = Some a" "exits a" for n a
    using abs_steps_one_more [OF that(1)] exit_stuck [OF that(2)] by simp
  show "run s = None \<longleftrightarrow> (\<forall>n. abs_steps step n (abs s) \<noteq> None)"
  proof
    assume none: "run s = None"
    have no_exit: "\<not> exits a" if "abs_steps step n (abs s) = Some a" for n a
      using exit_returns [OF assms(1,2) that] none by auto
    have "abs_steps step n (abs s) \<noteq> None" for n
    proof (induction n)
      case (Suc n)
      then obtain a where a: "abs_steps step n (abs s) = Some a" by blast
      then have "step a \<noteq> None" using assms(3) no_exit [OF a] by (auto simp: abs_safe_def)
      then show ?case using abs_steps_one_more [OF a] by simp
    qed simp
    then show "\<forall>n. abs_steps step n (abs s) \<noteq> None" ..
  next
    assume "\<forall>n. abs_steps step n (abs s) \<noteq> None"
    then show "run s = None" using returns stuck by (cases "run s") metis+
  qed
  show "\<exists>n a. abs_steps step n (abs s) = Some a \<and> exits a \<and> final a r" if "run s = Some r"
    using returns [OF that] exit_returns [OF assms(1,2)] that by fastforce
qed

end

section \<open>The simulator as the architecture\<close>

lemma isa_steps_abs_steps: "isa_steps n e a = abs_steps (isa_step e) n a"
  by (induction n arbitrary: a) (simp_all split: option.split)

definition isa_safe :: "'w env \<Rightarrow> 'w arch \<Rightarrow> bool" where
  "isa_safe e a \<longleftrightarrow> (\<forall>n b. isa_steps n e a = Some b \<longrightarrow> isa_exits b \<or> isa_step e b \<noteq> None)"

lemma isa_safe_abs_safe: "isa_safe e a \<longleftrightarrow> abs_safe (isa_step e) isa_exits a"
  by (simp add: isa_safe_def abs_safe_def isa_steps_abs_steps)

definition runnable :: "'w machine \<Rightarrow> bool" where
  "runnable s \<longleftrightarrow> sim_ok s \<and> mem_ok (memory s)"

lemma runnable_keeps: "runnable s \<Longrightarrow> Execute_body e s = Inr t \<Longrightarrow> runnable t"
  using Execute_body_keeps [of s e t] mem_layout_same(1) [of "memory t" "memory s"]
  by (simp add: runnable_def keeps_def)

lemma exit_is_stuck: "isa_exits a \<Longrightarrow> isa_step e a = None"
  by (auto simp: isa_exits_def isa_step_def isa_ecall_def split: option.splits)

text \<open>The status of the run and the state it leaves are those of the architecture after the exit call.\<close>

definition exit_result :: "'w arch \<Rightarrow> error + u32 \<times> 'w machine \<Rightarrow> bool" where
  "exit_result a r \<longleftrightarrow> (\<exists>t. r = Inr (X a 10, t) \<and> arch_of t = isa_next a \<and> should_stop t)"

interpretation runs: simulated_loop should_stop "Execute_body e" Execute_result "Execute e" runnable
  arch_of "isa_step e" isa_exits exit_result
  for e :: "'w env"
proof unfold_locales
  fix s :: "'w machine" and t
  assume "runnable s" "Execute_body e s = Inr t"
  then show "runnable t" by (rule runnable_keeps)
next
  fix s :: "'w machine" and a
  assume "runnable s" "\<not> should_stop s" "isa_step e (arch_of s) = Some a"
  then show "\<exists>t. Execute_body e s = Inr t \<and> arch_of t = a \<and> \<not> should_stop t"
    using step_refines [of s e a] by (auto simp: runnable_def refines_def)
next
  fix s :: "'w machine"
  assume s: "runnable s" "\<not> should_stop s" "isa_exits (arch_of s)"
  let ?t = "Step (s\<lparr>should_stop := True\<rparr>)"
  have ok: "sim_ok s" using s(1) by (simp add: runnable_def)
  have "Execute_body e s = Inr ?t" using exit_step [of s e] s by (simp add: runnable_def)
  moreover have "Execute_result ?t = Inr (xreg s 10, ?t)"
    using ok by (simp add: Execute_result_def xreg_def)
  moreover have "arch_of ?t = isa_next (arch_of s)"
    by (simp add: arch_of_def isa_next_def fun_eq_iff xreg_def freg_def)
  ultimately show "\<exists>t. Execute_body e s = Inr t \<and> should_stop t \<and> exit_result (arch_of s) (Execute_result t)"
    by (intro exI [of _ ?t]) (simp add: exit_result_def)
next
  fix a :: "'w arch"
  assume "isa_exits a"
  then show "isa_step e a = None" by (rule exit_is_stuck)
qed

end
