(* ===== verification/RV_Safety.thy ===== *)
theory RV_Safety
  imports RV_Invariants
begin

text \<open>
  Where the simulator runs into undefined behaviour. \<open>is_ub\<close> is a result that is undefined
  behaviour, \<open>straddles\<close> an access that starts in a segment and leaves its data, \<open>ub_copy\<close> a
  buffer of a system call with such a byte, and \<open>ub_operands\<close> the operands of an instruction
  for which it is undefined. The lemmas show, extension by extension and for one iteration of
  the main loop, that these descriptions are exact on well-formed states.
\<close>

section \<open>Accesses\<close>

definition is_ub :: "error + 'a \<Rightarrow> bool" where
  "is_ub m \<longleftrightarrow> (\<exists>u. m = Inl (UndefinedBehaviour u))"

lemma is_ub_simps [simp]:
  "\<not> is_ub (Inr x)" "is_ub (ub u)" "is_ub (Inl (UndefinedBehaviour u))"
  "\<not> is_ub (Inl (AssertFailed w))" "\<not> is_ub (Inl (TraceableException w))"
  by (simp_all add: is_ub_def ub_def)

lemma is_ub_then [simp]:
  "is_ub (and_then m f) \<longleftrightarrow> is_ub m \<or> (\<exists>x. m = Inr x \<and> is_ub (f x))"
  by (cases m) (auto simp: is_ub_def)

text \<open>An access that a segment answers but whose bytes are not all in that segment's data.\<close>

definition straddles :: "MemorySegm list \<Rightarrow> u32 \<Rightarrow> nat \<Rightarrow> bool" where
  "straddles ss a n \<longleftrightarrow>
     (case find_segm ss a of None \<Rightarrow> False
      | Some segm \<Rightarrow> length (data segm) < unat (a - start_addr segm) + n)"

lemma cassert_defined [simp]: "\<not> is_ub (cassert c what b)"
  by (simp add: cassert_def)

lemma undefined_load:
  "is_ub (Load_loop c ss a :: error + 'a::len word) \<longleftrightarrow> straddles ss a (LENGTH('a) div 8)"
  by (auto simp: Load_loop_eq straddles_def memcpy_from_def split: option.splits)

lemma undefined_store:
  "is_ub (Store_loop c ss a (v :: 'a::len word)) \<longleftrightarrow> straddles ss a (LENGTH('a) div 8)"
proof (induction ss)
  case Nil
  then show ?case by (simp add: straddles_def cassert_def)
next
  case (Cons s ss)
  then show ?case
    by (cases "IsAddrInSegment a s") (auto simp: straddles_def memcpy_to_def Let_def)
qed

lemma undefined_accesses:
  "is_ub (LoadU32 c m a) \<longleftrightarrow> straddles (segms m) a 4" "is_ub (LoadU16 c m a) \<longleftrightarrow> straddles (segms m) a 2"
  "is_ub (LoadU8 c m a) \<longleftrightarrow> straddles (segms m) a 1"
  "is_ub (StoreU32 c m a v32) \<longleftrightarrow> straddles (segms m) a 4"
  "is_ub (StoreU16 c m a v16) \<longleftrightarrow> straddles (segms m) a 2"
  "is_ub (StoreU8 c m a v8) \<longleftrightarrow> straddles (segms m) a 1"
  by (simp_all add: access_defs undefined_load undefined_store)

section \<open>Instructions\<close>

fun ub_ext_i :: "ext_i_mnem \<Rightarrow> u32 \<Rightarrow> 'm rvsim_scheme \<Rightarrow> bool" where
  "ub_ext_i SLL insn s \<longleftrightarrow> 32 \<le> unat (rs2_val insn s)"
| "ub_ext_i SRL insn s \<longleftrightarrow> 32 \<le> unat (rs2_val insn s)"
| "ub_ext_i LB insn s \<longleftrightarrow> straddles (segms (memory s)) (rs1_val insn s + ImmI insn) 1"
| "ub_ext_i LBU insn s \<longleftrightarrow> straddles (segms (memory s)) (rs1_val insn s + ImmI insn) 1"
| "ub_ext_i LH insn s \<longleftrightarrow> straddles (segms (memory s)) (rs1_val insn s + ImmI insn) 2"
| "ub_ext_i LHU insn s \<longleftrightarrow> straddles (segms (memory s)) (rs1_val insn s + ImmI insn) 2"
| "ub_ext_i LW insn s \<longleftrightarrow> straddles (segms (memory s)) (rs1_val insn s + ImmI insn) 4"
| "ub_ext_i SB insn s \<longleftrightarrow> straddles (segms (memory s)) (rs1_val insn s + ImmS insn) 1"
| "ub_ext_i SH insn s \<longleftrightarrow> straddles (segms (memory s)) (rs1_val insn s + ImmS insn) 2"
| "ub_ext_i SW insn s \<longleftrightarrow> straddles (segms (memory s)) (rs1_val insn s + ImmS insn) 4"
| "ub_ext_i _ insn s \<longleftrightarrow> False"

lemma ext_i_undefined:
  "sim_ok s \<Longrightarrow> m \<noteq> ECALL \<Longrightarrow> is_ub (ext_i_callback m e insn s) \<longleftrightarrow> ub_ext_i m insn s"
  by (cases m) (simp_all add: ext_i_effects shl_def shr_def undefined_accesses
      CallbackFENCE_def CallbackFENCE_I_def CallbackEBREAK_def not_less)

lemma ext_m_undefined:
  "sim_ok s \<Longrightarrow> is_ub (ext_m_callback m e insn s) \<longleftrightarrow>
    m = MULH \<and> 2 ^ 63 \<le> uint (rs1_val insn s) * uint (rs2_val insn s)"
  by (cases m) (simp_all add: ext_m_effects not_less del: isa_m.simps)

lemma ext_zbb_undefined:
  "sim_ok s \<Longrightarrow> is_ub (ext_zbb_callback m e insn s) \<longleftrightarrow>
    (m = ROL \<or> m = ROR) \<and> unat (rs2_val insn s) mod 32 = 0 \<or> m = RORI \<and> Shamt insn = 0"
  by (cases m) (simp_all add: ext_zbb_effects del: isa_zbb.simps)

lemma ext_zicsr_defined: "sim_ok s \<Longrightarrow> \<not> is_ub (ext_zicsr_callback m e insn s)"
  by (cases "CSR_ToEnum (unat (ImmCSR insn))"; cases m) (simp_all add: ext_zicsr_effects del: isa_csr.simps)

lemma defined_get:
  "sim_ok t \<Longrightarrow> i < 32 \<Longrightarrow> (\<And>v. \<not> is_ub (f v)) \<Longrightarrow> \<not> is_ub (and_then (GetFReg c i t) f)"
  "sim_ok t \<Longrightarrow> i < 32 \<Longrightarrow> (\<And>v. \<not> is_ub (f v)) \<Longrightarrow> \<not> is_ub (and_then (GetXReg c i t) f)"
  "(\<And>r. \<not> is_ub (g r)) \<Longrightarrow> \<not> is_ub (and_then (GetRM c (Rm insn) t) g)"
  by simp_all

lemma defined_put:
  "sim_ok t \<Longrightarrow> i < 32 \<Longrightarrow> (\<And>u. sim_ok u \<Longrightarrow> \<not> is_ub (f u)) \<Longrightarrow> \<not> is_ub (and_then (SetFReg c i v t) f)"
  "sim_ok t \<Longrightarrow> i < 32 \<Longrightarrow> (\<And>u. sim_ok u \<Longrightarrow> \<not> is_ub (f u)) \<Longrightarrow> \<not> is_ub (and_then (SetXReg c i v t) f)"
  "(\<And>u. \<not> is_ub (f u)) \<Longrightarrow> \<not> is_ub (and_then (SoftFloatSetFExcp e t) f)"
  by simp_all

lemma defined_mode:
  "sim_ok t \<Longrightarrow> (\<And>code u. sim_ok u \<Longrightarrow> \<not> is_ub (f code u)) \<Longrightarrow>
    \<not> is_ub (and_then (SoftFloatSetRM e rm t) (\<lambda>(code, u). f code u))"
  by (cases rm) (simp_all add: SoftFloatSetRM_def cassert_def)

lemma defined_call:
  assumes "op_frames op" "sim_ok t" "\<And>v u. sim_ok u \<Longrightarrow> \<not> is_ub (f v u)"
  shows "\<not> is_ub (case op t of (v, u) \<Rightarrow> f v u)"
proof (cases "op t")
  case (Pair v u)
  then have "frames t u" using assms(1) by (metis op_frames_def snd_conv)
  then show ?thesis using assms(2,3) Pair by (simp add: frames_def)
qed

lemma clear_ok: "sim_ok s \<Longrightarrow> sim_ok (SoftFloatClearFExcp s)"
  by simp

lemmas defined_intros = defined_get defined_put defined_mode defined_call clear_ok reg_fields_less
  is_ub_simps(1)

lemma templates_defined:
  assumes "sim_ok s"
  shows "(\<And>a b. op_frames (f2 a b)) \<Longrightarrow> \<not> is_ub (ExecuteRRRFBinOp f2 e insn s)"
    and "(\<And>a b d. op_frames (f3 a b d)) \<Longrightarrow> \<not> is_ub (ExecuteRRRRFTernOp f3 e insn s)"
    and "(\<And>a b. op_frames (fc a b)) \<Longrightarrow> \<not> is_ub (ExecuteRRRCmpOp fc e insn s)"
  unfolding ExecuteRRRFBinOp_def ExecuteRRRRFTernOp_def ExecuteRRRCmpOp_def Let_def
  by (intro defined_intros assms | assumption)+

lemma direct_defined:
  assumes "sim_ok s"
  shows "\<not> is_ub (CallbackFSQRT_S e insn s)" "\<not> is_ub (CallbackFCVT_W_S e insn s)"
    "\<not> is_ub (CallbackFCVT_WU_S e insn s)" "\<not> is_ub (CallbackFCVT_S_W e insn s)"
    "\<not> is_ub (CallbackFCVT_S_WU e insn s)"
  unfolding CallbackFSQRT_S_def CallbackFCVT_W_S_def CallbackFCVT_WU_S_def CallbackFCVT_S_W_def
    CallbackFCVT_S_WU_def Let_def
  by (intro defined_intros op_frames_softfloat assms | assumption)+

lemma simple_defined:
  assumes "sim_ok s"
  shows "\<not> is_ub (CallbackFSGNJ_S e insn s)" "\<not> is_ub (CallbackFSGNJN_S e insn s)"
    "\<not> is_ub (CallbackFSGNJX_S e insn s)" "\<not> is_ub (CallbackFMV_X_W e insn s)"
    "\<not> is_ub (CallbackFMV_W_X e insn s)" "\<not> is_ub (CallbackFCLASS_S e insn s)"
    "\<not> is_ub (CallbackFMIN_S e insn s)" "\<not> is_ub (CallbackFMAX_S e insn s)"
  using assms
  by (auto simp: ext_f_sign_effect ext_f_move_effect ext_f_class_effect
      CallbackFMIN_S_def CallbackFMAX_S_def f32_min_def f32_max_def softfloat_call_def
      split: prod.splits)

lemma ext_f_undefined:
  assumes "sim_ok s"
  shows "is_ub (ext_f_callback m e insn s) \<longleftrightarrow>
    m = FLW \<and> straddles (segms (memory s)) (rs1_val insn s + ImmI insn) 4 \<or>
    m = FSW \<and> straddles (segms (memory s)) (rs1_val insn s + ImmS insn) 4"
  using assms
  by (cases m) (simp_all add: ext_f_memory_effect undefined_accesses direct_defined simple_defined templates_defined
      CallbackFADD_S_def CallbackFSUB_S_def CallbackFMUL_S_def CallbackFDIV_S_def
      CallbackFMADD_S_def CallbackFMSUB_S_def CallbackFNMSUB_S_def CallbackFNMADD_S_def
      CallbackFLE_S_def CallbackFLT_S_def CallbackFEQ_S_def)

section \<open>System calls\<close>

text \<open>
  A copy of \<open>n\<close> bytes from or to the guest's addresses from \<open>a\<close> on, with a host buffer of
  \<open>len\<close> bytes: it is undefined at the first byte that is outside the buffer or straddles,
  unless an assertion fails before.
\<close>

definition ub_copy :: "'z config_scheme \<Rightarrow> MemorySegm list \<Rightarrow> u32 \<Rightarrow> nat \<Rightarrow> nat \<Rightarrow> bool" where
  "ub_copy c ss a len n \<longleftrightarrow>
     (\<exists>i<n. (len \<le> i \<or> straddles ss (a + of_nat i) 1) \<and>
       (\<forall>j<i. ndebug c \<or> find_segm ss (a + of_nat j) \<noteq> None))"

lemma straddles_layout: "layout ss = layout ts \<Longrightarrow> straddles ss a n \<longleftrightarrow> straddles ts a n"
  using find_segm_layout [of ss ts a] by (auto simp: straddles_def split: option.splits)

lemma find_segm_None_layout: "layout ss = layout ts \<Longrightarrow> find_segm ss a = None \<longleftrightarrow> find_segm ts a = None"
  using find_segm_layout [of ss ts a] by (auto split: option.splits)

lemma byte_load_succeeds:
  "(\<exists>b. LoadU8 c m a = Inr b) \<longleftrightarrow> \<not> straddles (segms m) a 1 \<and> (ndebug c \<or> find_segm (segms m) a \<noteq> None)"
  by (auto simp: LoadU8_def Load_loop_eq straddles_def memcpy_from_def cassert_def ub_def split: option.splits)

lemma byte_store_succeeds:
  "(\<exists>m'. StoreU8 c m a v = Inr m') \<longleftrightarrow> \<not> straddles (segms m) a 1 \<and> (ndebug c \<or> find_segm (segms m) a \<noteq> None)"
proof -
  have "(\<exists>ss'. Store_loop c ss a v = Inr ss') \<longleftrightarrow> \<not> straddles ss a 1 \<and> (ndebug c \<or> find_segm ss a \<noteq> None)" for ss
  proof (induction ss)
    case Nil
    then show ?case by (simp add: straddles_def cassert_def)
  next
    case (Cons s ss)
    then show ?case
      by (cases "IsAddrInSegment a s"; cases "Store_loop c ss a v")
        (auto simp: straddles_def memcpy_to_def ub_def Let_def)
  qed
  moreover have "(\<exists>m'. StoreU8 c m a v = Inr m') \<longleftrightarrow> (\<exists>ss'. Store_loop c (segms m) a v = Inr ss')"
    by (cases "Store_loop c (segms m) a v") (simp_all add: StoreU8_def Store_with_def)
  ultimately show ?thesis by simp
qed

text \<open>A copy is undefined in its first byte, or that succeeds and the rest is.\<close>

lemma ub_copy_Suc:
  "ub_copy c ss a len (Suc n) \<longleftrightarrow>
    len = 0 \<or> straddles ss a 1 \<or> (ndebug c \<or> find_segm ss a \<noteq> None) \<and> ub_copy c ss (a + 1) (len - 1) n"
  unfolding ub_copy_def Ex_less_Suc2 All_less_Suc2
  by (auto simp: add.assoc)

lemma ub_read_range:
  "n \<le> len \<Longrightarrow> is_ub (read_range (LoadU8 c) m a n) \<longleftrightarrow> ub_copy c (segms m) a len n"
proof (induction n arbitrary: a len)
  case 0
  then show ?case by (simp add: ub_copy_def)
next
  case (Suc n)
  have "is_ub (read_range (LoadU8 c) m a (Suc n)) \<longleftrightarrow>
      is_ub (LoadU8 c m a) \<or> (\<exists>b. LoadU8 c m a = Inr b) \<and> is_ub (read_range (LoadU8 c) m (a + 1) n)"
    by auto
  then show ?case
    using Suc.IH [of "len - 1" "a + 1"] Suc.prems
    by (auto simp: ub_copy_Suc undefined_accesses byte_load_succeeds)
qed

lemma ub_CopyHostToGuest:
  "is_ub (CopyHostToGuest c m a buf n) \<longleftrightarrow> ub_copy c (segms m) a (length buf) n"
proof -
  have "is_ub (CopyHostToGuest_loop c m' a buf k n) \<longleftrightarrow> ub_copy c (segms m) (a + of_nat k) (length buf - k) n"
    if "layout (segms m') = layout (segms m)" "k \<le> length buf" for k m'
    using that
  proof (induction n arbitrary: m' k)
    case 0
    then show ?case by (simp add: ub_copy_def)
  next
    case (Suc n)
    let ?a = "a + of_nat k"
    note same = straddles_layout [OF Suc.prems(1)] find_segm_None_layout [OF Suc.prems(1)]
    show ?case
    proof (cases "k < length buf \<and> (\<exists>m''. StoreU8 c m' ?a (buf ! k) = Inr m'')")
      case True
      then obtain m'' where m'': "StoreU8 c m' ?a (buf ! k) = Inr m''" by blast
      then have "layout (segms m'') = layout (segms m)"
        using Suc.prems(1) Store_with_layout by (metis StoreU8_def)
      then have "is_ub (CopyHostToGuest_loop c m'' a buf (Suc k) n) \<longleftrightarrow>
          ub_copy c (segms m) (a + of_nat (Suc k)) (length buf - Suc k) n"
        using True by (intro Suc.IH) simp_all
      moreover have "\<not> straddles (segms m) ?a 1" "ndebug c \<or> find_segm (segms m) ?a \<noteq> None"
        using m'' byte_store_succeeds [of c m' ?a "buf ! k"] same by auto
      ultimately show ?thesis using True m'' by (simp add: ub_copy_Suc add.assoc add.commute [of 1])
    next
      case False
      then show ?thesis
        using byte_store_succeeds [of c m' ?a "buf ! k"] same Suc.prems(2)
        by (auto simp: ub_copy_Suc undefined_accesses array_get_def)
    qed
  qed
  from this [of m 0] show ?thesis by (simp add: CopyHostToGuest_def)
qed

text \<open>The read call copies what the host returned, the write call the guest's buffer.\<close>

definition ub_syscall :: "'w env \<Rightarrow> 'w machine \<Rightarrow> bool" where
  "ub_syscall e s \<longleftrightarrow>
     (if xreg s 17 = 63 then
        (case host_read e (xreg s 10) (replicate (unat (xreg s 12)) 0) (host s) of (rc, buf, w) \<Rightarrow>
           0 \<le> sint rc \<and> ub_copy e (segms (memory s)) (xreg s 11) (length buf) (unat rc))
      else xreg s 17 = 64 \<and>
        ub_copy e (segms (memory s)) (xreg s 11) (unat (xreg s 12)) (unat (xreg s 12)))"

lemma ecall_undefined:
  assumes "sim_ok s"
  shows "is_ub (CallbackECALL e insn s) \<longleftrightarrow> ub_syscall e s"
proof -
  obtain rc buf w where h: "host_read e (xreg s 10) (replicate (unat (xreg s 12)) 0) (host s) = (rc, buf, w)"
    by (metis prod.exhaust)
  have "\<not> is_ub (case p of (wc, w) \<Rightarrow> Inr (f wc w))" for p :: "u64 \<times> 'a" and f :: "u64 \<Rightarrow> 'a \<Rightarrow> 'a machine"
    by (cases p) simp
  then show ?thesis
    using assms
    by (auto simp: ecall_effect sys_read_effect [OF assms h] sys_write_effect ub_syscall_def h
        ub_CopyHostToGuest ub_read_range [OF order_refl] not_less Let_def)
qed

section \<open>Iterations\<close>

text \<open>The operands for which an instruction is undefined.\<close>

fun ub_operands :: "'w env \<Rightarrow> InsnMnemonic \<Rightarrow> u32 \<Rightarrow> 'w machine \<Rightarrow> bool" where
  "ub_operands e (Ext_I m) insn s \<longleftrightarrow> (if m = ECALL then ub_syscall e s else ub_ext_i m insn s)"
| "ub_operands e (Ext_M m) insn s \<longleftrightarrow>
     m = MULH \<and> 2 ^ 63 \<le> uint (rs1_val insn s) * uint (rs2_val insn s)"
| "ub_operands e (Ext_Zbb m) insn s \<longleftrightarrow>
     (m = ROL \<or> m = ROR) \<and> unat (rs2_val insn s) mod 32 = 0 \<or> m = RORI \<and> Shamt insn = 0"
| "ub_operands e (Ext_F m) insn s \<longleftrightarrow>
     m = FLW \<and> straddles (segms (memory s)) (rs1_val insn s + ImmI insn) 4 \<or>
     m = FSW \<and> straddles (segms (memory s)) (rs1_val insn s + ImmS insn) 4"
| "ub_operands e _ insn s \<longleftrightarrow> False"

lemma callback_undefined:
  assumes "sim_ok s" "GetInsnCallback m = Inr cb"
  shows "is_ub (cb e insn s) \<longleftrightarrow> ub_operands e m insn s"
proof (cases m)
  case (Ext_I i)
  then show ?thesis
    using assms(2) ext_i_undefined [OF assms(1)] ecall_undefined [OF assms(1)] by (cases "i = ECALL") auto
next
  case (Ext_M i)
  then show ?thesis using assms(2) ext_m_undefined [OF assms(1), of i e insn] by auto
next
  case (Ext_Zbb i)
  then show ?thesis using assms(2) ext_zbb_undefined [OF assms(1), of i e insn] by auto
next
  case (Ext_Zicsr i)
  then show ?thesis using assms(2) ext_zicsr_defined [OF assms(1), of i e insn] by auto
next
  case (Ext_F i)
  then show ?thesis using assms(2) ext_f_undefined [OF assms(1), of i e insn] by auto
qed (use assms(2) in simp_all)

lemma Execute_body_undefined:
  assumes "sim_ok s"
  shows "is_ub (Execute_body e s) \<longleftrightarrow>
    (case Fetch e (memory s) (ip s) of
       Inl _ \<Rightarrow> straddles (segms (memory s)) (ip s) 4
     | Inr w \<Rightarrow> ub_operands e (Decode w) w s)"
proof (cases "Fetch e (memory s) (ip s)")
  case (Inl err)
  then show ?thesis
    using undefined_accesses(1) [of e "memory s" "ip s"] by (simp add: Execute_body_def Fetch_def is_ub_def)
next
  case (Inr w)
  show ?thesis
  proof (cases "Decode w = kInvalid")
    case True
    then show ?thesis using Inr by (simp add: Execute_body_def)
  next
    case False
    then obtain cb :: "'a callback_env" where "GetInsnCallback (Decode w) = Inr cb"
      using Decode_not_kCount [of w] by (cases "Decode w") auto
    then show ?thesis using Inr False callback_undefined [OF assms] by (simp add: Execute_body_def)
  qed
qed

end
