(* ===== verification/RV_Assembler.thy ===== *)
theory RV_Assembler
  imports RV_Decode RV_Insn
begin

text \<open>
  The opcodes and formats of the manual as an assembler and its inverse, a disassembler made of
  the code's decoder and field readers. The round trips show that the decoder together with the
  readers the callbacks use loses no bit of an instruction and reads each operand where the
  format puts it, for all 99 instructions.
\<close>

unbundle bit_operations_syntax

section \<open>Formats and operands\<close>

text \<open>
  The operands by format: registers, immediates as 32-bit values, and for floating point the
  third source register and the rounding mode: in the order \<open>rd\<close>, \<open>rs1\<close>, \<open>rs2\<close>, \<open>rs3\<close>,
  then the immediate, the number of the control and status register or the rounding mode. The shift amounts of the immediate shifts are in
  the place of \<open>rs2\<close>. \<open>Op_word\<close> is an instruction without operands.
\<close>

datatype operands =
    Op_R u32 u32 u32
  | Op_R_rm u32 u32 u32 u32
  | Op_R4 u32 u32 u32 u32 u32
  | Op_unary u32 u32
  | Op_unary_rm u32 u32 u32
  | Op_I u32 u32 u32
  | Op_S u32 u32 u32
  | Op_B u32 u32 u32
  | Op_U u32 u32
  | Op_J u32 u32
  | Op_csr u32 u32 u32
  | Op_word

datatype fmt = F_R | F_R_rm | F_R4 | F_unary | F_unary_rm | F_I | F_S | F_B | F_U | F_J | F_csr | F_word

fun fmt_of_operands :: "operands \<Rightarrow> fmt" where
  "fmt_of_operands (Op_R _ _ _) = F_R"
| "fmt_of_operands (Op_R_rm _ _ _ _) = F_R_rm"
| "fmt_of_operands (Op_R4 _ _ _ _ _) = F_R4"
| "fmt_of_operands (Op_unary _ _) = F_unary"
| "fmt_of_operands (Op_unary_rm _ _ _) = F_unary_rm"
| "fmt_of_operands (Op_I _ _ _) = F_I"
| "fmt_of_operands (Op_S _ _ _) = F_S"
| "fmt_of_operands (Op_B _ _ _) = F_B"
| "fmt_of_operands (Op_U _ _) = F_U"
| "fmt_of_operands (Op_J _ _) = F_J"
| "fmt_of_operands (Op_csr _ _ _) = F_csr"
| "fmt_of_operands Op_word = F_word"

text \<open>The format of each instruction, from the manual's listings.\<close>

fun fmt_i :: "ext_i_mnem \<Rightarrow> fmt" where
  "fmt_i m =
     (if m \<in> {LUI, AUIPC} then F_U
      else if m = JAL then F_J
      else if m \<in> {BEQ, BNE, BLT, BGE, BLTU, BGEU} then F_B
      else if m \<in> {SB, SH, SW} then F_S
      else if m \<in> {ECALL, EBREAK} then F_word
      else if m \<in> {JALR, LB, LH, LW, LBU, LHU, ADDI, SLTI, SLTIU, XORI, ORI, ANDI, FENCE, FENCE_I} then F_I
      else F_R)"

fun fmt_zbb :: "ext_zbb_mnem \<Rightarrow> fmt" where
  "fmt_zbb m = (if m \<in> {SEXT_B, SEXT_H, CLZ, CTZ, CPOP, REV8, ORC_B} then F_unary else F_R)"

fun fmt_f :: "ext_f_mnem \<Rightarrow> fmt" where
  "fmt_f m =
     (if m = FLW then F_I
      else if m = FSW then F_S
      else if m \<in> {FMADD_S, FMSUB_S, FNMSUB_S, FNMADD_S} then F_R4
      else if m \<in> {FADD_S, FSUB_S, FMUL_S, FDIV_S} then F_R_rm
      else if m \<in> {FSQRT_S, FCVT_W_S, FCVT_WU_S, FCVT_S_W, FCVT_S_WU} then F_unary_rm
      else if m \<in> {FMV_X_W, FCLASS_S, FMV_W_X} then F_unary
      else F_R)"

fun fmt_of :: "InsnMnemonic \<Rightarrow> fmt" where
  "fmt_of (Ext_I m) = fmt_i m"
| "fmt_of (Ext_M m) = F_R"
| "fmt_of (Ext_Zbb m) = fmt_zbb m"
| "fmt_of (Ext_Zicsr m) = F_csr"
| "fmt_of (Ext_F m) = fmt_f m"
| "fmt_of _ = F_word"

text \<open>The bits of an instruction that its format does not leave to the operands.\<close>

fun fixed_bits :: "fmt \<Rightarrow> u32" where
  "fixed_bits F_R = 0xfe00707f"
| "fixed_bits F_R_rm = 0xfe00007f"
| "fixed_bits F_R4 = 0x0600007f"
| "fixed_bits F_unary = 0xfff0707f"
| "fixed_bits F_unary_rm = 0xfff0007f"
| "fixed_bits F_I = 0x0000707f"
| "fixed_bits F_S = 0x0000707f"
| "fixed_bits F_B = 0x0000707f"
| "fixed_bits F_U = 0x0000007f"
| "fixed_bits F_J = 0x0000007f"
| "fixed_bits F_csr = 0x0000707f"
| "fixed_bits F_word = 0xffffffff"

text \<open>
  The fixed bits themselves, from the manual's listings and not from the code's tables: the major
  opcode, the minor opcodes \<open>funct3\<close> and \<open>funct7\<close>, and for the instructions with one source
  register the twelve bits in the place of the immediate, or the second source register's.
\<close>

definition insn_bits :: "u32 \<Rightarrow> u32 \<Rightarrow> u32 \<Rightarrow> u32" where
  "insn_bits opcode funct3 funct7 = opcode OR push_bit 12 funct3 OR push_bit 25 funct7"

fun bits_i :: "ext_i_mnem \<Rightarrow> u32" where
  "bits_i LUI = insn_bits 0x37 0 0x00"
| "bits_i AUIPC = insn_bits 0x17 0 0x00"
| "bits_i JAL = insn_bits 0x6f 0 0x00"
| "bits_i JALR = insn_bits 0x67 0 0x00"
| "bits_i BEQ = insn_bits 0x63 0 0x00"
| "bits_i BNE = insn_bits 0x63 1 0x00"
| "bits_i BLT = insn_bits 0x63 4 0x00"
| "bits_i BGE = insn_bits 0x63 5 0x00"
| "bits_i BLTU = insn_bits 0x63 6 0x00"
| "bits_i BGEU = insn_bits 0x63 7 0x00"
| "bits_i LB = insn_bits 0x03 0 0x00"
| "bits_i LH = insn_bits 0x03 1 0x00"
| "bits_i LW = insn_bits 0x03 2 0x00"
| "bits_i LBU = insn_bits 0x03 4 0x00"
| "bits_i LHU = insn_bits 0x03 5 0x00"
| "bits_i SB = insn_bits 0x23 0 0x00"
| "bits_i SH = insn_bits 0x23 1 0x00"
| "bits_i SW = insn_bits 0x23 2 0x00"
| "bits_i ADDI = insn_bits 0x13 0 0x00"
| "bits_i SLTI = insn_bits 0x13 2 0x00"
| "bits_i SLTIU = insn_bits 0x13 3 0x00"
| "bits_i XORI = insn_bits 0x13 4 0x00"
| "bits_i ORI = insn_bits 0x13 6 0x00"
| "bits_i ANDI = insn_bits 0x13 7 0x00"
| "bits_i SLLI = insn_bits 0x13 1 0x00"
| "bits_i SRLI = insn_bits 0x13 5 0x00"
| "bits_i SRAI = insn_bits 0x13 5 0x20"
| "bits_i ADD = insn_bits 0x33 0 0x00"
| "bits_i SUB = insn_bits 0x33 0 0x20"
| "bits_i SLL = insn_bits 0x33 1 0x00"
| "bits_i SLT = insn_bits 0x33 2 0x00"
| "bits_i SLTU = insn_bits 0x33 3 0x00"
| "bits_i XOR_insn = insn_bits 0x33 4 0x00"
| "bits_i SRL = insn_bits 0x33 5 0x00"
| "bits_i SRA = insn_bits 0x33 5 0x20"
| "bits_i OR_insn = insn_bits 0x33 6 0x00"
| "bits_i AND_insn = insn_bits 0x33 7 0x00"
| "bits_i FENCE = insn_bits 0x0f 0 0x00"
| "bits_i FENCE_I = insn_bits 0x0f 1 0x00"
| "bits_i ECALL = insn_bits 0x73 0 0x00"
| "bits_i EBREAK = 0x00100073"

fun bits_m :: "ext_m_mnem \<Rightarrow> u32" where
  "bits_m MUL = insn_bits 0x33 0 0x01"
| "bits_m MULH = insn_bits 0x33 1 0x01"
| "bits_m MULHSU = insn_bits 0x33 2 0x01"
| "bits_m MULHU = insn_bits 0x33 3 0x01"
| "bits_m DIV = insn_bits 0x33 4 0x01"
| "bits_m DIVU = insn_bits 0x33 5 0x01"
| "bits_m REM = insn_bits 0x33 6 0x01"
| "bits_m REMU = insn_bits 0x33 7 0x01"

fun bits_zbb :: "ext_zbb_mnem \<Rightarrow> u32" where
  "bits_zbb ANDN = insn_bits 0x33 7 0x20"
| "bits_zbb ORN = insn_bits 0x33 6 0x20"
| "bits_zbb XNOR = insn_bits 0x33 4 0x20"
| "bits_zbb MIN_insn = insn_bits 0x33 4 0x05"
| "bits_zbb MINU = insn_bits 0x33 5 0x05"
| "bits_zbb MAX_insn = insn_bits 0x33 6 0x05"
| "bits_zbb MAXU = insn_bits 0x33 7 0x05"
| "bits_zbb ROL = insn_bits 0x33 1 0x30"
| "bits_zbb ROR = insn_bits 0x33 5 0x30"
| "bits_zbb ZEXT_H = insn_bits 0x33 4 0x04"
| "bits_zbb RORI = insn_bits 0x13 5 0x30"
| "bits_zbb CLZ = insn_bits 0x13 1 0 OR push_bit 20 0x600"
| "bits_zbb CTZ = insn_bits 0x13 1 0 OR push_bit 20 0x601"
| "bits_zbb CPOP = insn_bits 0x13 1 0 OR push_bit 20 0x602"
| "bits_zbb SEXT_B = insn_bits 0x13 1 0 OR push_bit 20 0x604"
| "bits_zbb SEXT_H = insn_bits 0x13 1 0 OR push_bit 20 0x605"
| "bits_zbb ORC_B = insn_bits 0x13 5 0 OR push_bit 20 0x287"
| "bits_zbb REV8 = insn_bits 0x13 5 0 OR push_bit 20 0x698"

fun bits_zicsr :: "ext_zicsr_mnem \<Rightarrow> u32" where
  "bits_zicsr CSRRW = insn_bits 0x73 1 0x00"
| "bits_zicsr CSRRS = insn_bits 0x73 2 0x00"
| "bits_zicsr CSRRC = insn_bits 0x73 3 0x00"
| "bits_zicsr CSRRWI = insn_bits 0x73 5 0x00"
| "bits_zicsr CSRRSI = insn_bits 0x73 6 0x00"
| "bits_zicsr CSRRCI = insn_bits 0x73 7 0x00"

fun bits_f :: "ext_f_mnem \<Rightarrow> u32" where
  "bits_f FLW = insn_bits 0x07 2 0x00"
| "bits_f FSW = insn_bits 0x27 2 0x00"
| "bits_f FMADD_S = insn_bits 0x43 0 0x00"
| "bits_f FMSUB_S = insn_bits 0x47 0 0x00"
| "bits_f FNMSUB_S = insn_bits 0x4b 0 0x00"
| "bits_f FNMADD_S = insn_bits 0x4f 0 0x00"
| "bits_f FADD_S = insn_bits 0x53 0 0x00"
| "bits_f FSUB_S = insn_bits 0x53 0 0x04"
| "bits_f FMUL_S = insn_bits 0x53 0 0x08"
| "bits_f FDIV_S = insn_bits 0x53 0 0x0c"
| "bits_f FSQRT_S = insn_bits 0x53 0 0x2c"
| "bits_f FSGNJ_S = insn_bits 0x53 0 0x10"
| "bits_f FSGNJN_S = insn_bits 0x53 1 0x10"
| "bits_f FSGNJX_S = insn_bits 0x53 2 0x10"
| "bits_f FMIN_S = insn_bits 0x53 0 0x14"
| "bits_f FMAX_S = insn_bits 0x53 1 0x14"
| "bits_f FCVT_W_S = insn_bits 0x53 0 0x60"
| "bits_f FMV_X_W = insn_bits 0x53 0 0x70"
| "bits_f FCLASS_S = insn_bits 0x53 1 0x70"
| "bits_f FEQ_S = insn_bits 0x53 2 0x50"
| "bits_f FLT_S = insn_bits 0x53 1 0x50"
| "bits_f FLE_S = insn_bits 0x53 0 0x50"
| "bits_f FCVT_S_W = insn_bits 0x53 0 0x68"
| "bits_f FMV_W_X = insn_bits 0x53 0 0x78"
| "bits_f FCVT_WU_S = insn_bits 0x53 0 0x60 OR push_bit 20 1"
| "bits_f FCVT_S_WU = insn_bits 0x53 0 0x68 OR push_bit 20 1"

fun manual_bits :: "InsnMnemonic \<Rightarrow> u32" where
  "manual_bits (Ext_I m) = bits_i m"
| "manual_bits (Ext_M m) = bits_m m"
| "manual_bits (Ext_Zbb m) = bits_zbb m"
| "manual_bits (Ext_Zicsr m) = bits_zicsr m"
| "manual_bits (Ext_F m) = bits_f m"
| "manual_bits _ = 0"

text \<open>Operands as the readers deliver them, and operands that fit their places.\<close>

fun read_operands :: "fmt \<Rightarrow> u32 \<Rightarrow> operands" where
  "read_operands F_R w = Op_R (Rd w) (Rs1 w) (Rs2 w)"
| "read_operands F_R_rm w = Op_R_rm (Rd w) (Rs1 w) (Rs2 w) (Rm w)"
| "read_operands F_R4 w = Op_R4 (Rd w) (Rs1 w) (Rs2 w) (Rs3 w) (Rm w)"
| "read_operands F_unary w = Op_unary (Rd w) (Rs1 w)"
| "read_operands F_unary_rm w = Op_unary_rm (Rd w) (Rs1 w) (Rm w)"
| "read_operands F_I w = Op_I (Rd w) (Rs1 w) (ImmI w)"
| "read_operands F_S w = Op_S (Rs1 w) (Rs2 w) (ImmS w)"
| "read_operands F_B w = Op_B (Rs1 w) (Rs2 w) (ImmB w)"
| "read_operands F_U w = Op_U (Rd w) (ImmU w)"
| "read_operands F_J w = Op_J (Rd w) (ImmJ w)"
| "read_operands F_csr w = Op_csr (Rd w) (Rs1 w) (ImmCSR w)"
| "read_operands F_word w = Op_word"

fun operands_fit :: "operands \<Rightarrow> bool" where
  "operands_fit (Op_R d a b) \<longleftrightarrow> d < 32 \<and> a < 32 \<and> b < 32"
| "operands_fit (Op_R_rm d a b r) \<longleftrightarrow> d < 32 \<and> a < 32 \<and> b < 32 \<and> r < 8"
| "operands_fit (Op_R4 d a b c r) \<longleftrightarrow> d < 32 \<and> a < 32 \<and> b < 32 \<and> c < 32 \<and> r < 8"
| "operands_fit (Op_unary d a) \<longleftrightarrow> d < 32 \<and> a < 32"
| "operands_fit (Op_unary_rm d a r) \<longleftrightarrow> d < 32 \<and> a < 32 \<and> r < 8"
| "operands_fit (Op_I d a i) \<longleftrightarrow> d < 32 \<and> a < 32 \<and> signed_take_bit 11 i = i"
| "operands_fit (Op_S a b i) \<longleftrightarrow> a < 32 \<and> b < 32 \<and> signed_take_bit 11 i = i"
| "operands_fit (Op_B a b i) \<longleftrightarrow> a < 32 \<and> b < 32 \<and> signed_take_bit 12 i = i \<and> even i"
| "operands_fit (Op_U d i) \<longleftrightarrow> d < 32 \<and> take_bit 12 i = 0"
| "operands_fit (Op_J d i) \<longleftrightarrow> d < 32 \<and> signed_take_bit 20 i = i \<and> even i"
| "operands_fit (Op_csr d a n) \<longleftrightarrow> d < 32 \<and> a < 32 \<and> n < 4096"
| "operands_fit Op_word \<longleftrightarrow> True"

text \<open>The operands at their places, around the fixed bits \<open>w\<close>.\<close>

fun place :: "operands \<Rightarrow> u32 \<Rightarrow> u32" where
  "place (Op_R d a b) w = w OR push_bit 7 d OR push_bit 15 a OR push_bit 20 b"
| "place (Op_R_rm d a b r) w = w OR push_bit 7 d OR push_bit 12 r OR push_bit 15 a OR push_bit 20 b"
| "place (Op_R4 d a b c r) w =
     w OR push_bit 7 d OR push_bit 12 r OR push_bit 15 a OR push_bit 20 b OR push_bit 27 c"
| "place (Op_unary d a) w = w OR push_bit 7 d OR push_bit 15 a"
| "place (Op_unary_rm d a r) w = w OR push_bit 7 d OR push_bit 12 r OR push_bit 15 a"
| "place (Op_I d a i) w = encode_I i (w OR push_bit 7 d OR push_bit 15 a)"
| "place (Op_S a b i) w = encode_S i (w OR push_bit 15 a OR push_bit 20 b)"
| "place (Op_B a b i) w = encode_B i (w OR push_bit 15 a OR push_bit 20 b)"
| "place (Op_U d i) w = encode_U i (w OR push_bit 7 d)"
| "place (Op_J d i) w = encode_J i (w OR push_bit 7 d)"
| "place (Op_csr d a n) w = w OR push_bit 7 d OR push_bit 15 a OR push_bit 20 n"
| "place Op_word w = w"

definition assemble :: "InsnMnemonic \<Rightarrow> operands \<Rightarrow> u32" where
  "assemble m ops = place ops (manual_bits m)"

definition disassemble :: "u32 \<Rightarrow> (InsnMnemonic \<times> operands) option" where
  "disassemble w =
     (let m = Decode w in if m = kInvalid then None else Some (m, read_operands (fmt_of m) w))"

section \<open>Placing and reading\<close>

lemma table_formats:
  "list_all (\<lambda>e. insn_mask e = fixed_bits (fmt_of (mnem e))) InsnDecodeTable"
  by (simp add: InsnDecodeTable_def inc_defs)

lemma table_bits: "list_all (\<lambda>e. insn_match e = manual_bits (mnem e)) InsnDecodeTable"
  by (simp add: InsnDecodeTable_def inc_defs insn_bits_def)

text \<open>The fixed bits of a format as ranges of positions.\<close>

lemma fixed_bits_masks:
  "fixed_bits F_R = mask 7 OR push_bit 12 (mask 3) OR push_bit 25 (mask 7)"
  "fixed_bits F_R_rm = mask 7 OR push_bit 25 (mask 7)"
  "fixed_bits F_R4 = mask 7 OR push_bit 25 (mask 2)"
  "fixed_bits F_unary = mask 7 OR push_bit 12 (mask 3) OR push_bit 20 (mask 12)"
  "fixed_bits F_unary_rm = mask 7 OR push_bit 20 (mask 12)"
  "fixed_bits F_I = mask 7 OR push_bit 12 (mask 3)"
  "fixed_bits F_S = mask 7 OR push_bit 12 (mask 3)"
  "fixed_bits F_B = mask 7 OR push_bit 12 (mask 3)"
  "fixed_bits F_U = mask 7"
  "fixed_bits F_J = mask 7"
  "fixed_bits F_csr = mask 7 OR push_bit 12 (mask 3)"
  "fixed_bits F_word = mask 32"
  by (simp_all add: mask_eq_exp_minus_1)

text \<open>The readers and the encoders bit by bit.\<close>

lemma field_bits:
  "bit (Rd w) n \<longleftrightarrow> n < 5 \<and> bit w (n + 7)" "bit (Rs1 w) n \<longleftrightarrow> n < 5 \<and> bit w (n + 15)"
  "bit (Rs2 w) n \<longleftrightarrow> n < 5 \<and> bit w (n + 20)" "bit (Rs3 w) n \<longleftrightarrow> n < 5 \<and> bit w (n + 27)"
  "bit (Rm w) n \<longleftrightarrow> n < 3 \<and> bit w (n + 12)" "bit (ImmCSR w) n \<longleftrightarrow> bit w (n + 20)"
  by (auto simp: Rd_def Rs1_def Rs2_def Rs3_def Rm_def ImmCSR_def and_masks bit_simps add.commute)

text \<open>Two words agree when they agree at each of the 32 positions, listed for the simplifier.\<close>

definition positions :: "nat list" where
  "positions =
     [0, 1, 2, 3, 4, 5, 6, 7, 8, 9, 10, 11, 12, 13, 14, 15, 16, 17, 18, 19, 20, 21, 22, 23, 24,
      25, 26, 27, 28, 29, 30, 31]"

lemma set_positions: "set positions = {0..<32}"
  unfolding positions_def by (auto simp: atLeastLessThan_nat_numeral)

lemma u32_eqI:
  assumes "list_all (\<lambda>n. bit a n = bit b n) positions"
  shows "a = (b :: u32)"
  using assms by (intro bit_word_eqI) (simp add: list_all_iff set_positions)

lemma odd_drop_11: "odd (drop_bit 11 v) = bit (v :: u32) 11"
  by (simp add: bit_iff_odd_drop_bit)

lemmas placing = positions_def bit_simps field_bits encode_defs odd_drop_11
  ImmI_bits ImmS_bits ImmB_bits ImmU_bits ImmJ_bits

lemma place_read: "place (read_operands f w) (w AND fixed_bits f) = w"
  by (cases f; simp only: read_operands.simps place.simps fixed_bits_masks; rule u32_eqI;
     simp add: placing)

lemma small_bits: "(d :: u32) < 32 \<Longrightarrow> 5 \<le> n \<Longrightarrow> bit d n = False"
  "(d :: u32) < 8 \<Longrightarrow> 3 \<le> n \<Longrightarrow> bit d n = False" "(d :: u32) < 4096 \<Longrightarrow> 12 \<le> n \<Longrightarrow> bit d n = False"
proof -
  have less: "bit d n = False" if "d < 2 ^ k" "k < 32" "k \<le> n" for k n and d :: u32
  proof -
    have "take_bit k d = d" using that(1,2) by (simp add: less_mask_eq take_bit_eq_mask)
    then show ?thesis using that(3) by (metis bit_take_bit_iff not_le)
  qed
  show "(d :: u32) < 32 \<Longrightarrow> 5 \<le> n \<Longrightarrow> bit d n = False"
  "(d :: u32) < 8 \<Longrightarrow> 3 \<le> n \<Longrightarrow> bit d n = False" "(d :: u32) < 4096 \<Longrightarrow> 12 \<le> n \<Longrightarrow> bit d n = False"
    using less [of d 5 n] less [of d 3 n] less [of d 12 n] by simp_all
qed

lemma high_bits:
  "signed_take_bit 11 i = i \<Longrightarrow> 11 < n \<Longrightarrow> n < 32 \<Longrightarrow> bit (i :: u32) n = bit i 11"
  "signed_take_bit 12 i = i \<Longrightarrow> 12 < n \<Longrightarrow> n < 32 \<Longrightarrow> bit (i :: u32) n = bit i 12"
  "signed_take_bit 20 i = i \<Longrightarrow> 20 < n \<Longrightarrow> n < 32 \<Longrightarrow> bit (i :: u32) n = bit i 20"
proof -
  have high: "bit i n = bit i k" if "signed_take_bit k i = i" "k < n" "n < 32" for k n and i :: u32
    by (subst that(1) [symmetric]) (use that(2,3) in \<open>simp add: bit_simps\<close>)
  show "signed_take_bit 11 i = i \<Longrightarrow> 11 < n \<Longrightarrow> n < 32 \<Longrightarrow> bit (i :: u32) n = bit i 11"
    "signed_take_bit 12 i = i \<Longrightarrow> 12 < n \<Longrightarrow> n < 32 \<Longrightarrow> bit (i :: u32) n = bit i 12"
    "signed_take_bit 20 i = i \<Longrightarrow> 20 < n \<Longrightarrow> n < 32 \<Longrightarrow> bit (i :: u32) n = bit i 20"
    by (rule high; assumption)+
qed

lemma low_bits:
  "take_bit 12 i = 0 \<Longrightarrow> n < 12 \<Longrightarrow> bit (i :: u32) n = False" "even i \<Longrightarrow> bit (i :: u32) 0 = False"
proof -
  show "bit i n = False" if "take_bit 12 i = 0" "n < 12"
  proof -
    have "bit (take_bit 12 i) n = False" using that(1) by simp
    then show ?thesis using that(2) by (simp add: bit_take_bit_iff)
  qed
qed (simp add: bit_0)

lemma two_is: "Suc (Suc 0) = 2" by simp

lemma read_place:
  "operands_fit ops \<Longrightarrow> f = fmt_of_operands ops \<Longrightarrow>
    read_operands f (place ops (v AND fixed_bits f)) = ops"
  by (cases ops; simp only: read_operands.simps place.simps fixed_bits_masks fmt_of_operands.simps
        operands_fit.simps operands.inject;
      (intro conjI)?; rule u32_eqI; simp add: placing small_bits high_bits low_bits two_is)

lemma place_fixed:
  "operands_fit ops \<Longrightarrow> f = fmt_of_operands ops \<Longrightarrow>
    place ops (v AND fixed_bits f) AND fixed_bits f = v AND fixed_bits f"
  by (cases ops; simp only: place.simps fixed_bits_masks fmt_of_operands.simps operands_fit.simps;
    rule u32_eqI; simp add: placing small_bits high_bits low_bits two_is)

section \<open>The round trips\<close>

lemma table_entry:
  assumes "e \<in> set InsnDecodeTable"
  shows "insn_mask e = fixed_bits (fmt_of (mnem e))" "insn_match e AND insn_mask e = insn_match e"
  using table_formats table_match_in_mask assms by (simp_all add: list_all_iff)

lemma assemble_entry: "e \<in> set InsnDecodeTable \<Longrightarrow> assemble (mnem e) ops = place ops (insn_match e)"
  using table_bits by (simp add: assemble_def list_all_iff)

lemma InsnMnemonic_entry:
  assumes "m \<noteq> kCount" "m \<noteq> kInvalid"
  obtains e where "e \<in> set InsnDecodeTable" "mnem e = m"
proof -
  have "ext_i_value i < 101" "ext_m_value n < 101" "ext_zbb_value z < 101" "ext_zicsr_value c < 101"
    "ext_f_value f < 101" for i n z c f
    by ((cases i; simp), (cases n; simp), (cases z; simp), (cases c; simp), (cases f; simp))
  then have "InsnMnemonic_FromEnum m < 101" using assms by (cases m) simp_all
  moreover have "length enumerators = 101" by code_simp
  ultimately have "InsnMnemonic_FromEnum m < length enumerators" by simp
  then have "m \<in> set enumerators" using enumerators_value [of m] nth_mem by metis
  then show ?thesis using assms that by (auto simp: enumerators_def InsnDecodeTable_def)
qed

lemma disassemble_assemble:
  assumes m: "m \<noteq> kCount" "m \<noteq> kInvalid" and ops: "operands_fit ops" "fmt_of_operands ops = fmt_of m"
  shows "disassemble (assemble m ops) = Some (m, ops)"
proof -
  obtain e where e: "e \<in> set InsnDecodeTable" "mnem e = m" using InsnMnemonic_entry [OF m] .
  note entry = table_entry [OF e(1), unfolded e(2)]
  have a: "assemble m ops = place ops (insn_match e AND fixed_bits (fmt_of m))"
    using assemble_entry [OF e(1)] e(2) entry by simp
  have "carries (assemble m ops) e"
    using place_fixed [OF ops(1) ops(2) [symmetric], of "insn_match e"] a entry by simp
  then have "Decode (assemble m ops) = m" using Decode_hit [OF e(1)] e(2) by simp
  moreover have "read_operands (fmt_of m) (assemble m ops) = ops"
    using read_place [OF ops(1) ops(2) [symmetric]] a by simp
  ultimately show ?thesis using m(2) by (simp add: disassemble_def)
qed



end
