(* ===== verification/RV_Asm.thy ===== *)
theory RV_Asm
  imports RV_Startup RV_Assembler RV_Outcome
begin

text \<open>
  Assembled programs. A program, a list of instructions with their operands, has a meaning of
  its own: \<open>asm_step\<close> and \<open>asm_run\<close> on a position in the program, the registers and the rest
  of the abstract machine's state. \<open>asm_run_reaches\<close> shows that the simulator does the same
  wherever the program's words are in memory, and \<open>main_runs_code\<close> that \<open>main\<close> returns the
  program's exit status when an ELF file has the program at its entry point. So facts about the
  source of a program become facts about \<open>main\<close> running it.
\<close>

unbundle bit_operations_syntax

section \<open>Assembled programs\<close>

text \<open>A program is a list of instructions; an instruction is well-formed when its operands fit.\<close>

type_synonym asm = "(InsnMnemonic \<times> operands) list"

fun insn_wf :: "InsnMnemonic \<times> operands \<Rightarrow> bool" where
  "insn_wf (m, ops) \<longleftrightarrow> m \<noteq> kCount \<and> m \<noteq> kInvalid \<and> operands_fit ops \<and> fmt_of_operands ops = fmt_of m"

definition asm_words :: "asm \<Rightarrow> u32 list" where
  "asm_words prog = map (\<lambda>(m, ops). assemble m ops) prog"

text \<open>The program's words are in memory from \<open>base\<close> on.\<close>

definition code_at :: "u32 \<Rightarrow> asm \<Rightarrow> 'w arch \<Rightarrow> bool" where
  "code_at base prog a \<longleftrightarrow>
     (\<forall>i < length prog. isa_load 4 (base + of_nat (4 * i)) a = Some (asm_words prog ! i))"

lemma code_at_same:
  assumes "code_at base prog a" "bytes b = bytes a" "allowed b = allowed a"
  shows "code_at base prog b"
proof -
  have "(isa_load 4 x b :: u32 option) = isa_load 4 x a" for x using assms(2,3) by (simp add: isa_load_def)
  then show ?thesis using assms(1) by (simp add: code_at_def)
qed

lemma asm_fields:
  assumes "insn_wf (m, ops)"
  shows "Decode (assemble m ops) = m" "read_operands (fmt_of_operands ops) (assemble m ops) = ops"
proof -
  have "disassemble (assemble m ops) = Some (m, ops)" using assms disassemble_assemble [of m ops] by simp
  then show "Decode (assemble m ops) = m" "read_operands (fmt_of_operands ops) (assemble m ops) = ops"
    using assms by (auto simp: disassemble_def Let_def split: if_splits)
qed

section \<open>The meaning of assembled programs\<close>

text \<open>
  The effect of an instruction on the position in the program, as an index, the registers and
  the rest of the state. Jumps and branches go to an address that is a multiple of 4 from the
  start of the program. For \<open>MULH\<close> and \<open>MULHSU\<close> the effect is what the code does, not what
  the manual says.
\<close>

definition put_reg :: "u32 \<Rightarrow> u32 \<Rightarrow> (nat \<Rightarrow> u32) \<Rightarrow> nat \<Rightarrow> u32" where
  "put_reg d v x = (if d = 0 then x else x(unat d := v))"

definition index_of :: "u32 \<Rightarrow> nat option" where
  "index_of v = (if unat v mod 4 = 0 then Some (unat v div 4) else None)"

fun asm_load :: "ext_i_mnem \<Rightarrow> u32 \<Rightarrow> 'w arch \<Rightarrow> u32 option" where
  "asm_load LB addr a = map_option (\<lambda>v :: u8. scast v) (isa_load 1 addr a)"
| "asm_load LH addr a = map_option (\<lambda>v :: u16. scast v) (isa_load 2 addr a)"
| "asm_load LW addr a = isa_load 4 addr a"
| "asm_load LBU addr a = map_option (\<lambda>v :: u8. ucast v) (isa_load 1 addr a)"
| "asm_load LHU addr a = map_option (\<lambda>v :: u16. ucast v) (isa_load 2 addr a)"
| "asm_load _ addr a = None"

fun asm_store :: "ext_i_mnem \<Rightarrow> u32 \<Rightarrow> u32 \<Rightarrow> 'w arch \<Rightarrow> 'w arch option" where
  "asm_store SB addr v a = isa_store 1 addr (ucast v :: u8) a"
| "asm_store SH addr v a = isa_store 2 addr (ucast v :: u16) a"
| "asm_store SW addr v a = isa_store 4 addr v a"
| "asm_store _ addr v a = None"

definition asm_alu :: "ext_i_mnem \<Rightarrow> u32 \<Rightarrow> u32 \<Rightarrow> u32 \<Rightarrow> u32 option" where
  "asm_alu m q x1 x2 =
     (if (m = SLL \<or> m = SRL) \<and> 32 \<le> unat x2 then None
      else case isa_i_R m x1 x2 of Some v \<Rightarrow> Some v | None \<Rightarrow> isa_i_shift m x1 q)"

definition asm_mul :: "ext_m_mnem \<Rightarrow> u32 \<Rightarrow> u32 \<Rightarrow> u32 option" where
  "asm_mul m x1 x2 =
     (if m = MULH then (if uint x1 * uint x2 < 2 ^ 63 then Some (isa_m MULHU x1 x2) else None)
      else if m = MULHSU then Some (isa_m MULH x1 x2)
      else Some (isa_m m x1 x2))"

definition asm_zbb :: "ext_zbb_mnem \<Rightarrow> u32 \<Rightarrow> u32 \<Rightarrow> u32 \<Rightarrow> u32 option" where
  "asm_zbb m q x1 x2 =
     (if (m = ROL \<or> m = ROR) \<and> unat x2 mod 32 = 0 \<or> m = RORI \<and> q = 0 then None
      else Some (isa_zbb m x1 (if m = RORI then q else x2)))"

definition asm_next :: "u32 \<Rightarrow> nat \<Rightarrow> (nat \<Rightarrow> u32) \<Rightarrow> 'w arch \<Rightarrow> u32 \<Rightarrow> nat \<times> (nat \<Rightarrow> u32) \<times> 'w arch" where
  "asm_next d i x a v = (Suc i, put_reg d v x, a)"

fun asm_step ::
  "u32 \<Rightarrow> InsnMnemonic \<times> operands \<Rightarrow> nat \<Rightarrow> (nat \<Rightarrow> u32) \<Rightarrow> 'w arch \<Rightarrow> (nat \<times> (nat \<Rightarrow> u32) \<times> 'w arch) option"
where
  "asm_step base (Ext_I m, Op_R d r q) i x a =
     map_option (asm_next d i x a) (asm_alu m q (x (unat r)) (x (unat q)))"
| "asm_step base (Ext_I m, Op_I d r imm) i x a =
     (if m = JALR then
        map_option (\<lambda>j. (j, put_reg d (base + of_nat (4 * Suc i)) x, a))
          (index_of (unset_bit 0 (x (unat r) + imm) - base))
      else map_option (asm_next d i x a)
        (case isa_i_I m (x (unat r)) imm of Some v \<Rightarrow> Some v | None \<Rightarrow> asm_load m (x (unat r) + imm) a))"
| "asm_step base (Ext_I m, Op_S r q imm) i x a =
     map_option (\<lambda>b. (Suc i, x, b)) (asm_store m (x (unat r) + imm) (x (unat q)) a)"
| "asm_step base (Ext_I m, Op_B r q imm) i x a =
     (case isa_i_branch m (x (unat r)) (x (unat q)) of
        Some taken \<Rightarrow>
          if taken then map_option (\<lambda>j. (j, x, a)) (index_of (of_nat (4 * i) + imm)) else Some (Suc i, x, a)
      | None \<Rightarrow> None)"
| "asm_step base (Ext_I m, Op_J d imm) i x a =
     map_option (\<lambda>j. (j, put_reg d (base + of_nat (4 * Suc i)) x, a)) (index_of (of_nat (4 * i) + imm))"
| "asm_step base (Ext_I m, Op_U d imm) i x a =
     Some (asm_next d i x a (if m = LUI then imm else base + of_nat (4 * i) + imm))"
| "asm_step base (Ext_M m, Op_R d r q) i x a =
     map_option (asm_next d i x a) (asm_mul m (x (unat r)) (x (unat q)))"
| "asm_step base (Ext_Zbb m, Op_R d r q) i x a =
     map_option (asm_next d i x a) (asm_zbb m q (x (unat r)) (x (unat q)))"
| "asm_step base (Ext_Zbb m, Op_unary d r) i x a = Some (asm_next d i x a (isa_zbb m (x (unat r)) 0))"
| "asm_step base (Ext_Zicsr m, Op_csr d r n) i x a =
     map_option (\<lambda>view.
         let old = csr_read view (csr a); v = isa_csr m old (if m \<in> {CSRRW, CSRRS, CSRRC} then x (unat r) else r) in
         asm_next d i x (a\<lparr>csr := csr_write view v (csr a)\<rparr>) old)
       (CSR_ToEnum (unat n))"
| "asm_step base _ i x a = None"

text \<open>
  Runs of \<open>n\<close> instructions. A store must not reach into the program, whose \<open>len\<close> words start
  at \<open>base\<close>.
\<close>

fun store_clear :: "u32 \<Rightarrow> nat \<Rightarrow> InsnMnemonic \<times> operands \<Rightarrow> (nat \<Rightarrow> u32) \<Rightarrow> bool" where
  "store_clear base len (m, Op_S r q imm) x \<longleftrightarrow>
     4 * len \<le> unat (x (unat r) + imm - base) \<and> unat (x (unat r) + imm - base) + 4 \<le> 2 ^ 32"
| "store_clear base len _ x \<longleftrightarrow> True"

fun asm_run ::
  "u32 \<Rightarrow> asm \<Rightarrow> nat \<Rightarrow> nat \<Rightarrow> (nat \<Rightarrow> u32) \<Rightarrow> 'w arch \<Rightarrow> (nat \<times> (nat \<Rightarrow> u32) \<times> 'w arch) option" where
  "asm_run base prog 0 i x a = Some (i, x, a)"
| "asm_run base prog (Suc n) i x a =
     (if i < length prog \<and> store_clear base (length prog) (prog ! i) x then
        case asm_step base (prog ! i) i x a of
          None \<Rightarrow> None
        | Some (j, y, b) \<Rightarrow> asm_run base prog n j y b
      else None)"

lemma asm_run_numeral:
  "asm_run base prog (numeral k) i x a =
     (if i < length prog \<and> store_clear base (length prog) (prog ! i) x then
        case asm_step base (prog ! i) i x a of
          None \<Rightarrow> None
        | Some (j, y, b) \<Rightarrow> asm_run base prog (pred_numeral k) j y b
      else None)"
  by (simp add: numeral_eq_Suc)

section \<open>The abstract machine at a position of a program\<close>

text \<open>The state \<open>a\<close> at index \<open>i\<close> of a program at \<open>base\<close>, with registers \<open>x\<close>.\<close>

definition guest :: "'w arch \<Rightarrow> u32 \<Rightarrow> nat \<Rightarrow> (nat \<Rightarrow> u32) \<Rightarrow> 'w arch" where
  "guest a base i x = a\<lparr>pc := base + of_nat (4 * i), X := x\<rparr>"

lemma guest_fields [simp]:
  "X (guest a base i x) = x" "bytes (guest a base i x) = bytes a" "allowed (guest a base i x) = allowed a"
  "world (guest a base i x) = world a" "csr (guest a base i x) = csr a" "F (guest a base i x) = F a"
  "pc (guest a base i x) = base + of_nat (4 * i)"
  by (simp_all add: guest_def)

lemma isa_load_guest [simp]: "isa_load n addr (guest a base i x) = isa_load n addr a"
  by (simp add: isa_load_def)

lemma isa_store_guest:
  "isa_store n addr v (guest a base i x) = map_option (\<lambda>b. guest b base i x) (isa_store n addr v a)"
  by (simp add: isa_store_def guest_def cong: if_cong)

lemma guest_next:
  "isa_next (guest a base i x) = guest a base (Suc i) x"
  "isa_retire w v (guest a base i x) = guest a base (Suc i) (put_reg (Rd w) v x)"
  "(guest a base i x)\<lparr>csr := c\<rparr> = guest (a\<lparr>csr := c\<rparr>) base i x"
  by (simp_all add: isa_retire_def isa_put_def isa_next_def guest_def put_reg_def)

lemma index_of_Some: "index_of v = Some j \<Longrightarrow> of_nat (4 * j) = v"
proof -
  assume "index_of v = Some j"
  then have "4 * j = unat v" by (auto simp: index_of_def split: if_splits)
  then have "of_nat (4 * j) = (of_nat (unat v) :: u32)" by (rule arg_cong)
  also have "\<dots> = v" by simp
  finally show ?thesis .
qed

lemma guest_jump:
  assumes "index_of (t - base) = Some j"
  shows "(guest a base i x)\<lparr>pc := t\<rparr> = guest a base j x"
    and "(isa_put w u (guest a base i x))\<lparr>pc := t\<rparr> = guest a base j (put_reg (Rd w) u x)"
proof -
  have j: "base + of_nat (4 * j) = t" using index_of_Some [OF assms] by simp
  show "(guest a base i x)\<lparr>pc := t\<rparr> = guest a base j x"
    "(isa_put w u (guest a base i x))\<lparr>pc := t\<rparr> = guest a base j (put_reg (Rd w) u x)"
    unfolding guest_def j by (simp_all add: isa_put_def put_reg_def)
qed

lemma step_assembled:
  assumes "code_at base prog a" "i < length prog" "prog ! i = (m, ops)" "insn_wf (m, ops)"
  shows "isa_step e (guest a base i x) =
    (let w = assemble m ops in if agrees m w (guest a base i x) then isa_exec e m w (guest a base i x) else None)"
    and "isa_exits (guest a base i x) \<longleftrightarrow> x 17 = 93 \<and> m = Ext_I ECALL"
  using assms asm_fields(1) [OF assms(4)]
  by (auto simp: code_at_def isa_step_def isa_exits_def asm_words_def)

lemma asm_fields_R:
  assumes "insn_wf (m, Op_R d r q)" "w = assemble m (Op_R d r q)"
  shows "Rd w = d" "Rs1 w = r" "Rs2 w = q" "Shamt w = q"
  using asm_fields(2) [OF assms(1)] assms(2) by (simp_all add: Shamt_def Rs2_def)


lemma isa_i_kinds:
  "isa_i_I m a b = Some v \<Longrightarrow> isa_i_R m a' b' = None \<and> m \<noteq> ECALL \<and> m \<noteq> JALR"
  "isa_i_branch m a b = Some t \<Longrightarrow>
    isa_i_R m a' b' = None \<and> isa_i_I m a' b' = None \<and> isa_i_shift m a' b' = None \<and> m \<noteq> ECALL"
  "isa_i_R m a b = Some v \<Longrightarrow> m \<noteq> ECALL" "isa_i_shift m a b = Some v \<Longrightarrow> isa_i_I m a' b' = None \<and> m \<noteq> ECALL"
  by (cases m; simp)+

lemma unary_operand: "fmt_zbb m = F_unary \<Longrightarrow> isa_zbb m a b = isa_zbb m a c \<and> m \<noteq> RORI \<and> m \<noteq> ROL \<and> m \<noteq> ROR"
  by (cases m) simp_all

lemma asm_load_exec:
  assumes "asm_load m (x (unat (Rs1 w)) + ImmI w) a = Some v"
  shows "isa_exec e (Ext_I m) w (guest a base i x) = Some (guest a base (Suc i) (put_reg (Rd w) v x))"
  using assms by (cases m) (auto simp: isa_exec_i_def guest_next)

lemma asm_store_exec:
  assumes "asm_store m (x (unat (Rs1 w)) + ImmS w) (x (unat (Rs2 w))) a = Some b"
  shows "isa_exec e (Ext_I m) w (guest a base i x) = Some (guest b base (Suc i) x)"
  using assms by (cases m) (auto simp: isa_exec_i_def guest_next isa_store_guest)

lemma asm_alu_exec:
  assumes "asm_alu m (Shamt w) (x (unat (Rs1 w))) (x (unat (Rs2 w))) = Some v"
  shows "isa_exec e (Ext_I m) w (guest a base i x) = Some (guest a base (Suc i) (put_reg (Rd w) v x))"
    and "agrees (Ext_I m) w (guest a base i x)"
  using assms isa_i_kinds(3,4)
  by (auto simp: asm_alu_def isa_exec_i_def guest_next split: if_splits option.splits)

lemma fmt_i_cases:
  "fmt_i m = F_J \<Longrightarrow> m = JAL" "fmt_i m = F_U \<Longrightarrow> m = LUI \<or> m = AUIPC"
  "fmt_i m \<noteq> F_R \<Longrightarrow> m \<noteq> SLL \<and> m \<noteq> SRL"
  by (cases m; simp)+

lemma asm_step_exec_i:
  assumes "insn_wf (Ext_I n, ops)" "w = assemble (Ext_I n) ops" "asm_step base (Ext_I n, ops) i x a = Some (j, y, b)"
  shows "isa_exec e (Ext_I n) w (guest a base i x) = Some (guest b base j y) \<and> agrees (Ext_I n) w (guest a base i x)"
proof -
  have ops: "read_operands (fmt_of_operands ops) w = ops" "fmt_of_operands ops = fmt_i n"
    using asm_fields(2) [OF assms(1)] assms(1,2) by simp_all
  have shift: "n \<noteq> SLL \<and> n \<noteq> SRL" if "fmt_of_operands ops \<noteq> F_R"
    using that ops(2) fmt_i_cases(3) by (simp del: fmt_i.simps)
  show ?thesis
  proof (cases ops)
    case (Op_R d r q)
    then show ?thesis
      using asm_fields_R [of "Ext_I n" d r q w] assms asm_alu_exec [where m = n and w = w and x = x and a = a]
      by (auto simp: asm_next_def simp del: agrees.simps isa_exec.simps insn_wf.simps)
  next
    case (Op_I d r imm)
    show ?thesis
    proof (cases "n = JALR")
      case True
      then show ?thesis
        using Op_I ops(1) assms(3) guest_jump(2) [of "unset_bit 0 (x (unat r) + imm)" base j w _ a i x]
        by (auto simp: isa_exec_i_def add.commute add.left_commute)
    next
      case False
      then consider v where "isa_i_I n (x (unat r)) imm = Some v" "(j, y, b) = asm_next d i x a v"
        | v where "asm_load n (x (unat r) + imm) a = Some v" "(j, y, b) = asm_next d i x a v"
        using Op_I assms(3) by (auto split: option.splits)
      then show ?thesis
      proof cases
        case (1 v)
        then show ?thesis
          using Op_I ops(1) shift isa_i_kinds(1) by (auto simp: isa_exec_i_def asm_next_def guest_next)
      next
        case (2 v)
        then show ?thesis
          using Op_I ops(1) shift asm_load_exec [where m = n and w = w and x = x and a = a] by (auto simp: asm_next_def)
      qed
    qed
  next
    case (Op_S r q imm)
    then show ?thesis
      using ops(1) shift assms(3) asm_store_exec [where m = n and w = w and x = x and a = a] by auto
  next
    case (Op_B r q imm)
    then obtain taken where taken: "isa_i_branch n (x (unat r)) (x (unat q)) = Some taken"
      using assms(3) by (auto split: option.splits)
    have jump: "guest a base j x = (guest a base i x)\<lparr>pc := base + of_nat (4 * i) + imm\<rparr>"
      if "index_of (of_nat (4 * i) + imm) = Some j"
      using guest_jump(1) [of "base + of_nat (4 * i) + imm" base j a i x] that by (simp add: add.assoc)
    show ?thesis
      using Op_B ops(1) shift assms(3) taken isa_i_kinds(2) [OF taken] jump
      by (cases taken) (auto simp: isa_exec_i_def guest_next)
  next
    case (Op_J d imm)
    then have "n = JAL" using ops(2) fmt_i_cases(1) by (simp del: fmt_i.simps)
    moreover have "(isa_put w u (guest a base i x))\<lparr>pc := base + of_nat (4 * i) + imm\<rparr> =
        guest a base j (put_reg (Rd w) u x)" if "index_of (of_nat (4 * i) + imm) = Some j" for u
      using guest_jump(2) [of "base + of_nat (4 * i) + imm" base j w u a i x] that by (simp add: add.assoc)
    ultimately show ?thesis
      using Op_J ops(1) assms(3) by (auto simp: isa_exec_i_def add.commute add.left_commute)
  next
    case (Op_U d imm)
    then have "n = LUI \<or> n = AUIPC" using ops(2) fmt_i_cases(2) by (simp del: fmt_i.simps)
    then show ?thesis
      using Op_U ops(1) assms(3) by (auto simp: isa_exec_i_def guest_next asm_next_def)
  qed (use assms(3) in auto)
qed

text \<open>The architecture does what the program says, except for the two multiplications.\<close>

lemma asm_step_exec:
  assumes "insn_wf (m, ops)" "w = assemble m ops" "asm_step base (m, ops) i x a = Some (j, y, b)"
    and "m \<noteq> Ext_M MULH" "m \<noteq> Ext_M MULHSU"
  shows "isa_exec e m w (guest a base i x) = Some (guest b base j y)" "agrees m w (guest a base i x)"
proof -
  have ops: "read_operands (fmt_of_operands ops) w = ops" "fmt_of_operands ops = fmt_of m"
    using asm_fields(2) [OF assms(1)] assms(1,2) by simp_all
  have "isa_exec e m w (guest a base i x) = Some (guest b base j y) \<and> agrees m w (guest a base i x)"
  proof (cases m)
    case (Ext_I n)
    then show ?thesis
      using asm_step_exec_i [of n ops w base i x a j y b] assms(1-3) by simp
  next
    case (Ext_M n)
    then obtain d r q where R: "ops = Op_R d r q" using assms(3) by (cases ops) auto
    then show ?thesis
      using assms(3-5) Ext_M ops(1) by (auto simp: asm_mul_def asm_next_def guest_next)
  next
    case (Ext_Zbb n)
    then consider d r q where "ops = Op_R d r q" | d r where "ops = Op_unary d r"
      using assms(3) by (cases ops) auto
    then show ?thesis
    proof cases
      case 1
      then have "unat q mod 32 = unat q" using assms(1) by (simp add: word_less_nat_alt)
      then show ?thesis
        using 1 assms(3) Ext_Zbb asm_fields_R [of m d r q w] assms(1,2)
        by (auto simp: asm_zbb_def asm_next_def guest_next split: if_splits)
    next
      case 2
      then have "fmt_zbb n = F_unary" using ops(2) Ext_Zbb by (simp del: fmt_zbb.simps)
      from unary_operand [OF this, of "x (unat (Rs1 w))" "x (unat (Rs2 w))" 0] show ?thesis
        using assms(3) Ext_Zbb 2 ops(1) by (auto simp: asm_next_def guest_next)
    qed
  next
    case (Ext_Zicsr n)
    then obtain d r k where "ops = Op_csr d r k" using assms(3) by (cases ops) auto
    then show ?thesis
      using assms(3) Ext_Zicsr ops(1)
      by (auto simp: isa_exec_csr_def asm_next_def guest_next Let_def split: option.splits)
  qed (use assms(3) in auto)
  then show "isa_exec e m w (guest a base i x) = Some (guest b base j y)" "agrees m w (guest a base i x)"
    by simp_all
qed


section \<open>The simulator at a position of a program\<close>

text \<open>
  From every well-formed state of the simulator whose abstraction is \<open>a\<close>, the main loop reaches
  one whose abstraction is \<open>b\<close>.
\<close>

definition reaches :: "'w env \<Rightarrow> 'w arch \<Rightarrow> 'w arch \<Rightarrow> bool" where
  "reaches e a b \<longleftrightarrow>
     (\<forall>s. runnable s \<and> \<not> should_stop s \<and> arch_of s = a \<longrightarrow>
       (\<exists>t. loop_steps should_stop (Execute_body e) s t \<and> runnable t \<and> \<not> should_stop t \<and> arch_of t = b))"

lemma reaches_refl: "reaches e a a"
  by (auto simp: reaches_def)

lemma reaches_trans: "reaches e a b \<Longrightarrow> reaches e b c \<Longrightarrow> reaches e a c"
  unfolding reaches_def by (metis rtranclp_trans)

lemma reaches_body:
  assumes "\<And>s. runnable s \<Longrightarrow> \<not> should_stop s \<Longrightarrow> arch_of s = a \<Longrightarrow>
    \<exists>t. Execute_body e s = Inr t \<and> \<not> should_stop t \<and> arch_of t = b"
  shows "reaches e a b"
  unfolding reaches_def
proof (intro allI impI)
  fix s
  assume s: "runnable s \<and> \<not> should_stop s \<and> arch_of s = a"
  then obtain t where t: "Execute_body e s = Inr t" "\<not> should_stop t" "arch_of t = b" using assms by blast
  then have "runnable t" using s runnable_keeps by blast
  then show "\<exists>t. loop_steps should_stop (Execute_body e) s t \<and> runnable t \<and> \<not> should_stop t \<and> arch_of t = b"
    using s t iterate [of should_stop s "Execute_body e" t] by blast
qed

lemma reaches_isa_step:
  assumes "isa_step e a = Some b"
  shows "reaches e a b"
proof (rule reaches_body)
  fix s
  assume "runnable s" "\<not> should_stop s" "arch_of s = a"
  then show "\<exists>t. Execute_body e s = Inr t \<and> \<not> should_stop t \<and> arch_of t = b"
    using step_refines [of s e b] assms by (auto simp: runnable_def refines_def)
qed

lemma reaches_exit:
  assumes "runnable s" "\<not> should_stop s" "reaches e (arch_of s) a" "isa_exits a"
  shows "\<exists>t. Execute e s = Some (Inr (X a 10, t)) \<and> arch_of t = isa_next a"
proof -
  obtain t where t: "loop_steps should_stop (Execute_body e) s t" "runnable t" "\<not> should_stop t" "arch_of t = a"
    using assms(1-3) by (auto simp: reaches_def)
  then have "isa_steps 0 e (arch_of t) = Some a" by simp
  then show ?thesis
    using exit_refines [of t 0 e a] t assms(4) exec.run_along [OF t(1)] by (auto simp: runnable_def)
qed

text \<open>The two multiplications, by the effect of their callbacks.\<close>

lemma asm_mul_reaches:
  assumes "code_at base prog a" "i < length prog" "prog ! i = (Ext_M m, Op_R d r q)" "insn_wf (prog ! i)"
    and "m = MULH \<or> m = MULHSU" "asm_mul m (x (unat r)) (x (unat q)) = Some v"
  shows "reaches e (guest a base i x) (guest a base (Suc i) (put_reg d v x))"
proof (rule reaches_body)
  fix s
  assume s: "runnable s" "\<not> should_stop s" "arch_of s = guest a base i x"
  let ?w = "assemble (Ext_M m) (Op_R d r q)"
  have ok: "sim_ok s" "mem_ok (memory s)" using s(1) by (simp_all add: runnable_def)
  have w: "Rd ?w = d" "Rs1 ?w = r" "Rs2 ?w = q" "Decode ?w = Ext_M m"
    using asm_fields_R [of "Ext_M m" d r q] asm_fields(1) [of "Ext_M m" "Op_R d r q"] assms(3,4) by simp_all
  have fields: "xreg s = x" "ip s = base + of_nat (4 * i)"
    using arg_cong [OF s(3), of X] arg_cong [OF s(3), of pc] by simp_all
  have "isa_load 4 (ip s) (arch_of s) = Some ?w"
    using assms(1-3) fields(2) unfolding s(3) by (simp add: code_at_def asm_words_def)
  then have "Fetch e (memory s) (ip s) = Inr ?w" using loads_refine(1) [OF ok(2)] by (simp add: Fetch_def)
  moreover have "ext_m_callback m e ?w s = Inr (retire ?w v s)"
    using assms(5,6) ok(1) fields(1) w(1-3)
    by (auto simp: ext_m_effects asm_mul_def split: if_splits)
  ultimately have "Execute_body e s = Inr (retire ?w v s)"
    using w(4) by (simp add: Execute_body_def Let_def)
  moreover have "arch_of (retire ?w v s) = guest a base (Suc i) (put_reg d v x)"
    using arch_of_retire [OF ok(1)] s(3) w(1) by (simp add: guest_next)
  ultimately show "\<exists>t. Execute_body e s = Inr t \<and> \<not> should_stop t \<and>
      arch_of t = guest a base (Suc i) (put_reg d v x)"
    using s(2) by simp
qed

lemma asm_step_reaches:
  assumes "code_at base prog a" "i < length prog" "insn_wf (prog ! i)" "asm_step base (prog ! i) i x a = Some (j, y, b)"
  shows "reaches e (guest a base i x) (guest b base j y)"
proof -
  obtain m ops where p: "prog ! i = (m, ops)" by fastforce
  show ?thesis
  proof (cases "m = Ext_M MULH \<or> m = Ext_M MULHSU")
    case True
    then obtain n d r q where n: "m = Ext_M n" "n = MULH \<or> n = MULHSU" "ops = Op_R d r q"
      using assms(4) p by (cases ops) auto
    then obtain v where "asm_mul n (x (unat r)) (x (unat q)) = Some v" "(j, y, b) = asm_next d i x a v"
      using assms(4) p by auto
    then show ?thesis
      using asm_mul_reaches [OF assms(1,2) _ assms(3)] p n by (auto simp: asm_next_def)
  next
    case False
    then have "isa_step e (guest a base i x) = Some (guest b base j y)"
      using asm_step_exec(1) [where m = m and ops = ops and base = base and i = i and x = x and a = a and e = e]
        asm_step_exec(2) [where m = m and ops = ops and base = base and i = i and x = x and a = a] step_assembled(1) [OF assms(1,2) p] assms(3,4) p
      by (simp del: insn_wf.simps asm_step.simps agrees.simps add: Let_def)
    then show ?thesis by (rule reaches_isa_step)
  qed
qed


section \<open>Runs of programs\<close>

lemma store_keeps_code:
  assumes "code_at base prog a" "isa_store n addr v a = Some b" "n \<le> 4"
    and "4 * length prog \<le> unat (addr - base)" "unat (addr - base) + 4 \<le> 2 ^ 32"
  shows "code_at base prog b"
proof -
  have same: "bytes b (base + of_nat (4 * i) + of_nat k) = bytes a (base + of_nat (4 * i) + of_nat k)"
    if "i < length prog" "k < 4" for i k
  proof -
    let ?p = "4 * i + k" and ?o = "unat (addr - base)"
    have p: "?p < ?o" using that assms(4) by linarith
    then have u: "unat (of_nat ?p :: u32) = ?p" using assms(5) by (simp only: unat_of_nat) simp
    have "base + of_nat (4 * i) + of_nat k - addr = of_nat ?p - (addr - base)" by simp
    moreover have "4 \<le> unat (of_nat ?p - (addr - base))"
      using p u assms(5) unat_sub_if' [of "of_nat ?p :: u32" "addr - base"] by (simp del: of_nat_add)
    ultimately have "4 \<le> unat (base + of_nat (4 * i) + of_nat k - addr)" by (simp only:)
    then have "\<not> unat (base + of_nat (4 * i) + of_nat k - addr) < n" using assms(3) by linarith
    then show ?thesis using assms(2) by (auto simp: isa_store_def split: if_splits)
  qed
  have allowed: "allowed b = allowed a" using assms(2) by (auto simp: isa_store_def split: if_splits)
  have "(isa_load 4 (base + of_nat (4 * i)) b :: u32 option) = isa_load 4 (base + of_nat (4 * i)) a"
    if "i < length prog" for i
  proof -
    have "map (\<lambda>k. the (bytes b (base + of_nat (4 * i) + of_nat k))) [0..<4] =
        map (\<lambda>k. the (bytes a (base + of_nat (4 * i) + of_nat k))) [0..<4]"
      using same [OF that] by (intro map_cong) simp_all
    then show ?thesis unfolding isa_load_def allowed by (simp only:)
  qed
  then show ?thesis using assms(1) by (simp add: code_at_def)
qed

lemma asm_step_keeps_code:
  assumes "code_at base prog a" "store_clear base (length prog) p x" "asm_step base p i x a = Some (j, y, b)"
  shows "code_at base prog b"
proof (cases "\<exists>m r q imm. p = (Ext_I m, Op_S r q imm)")
  case True
  then obtain m r q imm where p: "p = (Ext_I m, Op_S r q imm)" by blast
  then have "asm_store m (x (unat r) + imm) (x (unat q)) a = Some b" using assms(3) by auto
  then show ?thesis
    using assms(1,2) p by (cases m) (auto intro: store_keeps_code)
next
  case False
  then have "bytes b = bytes a \<and> allowed b = allowed a"
    using assms(3) by (cases "(base, p, i, x, a)" rule: asm_step.cases)
      (auto simp: asm_next_def Let_def split: if_splits option.splits)
  then show ?thesis using code_at_same [OF assms(1)] by blast
qed

lemma asm_run_reaches:
  assumes "code_at base prog a" "list_all insn_wf prog" "asm_run base prog n i x a = Some (j, y, b)"
  shows "reaches e (guest a base i x) (guest b base j y) \<and> code_at base prog b"
  using assms(1,3)
proof (induction n arbitrary: i x a)
  case 0
  then show ?case by (simp add: reaches_refl)
next
  case (Suc n)
  then obtain k z c where k: "i < length prog" "store_clear base (length prog) (prog ! i) x"
    "asm_step base (prog ! i) i x a = Some (k, z, c)" "asm_run base prog n k z c = Some (j, y, b)"
    by (auto split: if_splits option.splits simp del: asm_step.simps store_clear.simps)
  have "insn_wf (prog ! i)" using assms(2) k(1) by (simp add: list_all_length del: insn_wf.simps)
  then have "reaches e (guest a base i x) (guest c base k z)" using asm_step_reaches [OF Suc.prems(1)] k by blast
  then show ?case
    using Suc.IH [OF asm_step_keeps_code [OF Suc.prems(1) k(2,3)] k(4)] reaches_trans by blast
qed

lemma asm_run_append:
  "asm_run base prog n i x a = Some (j, y, b) \<Longrightarrow> asm_run base prog m j y b = r \<Longrightarrow> asm_run base prog (n + m) i x a = r"
  by (induction n arbitrary: i x a) (auto split: if_splits option.splits simp del: asm_step.simps store_clear.simps)

lemma exit_assembled:
  "code_at base prog a \<Longrightarrow> i < length prog \<Longrightarrow> prog ! i = (Ext_I ECALL, Op_word) \<Longrightarrow>
    isa_exits (guest a base i x) \<longleftrightarrow> x 17 = 93"
  using step_assembled(2) [of base prog a i "Ext_I ECALL" Op_word] by simp

section \<open>Loaded programs\<close>

text \<open>In memory whose segments do not meet, a segment answers for every byte of its data.\<close>

lemma segment_visible:
  assumes "segms_ok (segms m)" "s \<in> set (segms m)"
  shows "visible m s"
proof -
  obtain xs ys where ss: "segms m = xs @ s # ys" using assms(2) by (metis split_list)
  then have s: "segm_ok s" "\<forall>x \<in> set xs. segm_disjoint x s"
    using assms(1) by (auto simp: segms_ok_append list_all_iff)
  have "find_segm (segms m) (start_addr s + of_nat j) = Some s" if "j < length (data s)" for j
  proof -
    have lt: "unat (start_addr s) + j < unat (end_addr s)" using that s(1) by (simp add: segm_ok_def)
    moreover have "unat (end_addr s) < 2 ^ 32" using unsigned_less [of "end_addr s"] by simp
    ultimately have "unat (start_addr s) + j < 2 ^ 32" by linarith
    then have "unat (start_addr s + of_nat j) = unat (start_addr s) + j"
      by (simp add: unat_word_ariths unat_of_nat)
    then have here: "IsAddrInSegment (start_addr s + of_nat j) s"
      using lt by (simp add: IsAddrInSegment_def word_le_nat_alt word_less_nat_alt)
    then have "find_segm xs (start_addr s + of_nat j) = None"
      using s(2) segm_disjointD unfolding find_segm_None by blast
    then show ?thesis using here by (simp add: ss find_segm_append)
  qed
  moreover have "unat (end_addr s) < 2 ^ 32" using unsigned_less [of "end_addr s"] by simp
  then have "length (data s) < 2 ^ 32" using s(1) by (simp add: segm_ok_def)
  ultimately show ?thesis by (simp add: visible_def)
qed

lemma loaded_code:
  assumes "mem_ok (memory st)" "s \<in> set (segms (memory st))"
    and "take (4 * length prog) (drop off (data s)) = words_bytes (asm_words prog)"
  shows "code_at (start_addr s + of_nat off) prog (arch_of st)"
  unfolding code_at_def
proof (intro allI impI)
  fix i
  assume i: "i < length prog"
  have vis: "visible (memory st) s" using assms(1,2) segment_visible by (simp add: mem_ok_def)
  define k where "k = off + 4 * i"
  let ?addr = "start_addr s + of_nat off + of_nat (4 * i)"
  have len: "length (asm_words prog) = length prog" by (simp add: asm_words_def)
  then have "4 * length prog \<le> length (data s) - off"
    using arg_cong [OF assms(3), of length] by simp
  then have fits: "k + 4 \<le> length (data s)" using i by (simp add: k_def)
  have word: "take 4 (drop k (data s)) = le_bytes 4 (asm_words prog ! i)"
  proof -
    have "take 4 (drop (4 * i) (take (4 * length prog) (drop off (data s)))) = le_bytes 4 (asm_words prog ! i)"
      unfolding assms(3) using i len by (simp add: words_bytes_nth)
    moreover have "take 4 (drop (4 * i) (take (4 * length prog) (drop off (data s)))) = take 4 (drop k (data s))"
      using i by (simp add: k_def drop_take min_def add.commute)
    ultimately show ?thesis by simp
  qed
  have addr: "?addr = start_addr s + of_nat k" by (simp add: k_def)
  have "k < length (data s)" using fits by simp
  then have "find_segm (segms (memory st)) ?addr = Some s" "k < 2 ^ 32"
    unfolding addr using vis unfolding visible_def by (blast, linarith)
  then have "accessible (segms (memory st)) ?addr 4" using fits unfolding accessible_def addr
    by (simp add: unat_of_nat)
  moreover have "LoadU32 \<lparr>ndebug = False\<rparr> (memory st) ?addr = Inr (asm_words prog ! i)"
    unfolding LoadU32_def addr using visible_load [OF vis, of k, where ?'a = 32] fits word by simp
  ultimately show "isa_load 4 ?addr (arch_of st) = Some (asm_words prog ! i)"
    by (rule isa_load_word [OF assms(1)])
qed


lemma arch_of_guest: "arch_of s = guest (arch_of s) (ip s) 0 (xreg s)"
  by (simp add: guest_def)

text \<open>A run of \<open>Execute\<close> whose program exits.\<close>

lemma Execute_runs_code:
  assumes "runnable s" "\<not> should_stop s" "code_at (ip s) prog (arch_of s)" "list_all insn_wf prog"
    and "reaches e (arch_of s) (guest b (ip s) j y)" "code_at (ip s) prog b"
    and "j < length prog" "prog ! j = (Ext_I ECALL, Op_word)" "y 17 = 93"
  shows "\<exists>t. Execute e s = Some (Inr (y 10, t)) \<and> arch_of t = isa_next (guest b (ip s) j y)"
  using reaches_exit [OF assms(1,2,5)] exit_assembled [OF assms(6-8)] assms(9) by auto

text \<open>
  An ELF file with a program at its entry point, and arguments that fit: it loads, its segments
  meet neither each other nor the stack and the arguments, and one of them has the program's bytes.
\<close>

definition elf_has_code :: "u8 list elfio \<Rightarrow> u8 list list \<Rightarrow> u32 \<Rightarrow> asm \<Rightarrow> bool" where
  "elf_has_code api argv base prog \<longleftrightarrow>
     2 \<le> length argv \<and>
     (let a = \<lparr>args_count = int (length argv) - 1, args_strings = tl argv\<rparr> in
      args_fit a \<and>
      (\<exists>p segm off. LoadElf api (argv ! 1) = Inr p \<and> elf_clear p a \<and> segms_ok (mem p) \<and>
         segm \<in> set (mem p) \<and> entry_point p = base \<and> base = start_addr segm + of_nat off \<and>
         take (4 * length prog) (drop off (data segm)) = words_bytes (asm_words prog)))"

lemma main_runs_code:
  assumes "elf_has_code api argv base prog" "argc = int (length argv)"
  obtains s where "runnable s" "\<not> should_stop s" "ip s = base" "code_at base prog (arch_of s)"
    "xreg s 0 = 0" "fcsr s = 0" "host s = w"
    "main e api rounding flags w argc argv = map_option (\<lambda>r. and_then r (\<lambda>(status, _). Inr status)) (Execute e s)"
proof -
  let ?a = "\<lparr>args_count = argc - 1, args_strings = tl argv\<rparr>"
  obtain p segm off where p: "2 \<le> length argv" "args_fit ?a" "LoadElf api (argv ! 1) = Inr p" "elf_clear p ?a"
    "segms_ok (mem p)" "segm \<in> set (mem p)" "entry_point p = base" "base = start_addr segm + of_nat off"
    "take (4 * length prog) (drop off (data segm)) = words_bytes (asm_words prog)"
    using assms unfolding elf_has_code_def Let_def by blast
  obtain sim where sim: "RVSim p ?a = Inr sim" "sim_ok sim" by (rule RVSim_total [OF p(2)])
  let ?s = "start sim rounding flags w"
  have init: "memory sim = initial_memory p ?a" "\<not> should_stop sim" "ip sim = entry_point p" "fcsr sim = 0"
    using RVSim_effect [OF p(2), of p] sim(1) by (auto simp: initial_memory_def)
  have ok: "mem_ok (memory ?s)" using startup_segms_ok [OF p(2,4,5)] init(1) by simp
  have "segm \<in> set (segms (memory ?s))" using p(6) init(1) by (simp add: initial_memory_def)
  then have code: "code_at base prog (arch_of ?s)" using loaded_code [OF ok _ p(9)] p(8) by simp
  have "fcsr ?s = 0" "host ?s = w" using init(4) by (simp_all add: start_def rvsim.extend_def machine.fields_def)
  then show ?thesis
    using that [of ?s] ok sim(2) init(2,3) p(7) code main_simulates [OF assms(2) p(1,3) sim(1), of e rounding flags w]
    by (simp add: runnable_def xreg_def)
qed


text \<open>An ELF file made of a program, with one segment, from address \<open>0x1000\<close> on.\<close>

definition elfio_of :: "asm \<Rightarrow> u8 list elfio" where
  "elfio_of prog = sample_elfio\<lparr>load := \<lambda>path. Some
     \<lparr>machine_id = 243, elf_class = 1,
      segments = [\<lparr>segment_type = 1, virtual_address = 0x1000, memory_size = of_nat (4 * length prog),
        file_size = of_nat (4 * length prog), segment_data = words_bytes (asm_words prog), segment_flags = 5\<rparr>],
      sections = [], entry = 0x1000\<rparr>\<rparr>"

definition sample_argv :: "u8 list list" where
  "sample_argv = [[115], [97], [49, 50]]"

lemma elfio_of_has_code:
  assumes "length prog < 2 ^ 16"
  shows "elf_has_code (elfio_of prog) sample_argv 0x1000 prog"
proof -
  let ?segm = "\<lparr>start_addr = 0x1000, end_addr = 0x1000 + of_nat (4 * length prog), data = words_bytes (asm_words prog),
     r_permission = True, w_permission = False, x_permission = True\<rparr>"
  let ?p = "\<lparr>mem = [?segm], entry_point = 0x1000, global_ptr = 0\<rparr>"
  have len: "length (asm_words prog) = length prog" by (simp add: asm_words_def)
  have "4 * length prog < 2 ^ 32" using assms by simp
  then have size: "unat (of_nat (4 * length prog) :: u32) = 4 * length prog"
    "(ucast (of_nat (4 * length prog) :: u64) :: u32) = of_nat (4 * length prog)"
    by (simp_all only: unat_of_nat unsigned_of_nat take_bit_nat_eq_self_iff) (simp_all add: take_bit_nat_eq_self)
  have load: "LoadElf (elfio_of prog) (sample_argv ! 1) = Inr ?p"
    using len size
    by (simp add: elfio_of_def LoadElf_def sample_elfio_def IsTargetCorrect_def load_segment_def memcpy_from_def
        memcpy_to_def Let_def)
  have "unat (0x1000 + of_nat (4 * length prog) :: u32) = 0x1000 + 4 * length prog"
    using assms by (simp add: unat_word_ariths unat_of_nat)
  then have "elf_clear ?p sample_args" "segms_ok (mem ?p)"
    using assms len by (simp_all add: elf_clear_def segm_disjoint_def stack_segment_def argv_segment_def
        kStackBase_def kArgvBase_def kStackTop_def kStackSize_def segm_ok_def word_le_nat_alt)
  moreover have "sample_args = \<lparr>args_count = int (length sample_argv) - 1, args_strings = tl sample_argv\<rparr>"
    by (simp add: sample_args_def sample_argv_def)
  ultimately show ?thesis
    using load sample_startup(1) len
    by (auto simp: elf_has_code_def Let_def sample_argv_def intro!: exI [of _ ?p] exI [of _ 0])
qed

end
