(* ===== verification/RV_Guest.thy ===== *)
theory RV_Guest
  imports RV_Asm
begin

text \<open>
  Two of the repository's test programs, verified as the simulator runs them: \<open>tests/gcd.s\<close>, a
  loop, with its constants as parameters, and \<open>tests/rw_syscalls.s\<close>, which calls the host.
\<close>

unbundle bit_operations_syntax

section \<open>tests/gcd.s\<close>

text \<open>
  The test program with its constants as parameters: the two numbers and the expected divisor.
  A branch's operand is the distance to its label: \<open>gcd_loop\<close> is at index 3, \<open>gcd_a_less\<close> at 7
  and \<open>gcd_done\<close> at 9.
\<close>

definition gcd_s :: "u32 \<Rightarrow> u32 \<Rightarrow> u32 \<Rightarrow> asm" where
  "gcd_s a b expected =
    [(Ext_I ADDI, Op_I 5 0 0),
     (Ext_I ADDI, Op_I 8 0 a),
     (Ext_I ADDI, Op_I 9 0 b),
     (Ext_I BEQ, Op_B 8 9 24),
     (Ext_I BLT, Op_B 8 9 12),
     (Ext_I SUB, Op_R 8 8 9),
     (Ext_I JAL, Op_J 0 (- 12)),
     (Ext_I SUB, Op_R 9 9 8),
     (Ext_I JAL, Op_J 0 (- 20)),
     (Ext_I ADD, Op_R 18 0 8),
     (Ext_I ADDI, Op_I 6 0 expected),
     (Ext_I SUB, Op_R 6 18 6),
     (Ext_I ADD, Op_R 5 5 6),
     (Ext_I ADDI, Op_I 10 5 0),
     (Ext_I ADDI, Op_I 17 0 93),
     (Ext_I ECALL, Op_word)]"

lemma gcd_s_wf:
  assumes "signed_take_bit 11 a = a" "signed_take_bit 11 b = b" "signed_take_bit 11 c = c"
  shows "list_all insn_wf (gcd_s a b c)"
  using assms by (simp add: gcd_s_def)



text \<open>The loop subtracts the smaller number from the larger one; their sum decreases.\<close>

lemma gcd_s_loop:
  assumes "code_at base (gcd_s a b c) s" "list_all insn_wf (gcd_s a b c)"
    and "0 < m" "0 < n" "m < 2 ^ 31" "n < 2 ^ 31" "x 8 = of_nat m" "x 9 = of_nat n"
  shows "reaches e (guest s base 3 x) (guest s base 9 (x(8 := of_nat (gcd m n), 9 := of_nat (gcd m n))))"
  using assms(3-)
proof (induction "m + n" arbitrary: m n x rule: less_induct)
  case less
  note run = asm_run_reaches [OF assms(1,2), of _ 3 x _ _ _ e, THEN conjunct1]
  have sint: "sint (of_nat k :: u32) = int k" if "k < 2 ^ 31" for k
    using that by (simp add: signed_of_nat signed_take_bit_int_eq_self)
  have order: "x 8 = x 9 \<longleftrightarrow> m = n" "sint (x 8) < sint (x 9) \<longleftrightarrow> m < n"
    using less.prems sint [of m] sint [of n] by (metis of_nat_eq_iff, simp add: sint)
  note eval = asm_run_numeral gcd_s_def put_reg_def asm_next_def asm_alu_def less_words index_of_def
  consider "m = n" | "m < n" | "n < m" by linarith
  then show ?case
  proof cases
    case 1
    then have "x(8 := of_nat (gcd m n), 9 := of_nat (gcd m n)) = x" using less.prems by auto
    moreover have "asm_run base (gcd_s a b c) 1 3 x s = Some (9, x, s)" using 1 order by (simp add: eval)
    ultimately show ?thesis using run by metis
  next
    case 2
    let ?x = "x(9 := of_nat (n - m))"
    have "reaches e (guest s base 3 ?x) (guest s base 9 (?x(8 := of_nat (gcd m (n - m)), 9 := of_nat (gcd m (n - m)))))"
      using 2 less.prems by (intro less.hyps) simp_all
    moreover have "gcd m (n - m) = gcd m n" using 2 by (metis gcd.commute gcd_diff1_nat less_imp_le)
    moreover have "x 9 - x 8 = of_nat (n - m)" using 2 less.prems by (simp add: of_nat_diff)
    then have "asm_run base (gcd_s a b c) 4 3 x s = Some (3, ?x, s)" using 2 order by (simp add: eval)
    ultimately show ?thesis using reaches_trans [OF run] by (simp add: fun_upd_twist)
  next
    case 3
    let ?x = "x(8 := of_nat (m - n))"
    have "reaches e (guest s base 3 ?x) (guest s base 9 (?x(8 := of_nat (gcd (m - n) n), 9 := of_nat (gcd (m - n) n))))"
      using 3 less.prems by (intro less.hyps) simp_all
    moreover have "gcd (m - n) n = gcd m n" using 3 by (simp add: gcd_diff1_nat)
    moreover have "x 8 - x 9 = of_nat (m - n)" using 3 less.prems by (simp add: of_nat_diff)
    then have "asm_run base (gcd_s a b c) 4 3 x s = Some (3, ?x, s)" using 3 order by (simp add: eval)
    ultimately show ?thesis using reaches_trans [OF run] by simp
  qed
qed

text \<open>The whole test, up to the exit call.\<close>

lemma small_immediate:
  assumes "j < 2048"
  shows "signed_take_bit 11 (of_nat j) = (of_nat j :: u32)"
proof -
  have "\<not> bit (of_nat j :: u32) 11" using assms by (simp only: bit_of_nat_iff) (simp add: bit_iff_odd)
  moreover have "take_bit 11 (of_nat j :: u32) = of_nat j"
    using assms by (simp add: take_bit_of_nat take_bit_nat_eq_self)
  ultimately show ?thesis by (simp add: signed_take_bit_eq_if_positive)
qed

lemma gcd_s_reaches:
  assumes "code_at base (gcd_s (of_nat m) (of_nat n) (of_nat k)) s"
    and "list_all insn_wf (gcd_s (of_nat m) (of_nat n) (of_nat k))"
    and "0 < m" "0 < n" "m < 2048" "n < 2048" "x 0 = 0"
  shows "\<exists>y. reaches e (guest s base 0 x) (guest s base 15 y) \<and> y 17 = 93 \<and> y 10 = of_nat (gcd m n) - of_nat k"
proof -
  let ?prog = "gcd_s (of_nat m) (of_nat n) (of_nat k)"
  note run = asm_run_reaches [OF assms(1,2), THEN conjunct1]
  note eval = asm_run_numeral gcd_s_def put_reg_def asm_next_def asm_alu_def assms(7)
  let ?g = "of_nat (gcd m n) :: u32"
  let ?x = "x(5 := 0, 8 := of_nat m, 9 := of_nat n)"
  let ?y = "?x(8 := ?g, 9 := ?g)"
  let ?z = "?y(18 := ?g, 6 := of_nat k, 6 := ?g - of_nat k, 5 := ?g - of_nat k, 10 := ?g - of_nat k, 17 := 93)"
  have start: "asm_run base ?prog 3 0 x s = Some (3, ?x, s)" by (simp add: eval)
  have loop: "reaches e (guest s base 3 ?x) (guest s base 9 ?y)"
    using assms by (intro gcd_s_loop [OF assms(1,2)]) simp_all
  have check: "asm_run base ?prog 6 9 ?y s = Some (15, ?z, s)" by (simp add: eval)
  have "reaches e (guest s base 0 x) (guest s base 15 ?z)"
    by (rule reaches_trans [OF run [OF start] reaches_trans [OF loop run [OF check]]])
  then show ?thesis by (intro exI [of _ ?z]) simp
qed

text \<open>
  C13: The test program \<open>gcd.s\<close>, run by \<open>main\<close>. When an ELF file has the instructions of
  \<open>tests/gcd.s\<close> at its entry point, with any two positive numbers in place of the test's 1071 and
  462 and any expected divisor, the process ends with the difference between the greatest common
  divisor and the expected one as its status.
\<close>

theorem main_runs_gcd_test:
  assumes "elf_has_code api argv base (gcd_s (of_nat m) (of_nat n) (of_nat k))" "argc = int (length argv)"
    and "0 < m" "0 < n" "m < 2048" "n < 2048" "k < 2048"
  shows "main e api rounding flags w argc argv = Some (Inr (of_nat (gcd m n) - of_nat k))"
proof -
  let ?prog = "gcd_s (of_nat m) (of_nat n) (of_nat k)"
  have wf: "list_all insn_wf ?prog" using assms by (intro gcd_s_wf small_immediate)
  obtain s where s: "runnable s" "\<not> should_stop s" "ip s = base" "code_at base ?prog (arch_of s)" "xreg s 0 = 0"
    "main e api rounding flags w argc argv = map_option (\<lambda>r. and_then r (\<lambda>(status, _). Inr status)) (Execute e s)"
    using main_runs_code [OF assms(1,2)] by metis
  obtain y where y: "reaches e (arch_of s) (guest (arch_of s) (ip s) 15 y)" "y 17 = 93"
    "y 10 = of_nat (gcd m n) - of_nat k"
    using gcd_s_reaches [OF s(4) wf assms(3-6), of "xreg s" e] s(3,5) arch_of_guest [of s] by metis
  have "\<exists>t. Execute e s = Some (Inr (y 10, t))"
    using Execute_runs_code [OF s(1,2) _ wf y(1)] s(3,4) y(2) by (auto simp: gcd_s_def)
  then show ?thesis using s(6) y(3) by auto
qed

text \<open>The test as it is in the repository succeeds.\<close>

lemma main_runs_gcd_test_witness:
  "main (sample_env False) (elfio_of (gcd_s 1071 462 21)) 0 0 [] 3 sample_argv = Some (Inr 0)"
proof -
  have "elf_has_code (elfio_of (gcd_s 1071 462 21)) sample_argv 0x1000 (gcd_s 1071 462 21)"
    by (rule elfio_of_has_code) (simp add: gcd_s_def)
  moreover have "gcd 1071 462 = (21 :: nat)" by (simp add: gcd_non_0_nat)
  ultimately show ?thesis
    using main_runs_gcd_test [where m = 1071 and n = 462 and k = 21 and argc = 3 and argv = sample_argv
        and api = "elfio_of (gcd_s 1071 462 21)" and base = "0x1000"]
    by (simp add: sample_argv_def)
qed

section \<open>tests/rw_syscalls.s\<close>

text \<open>
  The pseudo-instruction \<open>la\<close> is \<open>AUIPC\<close> and \<open>ADDI\<close> with the two parts of the distance to the
  message, which the linker chooses; \<open>li\<close> of a small constant is \<open>ADDI\<close>.
\<close>

definition rw_syscalls_s :: "u32 \<Rightarrow> u32 \<Rightarrow> asm" where
  "rw_syscalls_s hi lo =
    [(Ext_I AUIPC, Op_U 11 hi),
     (Ext_I ADDI, Op_I 11 11 lo),
     (Ext_I ADDI, Op_I 10 0 1),
     (Ext_I ADDI, Op_I 12 0 13),
     (Ext_I ADDI, Op_I 17 0 64),
     (Ext_I ECALL, Op_word),
     (Ext_I ADDI, Op_I 10 0 0),
     (Ext_I ADDI, Op_I 17 0 93),
     (Ext_I ECALL, Op_word)]"

definition rw_syscalls_msg :: "u8 list" where
  "rw_syscalls_msg = map of_char (''Hello, world'' @ [CHR 0x0A])"

lemma write_step:
  assumes "code_at base prog a" "i < length prog" "prog ! i = (Ext_I ECALL, Op_word)" "x 17 = 64"
    and "\<forall>j < length msg. bytes a (x 11 + of_nat j) = Some (msg ! j) \<and> allowed a (x 11 + of_nat j) 1"
    and "x 12 = of_nat (length msg)" "length msg < 2 ^ 32"
    and "host_write e (x 10) msg (world a) = (wc, w)"
  shows "isa_step e (guest a base i x) = Some (guest (a\<lparr>world := w\<rparr>) base (Suc i) (x(10 := ucast wc)))"
proof -
  have n: "unat (x 12) = length msg" using assms(6,7) by (simp add: unat_of_nat)
  have "map (\<lambda>j. the (bytes a (x 11 + of_nat j))) [0..<length msg] = msg"
    using assms(5) by (intro nth_equalityI) simp_all
  moreover have "isa_range (guest a base i x) (x 11) (length msg)"
    using assms(5) by (simp add: isa_range_def list_all_iff)
  ultimately have "isa_write e (guest a base i x) = Some (guest (a\<lparr>world := w\<rparr>) base (Suc i) (x(10 := ucast wc)))"
    using assms(8) n by (simp add: isa_write_def Let_def isa_result_def isa_next_def guest_def)
  moreover have "insn_wf (Ext_I ECALL, Op_word)" by simp
  ultimately show ?thesis
    using step_assembled(1) [OF assms(1-3)] assms(4) by (simp add: isa_ecall_def Let_def)
qed


text \<open>
  C14: The test program \<open>rw_syscalls.s\<close>. Wherever it and its message are in memory, the run ends
  with status 0 after exactly one call of the host's \<open>write\<close>, on descriptor 1 and with the bytes
  of \<open>Hello, world\<close> and a line feed; memory is as before.
\<close>

theorem write_test_runs:
  assumes "sim_ok s" "mem_ok (memory s)" "\<not> should_stop s"
    and "code_at (ip s) (rw_syscalls_s hi lo) (arch_of s)" "take_bit 12 hi = 0" "signed_take_bit 11 lo = lo"
    and "\<forall>j < 13. byte_at (segms (memory s)) (ip s + hi + lo + of_nat j) = Some (rw_syscalls_msg ! j)"
  shows "\<exists>t. Execute e s = Some (Inr (0, t)) \<and> host t = snd (host_write e 1 rw_syscalls_msg (host s)) \<and>
    byte_at (segms (memory t)) = byte_at (segms (memory s))"
proof -
  let ?prog = "rw_syscalls_s hi lo" and ?a = "arch_of s" and ?x = "xreg s"
  have wf: "list_all insn_wf ?prog" using assms(5,6) by (simp add: rw_syscalls_s_def)
  have len: "length rw_syscalls_msg = 13" by (simp add: rw_syscalls_msg_def)
  obtain wc w where host: "host_write e 1 rw_syscalls_msg (host s) = (wc, w)" by fastforce
  let ?b = "?a\<lparr>world := w\<rparr>"
  have code: "code_at (ip s) ?prog ?b" by (rule code_at_same [OF assms(4)]) simp_all
  note eval = asm_run_numeral rw_syscalls_s_def put_reg_def asm_next_def
  let ?y = "?x(11 := ip s + hi, 11 := ip s + hi + lo, 10 := 1, 12 := 13, 17 := 64)"
  let ?z = "?y(10 := ucast wc, 10 := 0, 17 := 93)"
  have before: "asm_run (ip s) ?prog 5 0 ?x ?a = Some (5, ?y, ?a)" by (simp add: eval xreg_def)
  have call: "isa_step e (guest ?a (ip s) 5 ?y) = Some (guest ?b (ip s) (Suc 5) (?y(10 := ucast wc)))"
    using assms(7) len host
    by (intro write_step [OF assms(4)]) (simp_all add: rw_syscalls_s_def accessible_iff_bytes_1 [unfolded One_nat_def])
  have after: "asm_run (ip s) ?prog 2 6 (?y(10 := ucast wc)) ?b = Some (8, ?z, ?b)" by (simp add: eval xreg_def)
  have "reaches e (guest ?a (ip s) 0 ?x) (guest ?b (ip s) 8 ?z)"
    using reaches_trans [OF asm_run_reaches [OF assms(4) wf before, THEN conjunct1] reaches_trans [OF reaches_isa_step [OF call]]]
      asm_run_reaches [OF code wf after, THEN conjunct1] by simp
  moreover have "runnable s" using assms(1,2) by (simp add: runnable_def)
  ultimately obtain t where t: "Execute e s = Some (Inr (0, t))" "arch_of t = isa_next (guest ?b (ip s) 8 ?z)"
    using Execute_runs_code [of s ?prog e ?b 8 ?z] assms(3,4) wf code
    unfolding arch_of_guest [of s, symmetric] by (auto simp: rw_syscalls_s_def)
  have "host t = w" "byte_at (segms (memory t)) = byte_at (segms (memory s))"
    using arg_cong [OF t(2), of world] arg_cong [OF t(2), of bytes] by (simp_all add: isa_next_def)
  then show ?thesis using t(1) host by auto
qed


definition write_segment :: MemorySegm where
  "write_segment = \<lparr>start_addr = 0x1000, end_addr = 0x1031,
     data = words_bytes (asm_words (rw_syscalls_s 0 36)) @ rw_syscalls_msg,
     r_permission = True, w_permission = True, x_permission = True\<rparr>"

lemma write_test_runs_witness:
  "\<exists>t. Execute (sample_env False) (sample_machine\<lparr>memory := \<lparr>segms = [write_segment]\<rparr>\<rparr>) = Some (Inr (0, t)) \<and>
    host t = rw_syscalls_msg"
proof -
  let ?s = "sample_machine\<lparr>memory := \<lparr>segms = [write_segment]\<rparr>\<rparr>"
  have len: "length (words_bytes (asm_words (rw_syscalls_s 0 36))) = 36" "length rw_syscalls_msg = 13"
    by (simp_all add: asm_words_def rw_syscalls_s_def rw_syscalls_msg_def)
  have ok: "mem_ok (memory ?s)" using len by (simp add: mem_ok_def write_segment_def segm_ok_def)
  have s: "sim_ok ?s" "\<not> should_stop ?s" using sample_machine_ok by simp_all
  have "code_at (start_addr write_segment + of_nat 0) (rw_syscalls_s 0 36) (arch_of ?s)"
    using len ok by (intro loaded_code) (simp_all add: write_segment_def rw_syscalls_s_def)
  then have code: "code_at (ip ?s) (rw_syscalls_s 0 36) (arch_of ?s)" by (simp add: write_segment_def)
  have "byte_at [write_segment] (0x1000 + of_nat (36 + j)) = Some (rw_syscalls_msg ! j)" if "j < 13" for j
  proof -
    have "unat (of_nat (36 + j) :: u32) = 36 + j" using that by (simp add: unat_word_ariths unat_of_nat)
    moreover have "IsAddrInSegment (0x1000 + of_nat (36 + j)) write_segment"
      using that by (simp add: IsAddrInSegment_def write_segment_def word_le_nat_alt word_less_nat_alt unat_word_ariths unat_of_nat)
    ultimately show ?thesis using that len by (simp add: byte_at_def write_segment_def nth_append Let_def del: of_nat_add)
  qed
  then have "\<forall>j < 13. byte_at (segms (memory ?s)) (ip ?s + 0 + 36 + of_nat j) = Some (rw_syscalls_msg ! j)"
    by (simp add: add.assoc)
  from write_test_runs [OF s(1) ok s(2) code _ _ this, of "sample_env False"]
  show ?thesis by (auto simp: sample_env_def)
qed

end
