(* ===== verification/RV_Suite.thy ===== *)
theory RV_Suite
  imports RV_Asm
begin

text \<open>
  The repository's test programs that use registers only, \<open>tests/*.s\<close>, assembled: operands are
  register numbers, a branch's operand is the distance to its label, and \<open>li\<close> is the one or two
  instructions it stands for. Each test adds up the differences between actual and expected
  results and exits with the sum. \<open>gcd.s\<close>, \<open>rw_syscalls.s\<close>, \<open>st_ld.s\<close> and \<open>fib_rec.s\<close> are in
  theories of their own; the results of the tests of floating point are SoftFloat's.
\<close>

unbundle bit_operations_syntax

section \<open>The programs\<close>

text \<open>The two parts of an address that \<open>LUI\<close> and \<open>ADDI\<close> put together again.\<close>

definition hi_part :: "u32 \<Rightarrow> u32" where
  "hi_part v = push_bit 12 (drop_bit 12 (v + 0x800))"

definition lo_part :: "u32 \<Rightarrow> u32" where
  "lo_part v = v - hi_part v"

lemma hi_lo: "hi_part v + lo_part v = v" "w + hi_part v + lo_part v = w + v"
  by (simp_all add: lo_part_def)

lemma hi_lo_fit: "take_bit 12 (hi_part v) = 0" "signed_take_bit 11 (lo_part v) = lo_part v"
proof -
  show "take_bit 12 (hi_part v) = 0" unfolding hi_part_def by (simp add: take_bit_push_bit)
  define t where "t = take_bit 12 (v + 0x800)"
  define h where "h = hi_part v"
  have "h + t = v + 0x800" unfolding h_def hi_part_def t_def by (rule bits_ident)
  then have v: "v = h + t - 0x800" by simp
  have "v - h = t - 0x800" unfolding v by simp
  then have "lo_part v = t - 0x800" by (simp only: lo_part_def h_def)
  also have "\<dots> = word_of_int (uint t - 2048)" by simp
  finally have lo: "lo_part v = word_of_int (uint t - 2048)" .
  have "uint t < 4096" unfolding t_def by (simp add: unsigned_take_bit_eq take_bit_int_less_exp [of 12, simplified])
  then have "signed_take_bit 11 (uint t - 2048) = uint t - 2048"
    by (intro signed_take_bit_int_eq_self) simp_all
  then show "signed_take_bit 11 (lo_part v) = lo_part v"
    unfolding lo by (metis signed_take_bit_of_int)
qed

definition elf_run_s :: "asm" where
  "elf_run_s =
    [(Ext_I ADDI, Op_I 10 0 0), (Ext_I ADDI, Op_I 17 0 93), (Ext_I ECALL, Op_word)]"

definition add_sub_s :: "asm" where
  "add_sub_s =
    [(Ext_I ADDI, Op_I 5 0 0), (Ext_I ADDI, Op_I 6 0 10), (Ext_I ADDI, Op_I 7 0 3),
     (Ext_I ADD, Op_R 28 6 7), (Ext_I ADDI, Op_I 29 0 13), (Ext_I SUB, Op_R 29 28 29),
     (Ext_I ADD, Op_R 5 5 29), (Ext_I SUB, Op_R 30 6 7), (Ext_I ADDI, Op_I 31 0 7),
     (Ext_I SUB, Op_R 31 30 31), (Ext_I ADD, Op_R 5 5 31), (Ext_I SUB, Op_R 8 7 6),
     (Ext_I ADDI, Op_I 9 0 (- 7)), (Ext_I SUB, Op_R 9 8 9), (Ext_I ADD, Op_R 5 5 9),
     (Ext_I ADDI, Op_I 10 5 0), (Ext_I ADDI, Op_I 17 0 93), (Ext_I ECALL, Op_word)]"

definition addi_s :: "asm" where
  "addi_s =
    [(Ext_I ADDI, Op_I 5 0 0), (Ext_I ADDI, Op_I 6 0 0), (Ext_I ADDI, Op_I 6 6 1),
     (Ext_I ADDI, Op_I 6 6 2), (Ext_I ADDI, Op_I 6 6 (- 3)), (Ext_I ADD, Op_R 5 5 6),
     (Ext_I ADDI, Op_I 7 0 (- 1)), (Ext_I ADDI, Op_I 7 7 1), (Ext_I ADD, Op_R 5 5 7),
     (Ext_I ADDI, Op_I 0 7 7), (Ext_I ADDI, Op_I 28 0 0), (Ext_I ADD, Op_R 5 5 28),
     (Ext_I ADDI, Op_I 10 5 0), (Ext_I ADDI, Op_I 17 0 93), (Ext_I ECALL, Op_word)]"

definition logic_s :: "asm" where
  "logic_s =
    [(Ext_I ADDI, Op_I 5 0 0), (Ext_I ADDI, Op_I 6 0 5), (Ext_I ADDI, Op_I 7 0 3),
     (Ext_I AND_insn, Op_R 28 6 7), (Ext_I ADDI, Op_I 29 0 1), (Ext_I SUB, Op_R 29 28 29),
     (Ext_I ADD, Op_R 5 5 29), (Ext_I OR_insn, Op_R 28 6 7), (Ext_I ADDI, Op_I 29 0 7),
     (Ext_I SUB, Op_R 29 28 29), (Ext_I ADD, Op_R 5 5 29), (Ext_I XOR_insn, Op_R 28 6 7),
     (Ext_I ADDI, Op_I 29 0 6), (Ext_I SUB, Op_R 29 28 29), (Ext_I ADD, Op_R 5 5 29),
     (Ext_I ANDI, Op_I 28 6 1), (Ext_I ADDI, Op_I 29 0 1), (Ext_I SUB, Op_R 29 28 29),
     (Ext_I ADD, Op_R 5 5 29), (Ext_I ORI, Op_I 28 7 4), (Ext_I ADDI, Op_I 29 0 7),
     (Ext_I SUB, Op_R 29 28 29), (Ext_I ADD, Op_R 5 5 29), (Ext_I XORI, Op_I 28 7 6),
     (Ext_I ADDI, Op_I 29 0 5), (Ext_I SUB, Op_R 29 28 29), (Ext_I ADD, Op_R 5 5 29),
     (Ext_I ADDI, Op_I 10 5 0), (Ext_I ADDI, Op_I 17 0 93), (Ext_I ECALL, Op_word)]"

definition set_less_s :: "asm" where
  "set_less_s =
    [(Ext_I ADDI, Op_I 5 0 0), (Ext_I ADDI, Op_I 6 0 (- 1)), (Ext_I ADDI, Op_I 7 0 1),
     (Ext_I SLT, Op_R 28 6 7), (Ext_I ADDI, Op_I 29 0 1), (Ext_I SUB, Op_R 29 28 29),
     (Ext_I ADD, Op_R 5 5 29), (Ext_I SLTU, Op_R 28 6 7), (Ext_I ADDI, Op_I 29 0 0),
     (Ext_I SUB, Op_R 29 28 29), (Ext_I ADD, Op_R 5 5 29), (Ext_I SLT, Op_R 28 7 6),
     (Ext_I ADDI, Op_I 29 0 0), (Ext_I SUB, Op_R 29 28 29), (Ext_I ADD, Op_R 5 5 29),
     (Ext_I SLTU, Op_R 28 7 6), (Ext_I ADDI, Op_I 29 0 1), (Ext_I SUB, Op_R 29 28 29),
     (Ext_I ADD, Op_R 5 5 29), (Ext_I SLTI, Op_I 28 6 0), (Ext_I ADDI, Op_I 29 0 1),
     (Ext_I SUB, Op_R 29 28 29), (Ext_I ADD, Op_R 5 5 29), (Ext_I SLTIU, Op_I 28 6 0),
     (Ext_I ADDI, Op_I 29 0 0), (Ext_I SUB, Op_R 29 28 29), (Ext_I ADD, Op_R 5 5 29),
     (Ext_I ADDI, Op_I 10 5 0), (Ext_I ADDI, Op_I 17 0 93), (Ext_I ECALL, Op_word)]"

definition shifts_s :: "asm" where
  "shifts_s =
    [(Ext_I ADDI, Op_I 5 0 0), (Ext_I ADDI, Op_I 6 0 1), (Ext_I SLLI, Op_R 7 6 3),
     (Ext_I ADDI, Op_I 28 0 8), (Ext_I SUB, Op_R 28 7 28), (Ext_I ADD, Op_R 5 5 28),
     (Ext_I SRLI, Op_R 7 7 2), (Ext_I ADDI, Op_I 28 0 2), (Ext_I SUB, Op_R 28 7 28),
     (Ext_I ADD, Op_R 5 5 28), (Ext_I ADDI, Op_I 6 0 (- 16)), (Ext_I SRAI, Op_R 7 6 2),
     (Ext_I ADDI, Op_I 28 0 (- 4)), (Ext_I SUB, Op_R 28 7 28), (Ext_I ADD, Op_R 5 5 28),
     (Ext_I ADDI, Op_I 10 5 0), (Ext_I ADDI, Op_I 17 0 93), (Ext_I ECALL, Op_word)]"

definition lui_auipc_s :: "asm" where
  "lui_auipc_s =
    [(Ext_I ADDI, Op_I 5 0 0), (Ext_I ADDI, Op_I 6 0 1), (Ext_I SLLI, Op_R 6 6 12),
     (Ext_I LUI, Op_U 7 4096), (Ext_I SUB, Op_R 28 7 6), (Ext_I ADD, Op_R 5 5 28),
     (Ext_I AUIPC, Op_U 29 0), (Ext_I AUIPC, Op_U 30 0), (Ext_I SUB, Op_R 31 30 29),
     (Ext_I ADDI, Op_I 8 0 4), (Ext_I SUB, Op_R 8 31 8), (Ext_I ADD, Op_R 5 5 8),
     (Ext_I ADDI, Op_I 10 5 0), (Ext_I ADDI, Op_I 17 0 93), (Ext_I ECALL, Op_word)]"

definition branches_s :: "asm" where
  "branches_s =
    [(Ext_I ADDI, Op_I 5 0 0), (Ext_I ADDI, Op_I 6 0 5), (Ext_I ADDI, Op_I 7 0 5),
     (Ext_I BEQ, Op_B 6 7 8), (Ext_I ADDI, Op_I 5 5 1), (Ext_I ADDI, Op_I 6 0 5),
     (Ext_I ADDI, Op_I 7 0 7), (Ext_I BEQ, Op_B 6 7 8), (Ext_I BEQ, Op_B 0 0 8),
     (Ext_I ADDI, Op_I 5 5 1), (Ext_I ADDI, Op_I 6 0 5), (Ext_I ADDI, Op_I 7 0 7),
     (Ext_I BNE, Op_B 6 7 8), (Ext_I ADDI, Op_I 5 5 1), (Ext_I ADDI, Op_I 6 0 9),
     (Ext_I ADDI, Op_I 7 0 9), (Ext_I BNE, Op_B 6 7 8), (Ext_I BEQ, Op_B 0 0 8),
     (Ext_I ADDI, Op_I 5 5 1), (Ext_I ADDI, Op_I 6 0 (- 1)), (Ext_I ADDI, Op_I 7 0 1),
     (Ext_I BLT, Op_B 6 7 8), (Ext_I ADDI, Op_I 5 5 1), (Ext_I BLT, Op_B 7 6 8),
     (Ext_I BEQ, Op_B 0 0 8), (Ext_I ADDI, Op_I 5 5 1), (Ext_I BGE, Op_B 6 7 8),
     (Ext_I BEQ, Op_B 0 0 8), (Ext_I ADDI, Op_I 5 5 1), (Ext_I BGE, Op_B 7 6 8),
     (Ext_I ADDI, Op_I 5 5 1), (Ext_I BLTU, Op_B 7 6 8), (Ext_I ADDI, Op_I 5 5 1),
     (Ext_I BLTU, Op_B 6 7 8), (Ext_I BEQ, Op_B 0 0 8), (Ext_I ADDI, Op_I 5 5 1),
     (Ext_I BGEU, Op_B 6 7 8), (Ext_I ADDI, Op_I 5 5 1), (Ext_I BGEU, Op_B 7 6 8),
     (Ext_I BEQ, Op_B 0 0 8), (Ext_I ADDI, Op_I 5 5 1), (Ext_I ADDI, Op_I 10 5 0),
     (Ext_I ADDI, Op_I 17 0 93), (Ext_I ECALL, Op_word)]"

definition jal_s :: "asm" where
  "jal_s =
    [(Ext_I ADDI, Op_I 5 0 0), (Ext_I JAL, Op_J 0 8), (Ext_I ADDI, Op_I 5 5 1),
     (Ext_I ADDI, Op_I 10 5 0), (Ext_I ADDI, Op_I 17 0 93), (Ext_I ECALL, Op_word)]"

definition jalr_s :: "u32 \<Rightarrow> asm" where
  "jalr_s func =
    [(Ext_I ADDI, Op_I 5 0 0), (Ext_I ADDI, Op_I 8 0 0), (Ext_I LUI, Op_U 6 (hi_part func)),
     (Ext_I ADDI, Op_I 6 6 (lo_part func)), (Ext_I JALR, Op_I 1 6 0), (Ext_I ADDI, Op_I 7 0 1),
     (Ext_I SUB, Op_R 7 8 7), (Ext_I ADD, Op_R 5 5 7), (Ext_I ADDI, Op_I 10 5 0),
     (Ext_I ADDI, Op_I 17 0 93), (Ext_I ECALL, Op_word), (Ext_I ADDI, Op_I 8 0 1),
     (Ext_I JALR, Op_I 0 1 0)]"

definition fib_it_s :: "asm" where
  "fib_it_s =
    [(Ext_I ADDI, Op_I 5 0 0), (Ext_I ADDI, Op_I 8 0 10), (Ext_I ADDI, Op_I 9 0 0),
     (Ext_I ADDI, Op_I 18 0 1), (Ext_I ADDI, Op_I 19 0 1), (Ext_I ADDI, Op_I 6 0 1),
     (Ext_I BLT, Op_B 8 6 36), (Ext_I BEQ, Op_B 8 6 40), (Ext_I ADD, Op_R 6 9 18),
     (Ext_I ADD, Op_R 9 0 18), (Ext_I ADD, Op_R 18 0 6), (Ext_I ADDI, Op_I 19 19 1),
     (Ext_I BLT, Op_B 19 8 (- 16)), (Ext_I ADD, Op_R 6 0 18), (Ext_I JAL, Op_J 0 16),
     (Ext_I ADDI, Op_I 6 0 0), (Ext_I JAL, Op_J 0 8), (Ext_I ADDI, Op_I 6 0 1),
     (Ext_I ADDI, Op_I 7 0 55), (Ext_I SUB, Op_R 7 6 7), (Ext_I ADD, Op_R 5 5 7),
     (Ext_I ADDI, Op_I 10 5 0), (Ext_I ADDI, Op_I 17 0 93), (Ext_I ECALL, Op_word)]"

definition div_s :: "asm" where
  "div_s =
    [(Ext_I ADDI, Op_I 5 0 0), (Ext_I ADDI, Op_I 6 0 7), (Ext_I ADDI, Op_I 7 0 2),
     (Ext_M DIV, Op_R 28 6 7), (Ext_I ADDI, Op_I 29 0 3), (Ext_I SUB, Op_R 29 28 29),
     (Ext_I ADD, Op_R 5 5 29), (Ext_M REM, Op_R 28 6 7), (Ext_I ADDI, Op_I 29 0 1),
     (Ext_I SUB, Op_R 29 28 29), (Ext_I ADD, Op_R 5 5 29), (Ext_I ADDI, Op_I 6 0 (- 7)),
     (Ext_I ADDI, Op_I 7 0 2), (Ext_M DIV, Op_R 28 6 7), (Ext_I ADDI, Op_I 29 0 (- 3)),
     (Ext_I SUB, Op_R 29 28 29), (Ext_I ADD, Op_R 5 5 29), (Ext_M REM, Op_R 28 6 7),
     (Ext_I ADDI, Op_I 29 0 (- 1)), (Ext_I SUB, Op_R 29 28 29), (Ext_I ADD, Op_R 5 5 29),
     (Ext_I ADDI, Op_I 6 0 5), (Ext_I ADDI, Op_I 7 0 0), (Ext_M DIV, Op_R 28 6 7),
     (Ext_I ADDI, Op_I 29 0 (- 1)), (Ext_I SUB, Op_R 29 28 29), (Ext_I ADD, Op_R 5 5 29),
     (Ext_M REM, Op_R 28 6 7), (Ext_I ADDI, Op_I 29 0 5), (Ext_I SUB, Op_R 29 28 29),
     (Ext_I ADD, Op_R 5 5 29), (Ext_I LUI, Op_U 6 2147483648), (Ext_I ADDI, Op_I 7 0 (- 1)),
     (Ext_M DIV, Op_R 28 6 7), (Ext_I SUB, Op_R 29 28 6), (Ext_I ADD, Op_R 5 5 29),
     (Ext_M REM, Op_R 28 6 7), (Ext_I ADDI, Op_I 29 0 0), (Ext_I SUB, Op_R 29 28 29),
     (Ext_I ADD, Op_R 5 5 29), (Ext_I ADDI, Op_I 10 5 0), (Ext_I ADDI, Op_I 17 0 93),
     (Ext_I ECALL, Op_word)]"

definition divu_s :: "asm" where
  "divu_s =
    [(Ext_I ADDI, Op_I 5 0 0), (Ext_I ADDI, Op_I 6 0 7), (Ext_I ADDI, Op_I 7 0 2),
     (Ext_M DIVU, Op_R 28 6 7), (Ext_I ADDI, Op_I 29 0 3), (Ext_I SUB, Op_R 29 28 29),
     (Ext_I ADD, Op_R 5 5 29), (Ext_M REMU, Op_R 28 6 7), (Ext_I ADDI, Op_I 29 0 1),
     (Ext_I SUB, Op_R 29 28 29), (Ext_I ADD, Op_R 5 5 29), (Ext_I LUI, Op_U 6 2147483648),
     (Ext_I ADDI, Op_I 7 0 2), (Ext_M DIVU, Op_R 28 6 7), (Ext_I LUI, Op_U 29 1073741824),
     (Ext_I SUB, Op_R 29 28 29), (Ext_I ADD, Op_R 5 5 29), (Ext_M REMU, Op_R 28 6 7),
     (Ext_I ADDI, Op_I 29 0 0), (Ext_I SUB, Op_R 29 28 29), (Ext_I ADD, Op_R 5 5 29),
     (Ext_I ADDI, Op_I 6 0 5), (Ext_I ADDI, Op_I 7 0 0), (Ext_M DIVU, Op_R 28 6 7),
     (Ext_I ADDI, Op_I 29 0 (- 1)), (Ext_I SUB, Op_R 29 28 29), (Ext_I ADD, Op_R 5 5 29),
     (Ext_M REMU, Op_R 28 6 7), (Ext_I ADDI, Op_I 29 0 5), (Ext_I SUB, Op_R 29 28 29),
     (Ext_I ADD, Op_R 5 5 29), (Ext_I ADDI, Op_I 10 5 0), (Ext_I ADDI, Op_I 17 0 93),
     (Ext_I ECALL, Op_word)]"

definition mul_s :: "asm" where
  "mul_s =
    [(Ext_I ADDI, Op_I 5 0 0), (Ext_I ADDI, Op_I 6 0 3), (Ext_I ADDI, Op_I 7 0 4),
     (Ext_M MUL, Op_R 28 6 7), (Ext_I ADDI, Op_I 29 0 12), (Ext_I SUB, Op_R 29 28 29),
     (Ext_I ADD, Op_R 5 5 29), (Ext_I ADDI, Op_I 6 0 (- 2)), (Ext_I ADDI, Op_I 7 0 7),
     (Ext_M MUL, Op_R 28 6 7), (Ext_I ADDI, Op_I 29 0 (- 14)), (Ext_I SUB, Op_R 29 28 29),
     (Ext_I ADD, Op_R 5 5 29), (Ext_I LUI, Op_U 6 65536), (Ext_I LUI, Op_U 7 131072),
     (Ext_M MUL, Op_R 28 6 7), (Ext_I ADDI, Op_I 29 0 0), (Ext_I SUB, Op_R 29 28 29),
     (Ext_I ADD, Op_R 5 5 29), (Ext_M MULH, Op_R 28 6 7), (Ext_I ADDI, Op_I 29 0 2),
     (Ext_I SUB, Op_R 29 28 29), (Ext_I ADD, Op_R 5 5 29), (Ext_M MULHU, Op_R 28 6 7),
     (Ext_I ADDI, Op_I 29 0 2), (Ext_I SUB, Op_R 29 28 29), (Ext_I ADD, Op_R 5 5 29),
     (Ext_M MULHSU, Op_R 28 6 7), (Ext_I ADDI, Op_I 29 0 2), (Ext_I SUB, Op_R 29 28 29),
     (Ext_I ADD, Op_R 5 5 29), (Ext_I ADDI, Op_I 6 0 (- 1)), (Ext_I LUI, Op_U 7 2147483648),
     (Ext_M MULH, Op_R 28 6 7), (Ext_I ADDI, Op_I 29 0 0), (Ext_I SUB, Op_R 29 28 29),
     (Ext_I ADD, Op_R 5 5 29), (Ext_M MULHU, Op_R 28 6 7), (Ext_I LUI, Op_U 29 2147483648),
     (Ext_I ADDI, Op_I 29 29 (- 1)), (Ext_I SUB, Op_R 29 28 29), (Ext_I ADD, Op_R 5 5 29),
     (Ext_M MULHSU, Op_R 28 6 7), (Ext_I ADDI, Op_I 29 0 (- 1)), (Ext_I SUB, Op_R 29 28 29),
     (Ext_I ADD, Op_R 5 5 29), (Ext_I ADDI, Op_I 10 5 0), (Ext_I ADDI, Op_I 17 0 93),
     (Ext_I ECALL, Op_word)]"

definition bitop_minmax_s :: "asm" where
  "bitop_minmax_s =
    [(Ext_I ADDI, Op_I 5 0 0), (Ext_I ADDI, Op_I 6 0 204), (Ext_I ADDI, Op_I 7 0 170),
     (Ext_Zbb ANDN, Op_R 28 6 7), (Ext_I XORI, Op_I 29 7 (- 1)), (Ext_I AND_insn, Op_R 29 6 29),
     (Ext_I SUB, Op_R 29 28 29), (Ext_I ADD, Op_R 5 5 29), (Ext_Zbb ORN, Op_R 28 6 7),
     (Ext_I XORI, Op_I 29 7 (- 1)), (Ext_I OR_insn, Op_R 29 6 29), (Ext_I SUB, Op_R 29 28 29),
     (Ext_I ADD, Op_R 5 5 29), (Ext_Zbb XNOR, Op_R 28 6 7), (Ext_I XOR_insn, Op_R 29 6 7),
     (Ext_I XORI, Op_I 29 29 (- 1)), (Ext_I SUB, Op_R 29 28 29), (Ext_I ADD, Op_R 5 5 29),
     (Ext_I ADDI, Op_I 6 0 (- 5)), (Ext_I ADDI, Op_I 7 0 3), (Ext_Zbb MAX_insn, Op_R 28 6 7),
     (Ext_I ADDI, Op_I 29 0 3), (Ext_I SUB, Op_R 29 28 29), (Ext_I ADD, Op_R 5 5 29),
     (Ext_Zbb MIN_insn, Op_R 28 6 7), (Ext_I ADDI, Op_I 29 0 (- 5)), (Ext_I SUB, Op_R 29 28 29),
     (Ext_I ADD, Op_R 5 5 29), (Ext_I ADDI, Op_I 6 0 (- 1)), (Ext_I ADDI, Op_I 7 0 1),
     (Ext_Zbb MAX_insn, Op_R 28 6 7), (Ext_I ADDI, Op_I 29 0 1), (Ext_I SUB, Op_R 29 28 29),
     (Ext_I ADD, Op_R 5 5 29), (Ext_Zbb MIN_insn, Op_R 28 6 7), (Ext_I ADDI, Op_I 29 0 (- 1)),
     (Ext_I SUB, Op_R 29 28 29), (Ext_I ADD, Op_R 5 5 29), (Ext_Zbb MAXU, Op_R 28 6 7),
     (Ext_I ADDI, Op_I 29 0 (- 1)), (Ext_I SUB, Op_R 29 28 29), (Ext_I ADD, Op_R 5 5 29),
     (Ext_Zbb MINU, Op_R 28 6 7), (Ext_I ADDI, Op_I 29 0 1), (Ext_I SUB, Op_R 29 28 29),
     (Ext_I ADD, Op_R 5 5 29), (Ext_I ADDI, Op_I 10 5 0), (Ext_I ADDI, Op_I 17 0 93),
     (Ext_I ECALL, Op_word)]"

definition rotate_byteop_s :: "asm" where
  "rotate_byteop_s =
    [(Ext_I ADDI, Op_I 5 0 0), (Ext_I LUI, Op_U 6 2147483648), (Ext_I ADDI, Op_I 6 6 1),
     (Ext_I ADDI, Op_I 7 0 1), (Ext_Zbb ROL, Op_R 28 6 7), (Ext_I ADDI, Op_I 29 0 3),
     (Ext_I SUB, Op_R 29 28 29), (Ext_I ADD, Op_R 5 5 29), (Ext_I LUI, Op_U 6 2147483648),
     (Ext_I ADDI, Op_I 6 6 1), (Ext_I ADDI, Op_I 7 0 1), (Ext_Zbb ROR, Op_R 28 6 7),
     (Ext_I LUI, Op_U 29 3221225472), (Ext_I SUB, Op_R 29 28 29), (Ext_I ADD, Op_R 5 5 29),
     (Ext_I LUI, Op_U 6 287453184), (Ext_I ADDI, Op_I 6 6 836), (Ext_Zbb RORI, Op_R 28 6 8),
     (Ext_I LUI, Op_U 29 1141972992), (Ext_I ADDI, Op_I 29 29 563), (Ext_I SUB, Op_R 29 28 29),
     (Ext_I ADD, Op_R 5 5 29), (Ext_I LUI, Op_U 6 16908288), (Ext_I ADDI, Op_I 6 6 772),
     (Ext_Zbb REV8, Op_unary 28 6), (Ext_I LUI, Op_U 29 67305472), (Ext_I ADDI, Op_I 29 29 513),
     (Ext_I SUB, Op_R 29 28 29), (Ext_I ADD, Op_R 5 5 29), (Ext_I LUI, Op_U 6 1122304),
     (Ext_I ADDI, Op_I 6 6 512), (Ext_Zbb ORC_B, Op_unary 28 6), (Ext_I LUI, Op_U 29 16777216),
     (Ext_I ADDI, Op_I 29 29 (- 256)), (Ext_I SUB, Op_R 29 28 29), (Ext_I ADD, Op_R 5 5 29),
     (Ext_I ADDI, Op_I 10 5 0), (Ext_I ADDI, Op_I 17 0 93), (Ext_I ECALL, Op_word)]"

definition ext_count_s :: "asm" where
  "ext_count_s =
    [(Ext_I ADDI, Op_I 5 0 0), (Ext_I ADDI, Op_I 6 0 127), (Ext_Zbb SEXT_B, Op_unary 7 6),
     (Ext_I ADDI, Op_I 28 0 127), (Ext_I SUB, Op_R 28 7 28), (Ext_I ADD, Op_R 5 5 28),
     (Ext_I ADDI, Op_I 6 0 128), (Ext_Zbb SEXT_B, Op_unary 7 6),
     (Ext_I ADDI, Op_I 28 0 (- 128)), (Ext_I SUB, Op_R 28 7 28), (Ext_I ADD, Op_R 5 5 28),
     (Ext_I LUI, Op_U 6 32768), (Ext_I ADDI, Op_I 7 6 (- 1)), (Ext_Zbb SEXT_H, Op_unary 28 7),
     (Ext_I SUB, Op_R 29 28 7), (Ext_I ADD, Op_R 5 5 29), (Ext_Zbb SEXT_H, Op_unary 28 6),
     (Ext_I LUI, Op_U 29 4294934528), (Ext_I ADDI, Op_I 29 29 0), (Ext_I SUB, Op_R 29 28 29),
     (Ext_I ADD, Op_R 5 5 29), (Ext_I LUI, Op_U 6 4294934528), (Ext_I ADDI, Op_I 6 6 1),
     (Ext_Zbb ZEXT_H, Op_R 7 6 0), (Ext_I LUI, Op_U 28 32768), (Ext_I ADDI, Op_I 28 28 1),
     (Ext_I SUB, Op_R 28 7 28), (Ext_I ADD, Op_R 5 5 28), (Ext_I ADDI, Op_I 6 0 1),
     (Ext_Zbb CLZ, Op_unary 7 6), (Ext_I ADDI, Op_I 28 0 31), (Ext_I SUB, Op_R 28 7 28),
     (Ext_I ADD, Op_R 5 5 28), (Ext_I LUI, Op_U 6 2147483648), (Ext_Zbb CLZ, Op_unary 7 6),
     (Ext_I ADDI, Op_I 28 0 0), (Ext_I SUB, Op_R 28 7 28), (Ext_I ADD, Op_R 5 5 28),
     (Ext_I ADDI, Op_I 6 0 0), (Ext_Zbb CLZ, Op_unary 7 6), (Ext_I ADDI, Op_I 28 0 32),
     (Ext_I SUB, Op_R 28 7 28), (Ext_I ADD, Op_R 5 5 28), (Ext_I ADDI, Op_I 6 0 1),
     (Ext_Zbb CTZ, Op_unary 7 6), (Ext_I ADDI, Op_I 28 0 0), (Ext_I SUB, Op_R 28 7 28),
     (Ext_I ADD, Op_R 5 5 28), (Ext_I LUI, Op_U 6 2147483648), (Ext_Zbb CTZ, Op_unary 7 6),
     (Ext_I ADDI, Op_I 28 0 31), (Ext_I SUB, Op_R 28 7 28), (Ext_I ADD, Op_R 5 5 28),
     (Ext_I ADDI, Op_I 6 0 0), (Ext_Zbb CTZ, Op_unary 7 6), (Ext_I ADDI, Op_I 28 0 32),
     (Ext_I SUB, Op_R 28 7 28), (Ext_I ADD, Op_R 5 5 28), (Ext_I ADDI, Op_I 6 0 0),
     (Ext_Zbb CPOP, Op_unary 7 6), (Ext_I ADDI, Op_I 28 0 0), (Ext_I SUB, Op_R 28 7 28),
     (Ext_I ADD, Op_R 5 5 28), (Ext_I ADDI, Op_I 6 0 (- 1)), (Ext_Zbb CPOP, Op_unary 7 6),
     (Ext_I ADDI, Op_I 28 0 32), (Ext_I SUB, Op_R 28 7 28), (Ext_I ADD, Op_R 5 5 28),
     (Ext_I LUI, Op_U 6 4042321920), (Ext_I ADDI, Op_I 6 6 240), (Ext_Zbb CPOP, Op_unary 7 6),
     (Ext_I ADDI, Op_I 28 0 16), (Ext_I SUB, Op_R 28 7 28), (Ext_I ADD, Op_R 5 5 28),
     (Ext_I ADDI, Op_I 10 5 0), (Ext_I ADDI, Op_I 17 0 93), (Ext_I ECALL, Op_word)]"

definition zicsr_basic_s :: "asm" where
  "zicsr_basic_s =
    [(Ext_I ADDI, Op_I 5 0 0), (Ext_I ADDI, Op_I 6 0 1), (Ext_Zicsr CSRRW, Op_csr 7 6 1),
     (Ext_Zicsr CSRRS, Op_csr 28 0 1), (Ext_I ADDI, Op_I 29 0 1), (Ext_I SUB, Op_R 29 28 29),
     (Ext_I ADD, Op_R 5 5 29), (Ext_I ADDI, Op_I 6 0 20), (Ext_Zicsr CSRRS, Op_csr 28 6 1),
     (Ext_I ADDI, Op_I 29 0 1), (Ext_I SUB, Op_R 29 28 29), (Ext_I ADD, Op_R 5 5 29),
     (Ext_Zicsr CSRRS, Op_csr 28 0 1), (Ext_I ADDI, Op_I 29 0 21), (Ext_I SUB, Op_R 29 28 29),
     (Ext_I ADD, Op_R 5 5 29), (Ext_I ADDI, Op_I 6 0 1), (Ext_Zicsr CSRRC, Op_csr 28 6 1),
     (Ext_I ADDI, Op_I 29 0 21), (Ext_I SUB, Op_R 29 28 29), (Ext_I ADD, Op_R 5 5 29),
     (Ext_Zicsr CSRRS, Op_csr 28 0 1), (Ext_I ADDI, Op_I 29 0 20), (Ext_I SUB, Op_R 29 28 29),
     (Ext_I ADD, Op_R 5 5 29), (Ext_Zicsr CSRRWI, Op_csr 28 3 2),
     (Ext_Zicsr CSRRS, Op_csr 29 0 2), (Ext_I ADDI, Op_I 30 0 3), (Ext_I SUB, Op_R 30 29 30),
     (Ext_I ADD, Op_R 5 5 30), (Ext_Zicsr CSRRWI, Op_csr 0 0 2),
     (Ext_Zicsr CSRRSI, Op_csr 28 1 2), (Ext_I ADDI, Op_I 29 0 0), (Ext_I SUB, Op_R 29 28 29),
     (Ext_I ADD, Op_R 5 5 29), (Ext_Zicsr CSRRS, Op_csr 29 0 2), (Ext_I ADDI, Op_I 30 0 1),
     (Ext_I SUB, Op_R 30 29 30), (Ext_I ADD, Op_R 5 5 30), (Ext_Zicsr CSRRWI, Op_csr 0 7 2),
     (Ext_Zicsr CSRRCI, Op_csr 28 1 2), (Ext_I ADDI, Op_I 29 0 7), (Ext_I SUB, Op_R 29 28 29),
     (Ext_I ADD, Op_R 5 5 29), (Ext_Zicsr CSRRS, Op_csr 29 0 2), (Ext_I ADDI, Op_I 30 0 6),
     (Ext_I SUB, Op_R 30 29 30), (Ext_I ADD, Op_R 5 5 30), (Ext_I ADDI, Op_I 6 0 11),
     (Ext_Zicsr CSRRW, Op_csr 0 6 1), (Ext_Zicsr CSRRWI, Op_csr 0 5 2),
     (Ext_Zicsr CSRRS, Op_csr 28 0 3), (Ext_I ANDI, Op_I 28 28 255),
     (Ext_I ADDI, Op_I 29 0 171), (Ext_I SUB, Op_R 29 28 29), (Ext_I ADD, Op_R 5 5 29),
     (Ext_I ADDI, Op_I 6 0 85), (Ext_Zicsr CSRRW, Op_csr 0 6 3),
     (Ext_Zicsr CSRRS, Op_csr 28 0 2), (Ext_I ADDI, Op_I 29 0 2), (Ext_I SUB, Op_R 29 28 29),
     (Ext_I ADD, Op_R 5 5 29), (Ext_Zicsr CSRRS, Op_csr 28 0 1), (Ext_I ADDI, Op_I 29 0 21),
     (Ext_I SUB, Op_R 29 28 29), (Ext_I ADD, Op_R 5 5 29), (Ext_I ADDI, Op_I 10 5 0),
     (Ext_I ADDI, Op_I 17 0 93), (Ext_I ECALL, Op_word)]"

text \<open>All of them but \<open>mul.s\<close>, at \<open>base\<close>, where \<open>func\<close> of \<open>jalr.s\<close> is at index 11.\<close>

definition test_suite :: "u32 \<Rightarrow> asm list" where
  "test_suite base =
    [elf_run_s, add_sub_s, addi_s, logic_s, set_less_s, shifts_s, lui_auipc_s, branches_s,
     jal_s, jalr_s (base + 44), fib_it_s, div_s, divu_s, bitop_minmax_s, rotate_byteop_s,
     ext_count_s, zicsr_basic_s]"

section \<open>Evaluation\<close>

lemma eval_words: "uint (- 1 :: u32) = 4294967295" "(k :: int) smod 1 = 0" "ucast (- 1 :: u8) = (255 :: u32)"
  "mask 5 = (0x1f :: u32)" "mask 3 = (7 :: u32)"
  by (simp_all add: unsigned_minus_1_eq_mask mask_eq_exp_minus_1 signed_modulo_int_def)

lemma eval_even: "even w \<Longrightarrow> unset_bit 0 w = (w :: u32)"
  by (rule bit_word_eqI) (auto simp: bit_simps bit_0)

lemma eval_le_bytes:
  "le_bytes 4 w = [ucast w, ucast (drop_bit 8 w), ucast (drop_bit 16 w), ucast (drop_bit 24 (w :: u32))]"
  by (simp add: numeral_eq_Suc)

lemma eval_rotations:
  "word_rotl (Suc 0) w = push_bit 1 w OR drop_bit 31 (w :: u32)"
  "word_rotr (Suc 0) w = drop_bit 1 w OR push_bit 31 (w :: u32)"
  "word_rotr 8 w = drop_bit 8 w OR push_bit 24 (w :: u32)"
  using rotations [of 1 w] rotations [of 8 w] by simp_all

lemma eval_positions: "[0..<32] = positions"
  unfolding positions_def by code_simp

lemmas asm_eval = asm_run_numeral asm_next_def asm_alu_def asm_zbb_def asm_mul_def put_reg_def index_of_def
  less_words CSR_ToEnum_def Let_def hi_lo eval_words eval_even eval_le_bytes eval_rotations eval_positions positions_def

text \<open>
  A program that exits with \<open>status\<close>, whatever is in the registers at the start, if \<open>fcsr\<close> is 0,
  as it is after start-up.
\<close>

definition asm_exits :: "u32 \<Rightarrow> asm \<Rightarrow> u32 \<Rightarrow> 'w arch \<Rightarrow> bool" where
  "asm_exits base prog status a \<longleftrightarrow> list_all insn_wf prog \<and>
     (\<forall>x. x 0 = 0 \<longrightarrow> (\<exists>n j y b. asm_run base prog n 0 x a = Some (j, y, b) \<and> j < length prog \<and>
       prog ! j = (Ext_I ECALL, Op_word) \<and> y 17 = 93 \<and> y 10 = status))"

lemma asm_exitsI:
  assumes "list_all insn_wf prog" "j < length prog" "prog ! j = (Ext_I ECALL, Op_word)"
    and "\<And>x. x 0 = 0 \<Longrightarrow> \<exists>y b. asm_run base prog n 0 x a = Some (j, y, b) \<and> y 10 = status \<and> y 17 = 93"
  shows "asm_exits base prog status a"
  unfolding asm_exits_def using assms by blast

lemma Execute_exits:
  assumes "runnable s" "\<not> should_stop s" "code_at (ip s) prog (arch_of s)" "asm_exits (ip s) prog status (arch_of s)"
  shows "\<exists>t. Execute e s = Some (Inr (status, t))"
proof -
  have "xreg s 0 = 0" by (simp add: xreg_def)
  then obtain n j y b where wf: "list_all insn_wf prog"
    and run: "asm_run (ip s) prog n 0 (xreg s) (arch_of s) = Some (j, y, b)"
    and exit: "j < length prog" "prog ! j = (Ext_I ECALL, Op_word)" "y 17 = 93" "y 10 = status"
    using assms(4) unfolding asm_exits_def by blast
  have "reaches e (arch_of s) (guest b (ip s) j y)" "code_at (ip s) prog b"
    using asm_run_reaches [OF assms(3) wf run, of e] arch_of_guest [of s] by metis+
  then show ?thesis using Execute_runs_code [OF assms(1-3) wf, of e b j y] exit by blast
qed

lemma main_exits:
  assumes "elf_has_code api argv base prog" "argc = int (length argv)"
    and "\<And>a :: 'w arch. csr a = 0 \<Longrightarrow> asm_exits base prog status a"
  shows "main (e :: 'w env) api rounding flags w argc argv = Some (Inr status)"
proof -
  obtain s :: "'w machine" where s: "runnable s" "\<not> should_stop s" "ip s = base" "code_at base prog (arch_of s)"
    "fcsr s = 0"
    "main e api rounding flags w argc argv = map_option (\<lambda>r. and_then r (\<lambda>(status, _). Inr status)) (Execute e s)"
    using main_runs_code [OF assms(1,2), of w e rounding flags] by metis
  have "asm_exits (ip s) prog status (arch_of s)" using assms(3) [of "arch_of s"] s(3,5) by simp
  then have "\<exists>t. Execute e s = Some (Inr (status, t))" using s(3,4) by (intro Execute_exits [OF s(1,2)]) simp_all
  then show ?thesis using s(6) by auto
qed

lemma elf_run_exits: "asm_exits base elf_run_s 0 a"
  by (rule asm_exitsI [of _ 2 _ 2]) (simp_all add: asm_eval elf_run_s_def hi_lo_fit)

lemma add_sub_exits: "asm_exits base add_sub_s 0 a"
  by (rule asm_exitsI [of _ 17 _ 17]) (simp_all add: asm_eval add_sub_s_def hi_lo_fit)

lemma addi_exits: "asm_exits base addi_s 0 a"
  by (rule asm_exitsI [of _ 14 _ 14]) (simp_all add: asm_eval addi_s_def hi_lo_fit)

lemma logic_exits: "asm_exits base logic_s 0 a"
  by (rule asm_exitsI [of _ 29 _ 29]) (simp_all add: asm_eval logic_s_def hi_lo_fit)

lemma set_less_exits: "asm_exits base set_less_s 0 a"
  by (rule asm_exitsI [of _ 29 _ 29]) (simp_all add: asm_eval set_less_s_def hi_lo_fit)

lemma shifts_exits: "asm_exits base shifts_s 0 a"
  by (rule asm_exitsI [of _ 17 _ 17]) (simp_all add: asm_eval shifts_s_def hi_lo_fit)

lemma lui_auipc_exits: "asm_exits base lui_auipc_s 0 a"
  by (rule asm_exitsI [of _ 14 _ 14]) (simp_all add: asm_eval lui_auipc_s_def hi_lo_fit)

lemma branches_exits: "asm_exits base branches_s 0 a"
  by (rule asm_exitsI [of _ 43 _ 31]) (simp_all add: asm_eval branches_s_def hi_lo_fit)

lemma jal_exits: "asm_exits base jal_s 0 a"
  by (rule asm_exitsI [of _ 5 _ 4]) (simp_all add: asm_eval jal_s_def hi_lo_fit)

lemma jalr_exits: assumes "even base" shows "asm_exits base (jalr_s (base + 44)) 0 a"
  by (rule asm_exitsI [of _ 10 _ 12]) (simp_all add: asm_eval jalr_s_def hi_lo_fit assms)

lemma fib_it_exits: "asm_exits base fib_it_s 0 a"
  by (rule asm_exitsI [of _ 23 _ 60]) (simp_all add: asm_eval fib_it_s_def hi_lo_fit)

lemma div_exits: "asm_exits base div_s 0 a"
  by (rule asm_exitsI [of _ 42 _ 42]) (simp_all add: asm_eval div_s_def hi_lo_fit)

lemma divu_exits: "asm_exits base divu_s 0 a"
  by (rule asm_exitsI [of _ 33 _ 33]) (simp_all add: asm_eval divu_s_def hi_lo_fit)

lemma mul_exits: "asm_exits base mul_s 0x80000000 a"
  by (rule asm_exitsI [of _ 48 _ 48]) (simp_all add: asm_eval mul_s_def hi_lo_fit)

lemma bitop_minmax_exits: "asm_exits base bitop_minmax_s 0 a"
  by (rule asm_exitsI [of _ 48 _ 48]) (simp_all add: asm_eval bitop_minmax_s_def hi_lo_fit)

lemma rotate_byteop_exits: "asm_exits base rotate_byteop_s 0 a"
  by (rule asm_exitsI [of _ 38 _ 38]) (simp_all add: asm_eval rotate_byteop_s_def hi_lo_fit)

lemma ext_count_exits: "asm_exits base ext_count_s 0 a"
  by (rule asm_exitsI [of _ 76 _ 76]) (simp_all add: asm_eval ext_count_s_def hi_lo_fit)

lemma zicsr_basic_exits: assumes "csr a = 0" shows "asm_exits base zicsr_basic_s 0 a"
  by (rule asm_exitsI [of _ 68 _ 68]) (simp_all add: asm_eval zicsr_basic_s_def hi_lo_fit assms)

section \<open>Properties\<close>

text \<open>
  C15: The repository's tests pass. For each of the seventeen test programs of the suite, if an
  ELF file has the program at its entry point, \<open>main\<close> returns the status 0, in either build,
  whatever the initial state of SoftFloat and the host.
\<close>

theorem test_suite_passes:
  assumes "prog \<in> set (test_suite base)" "even base"
    and "elf_has_code api argv base prog" "argc = int (length argv)"
  shows "main e api rounding flags w argc argv = Some (Inr 0)"
proof (rule main_exits [OF assms(3,4)])
  fix a :: "'w arch"
  assume "csr a = 0"
  note exits = elf_run_exits add_sub_exits addi_exits logic_exits set_less_exits shifts_exits lui_auipc_exits branches_exits jal_exits jalr_exits [OF assms(2)] fib_it_exits div_exits divu_exits bitop_minmax_exits rotate_byteop_exits ext_count_exits zicsr_basic_exits [OF \<open>csr a = 0\<close>]
  show "asm_exits base prog 0 a"
    using assms(1) exits unfolding test_suite_def by auto
qed

lemma test_suite_passes_witness:
  "main (sample_env True) (elfio_of ext_count_s) 0 0 [] 3 sample_argv = Some (Inr 0)"
proof -
  have "elf_has_code (elfio_of ext_count_s) sample_argv 0x1000 ext_count_s"
    by (rule elfio_of_has_code) (simp add: ext_count_s_def)
  moreover have "ext_count_s \<in> set (test_suite 0x1000)" by (simp add: test_suite_def)
  ultimately show ?thesis
    using test_suite_passes [where prog = ext_count_s and base = "0x1000" and api = "elfio_of ext_count_s"
        and argv = sample_argv and argc = 3 and e = "sample_env True" and w = "[]"] by (simp add: sample_argv_def)
qed

text \<open>
  C16: The multiplication test fails, and does not show it. \<open>MULH\<close> of -1 and \<open>0x80000000\<close> is off by
  \<open>0x7fffffff\<close> and \<open>MULHSU\<close> of them by 1, so \<open>main\<close> returns \<open>0x80000000\<close>. The low eight
  bits of that status, all that the host reports of it, are 0, as if the test had passed.
\<close>

theorem mul_test_hides_errors:
  assumes "elf_has_code api argv base mul_s" "argc = int (length argv)"
  shows "main e api rounding flags w argc argv = Some (Inr 0x80000000) \<and> take_bit 8 (0x80000000 :: u32) = 0"
  using main_exits [OF assms mul_exits] by simp

lemma mul_test_hides_errors_witness:
  "main (sample_env False) (elfio_of mul_s) 0 0 [] 3 sample_argv = Some (Inr 0x80000000)"
proof -
  have "elf_has_code (elfio_of mul_s) sample_argv 0x1000 mul_s"
    by (rule elfio_of_has_code) (simp add: mul_s_def)
  then show ?thesis
    using mul_test_hides_errors [where base = "0x1000" and api = "elfio_of mul_s"
        and argv = sample_argv and argc = 3 and e = "sample_env False" and w = "[]"] by (simp add: sample_argv_def)
qed

end
