(* ===== verification/RV_Mem_Tests.thy ===== *)
theory RV_Mem_Tests
  imports RV_Guest RV_Suite
begin

text \<open>
  The two test programs that use data in memory. \<open>tests/st_ld.s\<close> stores and loads words, halves and
  bytes. \<open>tests/fib_rec.s\<close> has a recursive function with its frames on a stack in memory.
  The contract of the function, \<open>fib_call\<close>, is the calling convention: it returns to the address
  in \<open>ra\<close> with the result in \<open>a0\<close>, the stack pointer and every register it does not use as before,
  and no word at or above the stack pointer changed. It is by induction on the argument.
\<close>

unbundle bit_operations_syntax

section \<open>tests/st\_ld.s\<close>

text \<open>
  The data is at \<open>d\<close>: a word, two halves and four bytes, one after the other. The linker splits
  their addresses as for \<open>LUI\<close> and \<open>ADDI\<close>.
\<close>

definition st_ld_s :: "u32 \<Rightarrow> asm" where
  "st_ld_s d =
    [(Ext_I ADDI, Op_I 5 0 0), (Ext_I LUI, Op_U 6 (hi_part d)),
     (Ext_I ADDI, Op_I 6 6 (lo_part d)), (Ext_I ADDI, Op_I 7 0 1234), (Ext_I SW, Op_S 6 7 0),
     (Ext_I LW, Op_I 28 6 0), (Ext_I SUB, Op_R 29 28 7), (Ext_I ADD, Op_R 5 5 29),
     (Ext_I LUI, Op_U 6 (hi_part (d + 4))), (Ext_I ADDI, Op_I 6 6 (lo_part (d + 4))),
     (Ext_I ADDI, Op_I 7 0 (- 1234)), (Ext_I SH, Op_S 6 7 0), (Ext_I LH, Op_I 28 6 0),
     (Ext_I SUB, Op_R 29 28 7), (Ext_I ADD, Op_R 5 5 29), (Ext_I LHU, Op_I 29 6 0),
     (Ext_I SUB, Op_R 30 29 28), (Ext_I ADDI, Op_I 31 0 1), (Ext_I SLLI, Op_R 31 31 16),
     (Ext_I SUB, Op_R 31 30 31), (Ext_I ADD, Op_R 5 5 31),
     (Ext_I LUI, Op_U 6 (hi_part (d + 8))), (Ext_I ADDI, Op_I 6 6 (lo_part (d + 8))),
     (Ext_I ADDI, Op_I 7 0 (- 5)), (Ext_I SB, Op_S 6 7 0), (Ext_I LB, Op_I 28 6 0),
     (Ext_I SUB, Op_R 29 28 7), (Ext_I ADD, Op_R 5 5 29), (Ext_I LBU, Op_I 29 6 0),
     (Ext_I SUB, Op_R 30 29 28), (Ext_I ADDI, Op_I 31 0 1), (Ext_I SLLI, Op_R 31 31 8),
     (Ext_I SUB, Op_R 31 30 31), (Ext_I ADD, Op_R 5 5 31), (Ext_I ADDI, Op_I 10 5 0),
     (Ext_I ADDI, Op_I 17 0 93), (Ext_I ECALL, Op_word)]"

lemma load_after_store:
  assumes "LENGTH('a::len) = 8 * n" "allowed a addr n" "n < 2 ^ 32"
  shows "\<exists>b. isa_store n addr (v :: 'a word) a = Some b \<and> isa_load n addr b = Some v \<and> allowed b = allowed a"
proof -
  obtain b where b: "isa_store n addr v a = Some b"
    "bytes b = (\<lambda>p. if unat (p - addr) < n then Some (le_bytes n v ! unat (p - addr)) else bytes a p)"
    "allowed b = allowed a"
    using assms(2) by (simp add: isa_store_def)
  have "unat (addr + of_nat i - addr) = i" if "i < n" for i using that assms(3) by (simp add: unat_of_nat)
  then have "map (\<lambda>i. the (bytes b (addr + of_nat i))) [0..<n] = le_bytes n v"
    by (intro nth_equalityI) (simp_all add: b(2) del: le_bytes.simps)
  then have "isa_load n addr b = Some v"
    using assms(1,2) b(3)
    by (simp add: isa_load_def le_word_le_bytes take_bit_word_eq_self del: le_bytes.simps le_word.simps)
  then show ?thesis using b(1,3) by blast
qed

definition data_ok :: "u32 \<Rightarrow> u32 \<Rightarrow> 'w arch \<Rightarrow> bool" where
  "data_ok base d a \<longleftrightarrow> 148 \<le> unat (d - base) \<and> unat (d - base) + 12 \<le> 2 ^ 32 \<and>
     allowed a d 4 \<and> allowed a (d + 4) 2 \<and> allowed a (d + 8) 1"

lemma eval_narrow: "(4294966062 :: u16) = 0xfb2e" "(4294967291 :: u8) = 0xfb"
  by simp_all

text \<open>
  What the loads deliver: after how many instructions, in which register, which value. The status
  alone would not show it, since in \<open>(lh - x) + (lhu - lh - 65536)\<close> the result of \<open>LH\<close> cancels,
  and that of \<open>LB\<close> likewise.
\<close>

definition st_ld_loads :: "(nat \<times> nat \<times> u32) list" where
  "st_ld_loads = [(6, 28, 1234), (13, 28, - 1234), (16, 29, 0xfb2e), (26, 28, - 5), (29, 29, 0xfb)]"

definition loads_deliver :: "u32 \<Rightarrow> asm \<Rightarrow> (nat \<times> nat \<times> u32) list \<Rightarrow> 'w arch \<Rightarrow> bool" where
  "loads_deliver base prog loads a \<longleftrightarrow>
     (\<forall>x. x 0 = 0 \<longrightarrow>
       list_all (\<lambda>(i, r, v). \<exists>y b. asm_run base prog i 0 x a = Some (i, y, b) \<and> y r = v) loads)"

lemma st_ld_run:
  assumes "data_ok base d a"
  shows "asm_exits base (st_ld_s d) 0 a" "loads_deliver base (st_ld_s d) st_ld_loads a"
proof -
  have off: "unat (d + 4 - base) = unat (d - base) + 4" "unat (d + 8 - base) = unat (d - base) + 8"
  proof -
    have "unat (d - base + of_nat c) = unat (d - base) + c" if "c \<le> 8" for c
      using assms that by (simp add: data_ok_def unat_word_ariths unat_of_nat)
    from this [of 4] this [of 8] show "unat (d + 4 - base) = unat (d - base) + 4" "unat (d + 8 - base) = unat (d - base) + 8"
      by (simp_all add: algebra_simps)
  qed
  obtain a1 where a1: "isa_store 4 d (1234 :: u32) a = Some a1" "isa_load 4 d a1 = Some (1234 :: u32)" "allowed a1 = allowed a"
    using load_after_store [of 4 a d "1234 :: u32"] assms by (auto simp: data_ok_def)
  obtain a2 where a2: "isa_store 2 (d + 4) (0xfb2e :: u16) a1 = Some a2" "isa_load 2 (d + 4) a2 = Some (0xfb2e :: u16)"
    "allowed a2 = allowed a"
    using load_after_store [of 2 a1 "d + 4" "0xfb2e :: u16"] assms a1(3) by (auto simp: data_ok_def)
  obtain a3 where a3: "isa_store 1 (d + 8) (0xfb :: u8) a2 = Some a3" "isa_load 1 (d + 8) a3 = Some (0xfb :: u8)"
    using load_after_store [of 1 a2 "d + 8" "0xfb :: u8"] assms a2(3) by (auto simp: data_ok_def)
  note run = asm_eval st_ld_s_def hi_lo_fit data_ok_def eval_narrow
  show "asm_exits base (st_ld_s d) 0 a"
    using assms off a1 a2 a3 by (intro asm_exitsI [of _ 36 _ 36]) (simp_all add: run)
  show "loads_deliver base (st_ld_s d) st_ld_loads a"
    unfolding loads_deliver_def st_ld_loads_def list.pred_inject case_prod_conv
    using assms off a1 a2 a3 by (intro allI impI conjI) (simp_all add: run)
qed

section \<open>tests/fib\_rec.s\<close>

text \<open>
  The two constants of the test, the argument 10 and the expected 55, are parameters, as are
  the two parts of \<open>stack_top\<close>'s address, which the linker chooses. \<open>fib\<close> is at index 11 and
  \<open>fib_recurse\<close> at 19.
\<close>

definition fib_rec_s :: "u32 \<Rightarrow> u32 \<Rightarrow> u32 \<Rightarrow> u32 \<Rightarrow> asm" where
  "fib_rec_s n expected hi lo =
    [(Ext_I ADDI, Op_I 5 0 0), (Ext_I LUI, Op_U 2 hi), (Ext_I ADDI, Op_I 2 2 lo),
     (Ext_I ADDI, Op_I 10 0 n), (Ext_I JAL, Op_J 1 28), (Ext_I ADDI, Op_I 6 0 expected),
     (Ext_I SUB, Op_R 6 10 6), (Ext_I ADD, Op_R 5 5 6), (Ext_I ADDI, Op_I 10 5 0),
     (Ext_I ADDI, Op_I 17 0 93), (Ext_I ECALL, Op_word), (Ext_I ADDI, Op_I 2 2 (- 16)),
     (Ext_I SW, Op_S 2 1 12), (Ext_I SW, Op_S 2 10 8), (Ext_I ADDI, Op_I 6 0 1),
     (Ext_I BLT, Op_B 6 10 16), (Ext_I LW, Op_I 1 2 12), (Ext_I ADDI, Op_I 2 2 16),
     (Ext_I JALR, Op_I 0 1 0), (Ext_I ADDI, Op_I 10 10 (- 1)), (Ext_I JAL, Op_J 1 (- 36)),
     (Ext_I SW, Op_S 2 10 4), (Ext_I LW, Op_I 10 2 8), (Ext_I ADDI, Op_I 10 10 (- 2)),
     (Ext_I JAL, Op_J 1 (- 52)), (Ext_I LW, Op_I 7 2 4), (Ext_I ADD, Op_R 10 10 7),
     (Ext_I LW, Op_I 1 2 12), (Ext_I ADDI, Op_I 2 2 16), (Ext_I JALR, Op_I 0 1 0)]"

lemma fib_rec_s_wf:
  assumes "signed_take_bit 11 n = n" "signed_take_bit 11 k = k" "take_bit 12 hi = 0" "signed_take_bit 11 lo = lo"
  shows "list_all insn_wf (fib_rec_s n k hi lo)"
  using assms by (simp add: fib_rec_s_def)

fun fib :: "nat \<Rightarrow> nat" where
  "fib 0 = 0"
| "fib (Suc 0) = 1"
| "fib (Suc (Suc n)) = fib (Suc n) + fib n"

section \<open>Words in memory\<close>

definition put_word :: "u32 \<Rightarrow> u32 \<Rightarrow> 'w arch \<Rightarrow> 'w arch" where
  "put_word addr v a = a\<lparr>bytes := \<lambda>b. if unat (b - addr) < 4 then Some (le_bytes 4 v ! unat (b - addr)) else bytes a b\<rparr>"

lemma put_word_allowed [simp]: "allowed (put_word addr v a) = allowed a"
  by (simp add: put_word_def)

lemma store_put_word: "allowed a addr 4 \<Longrightarrow> isa_store 4 addr v a = Some (put_word addr v a)"
  by (simp add: isa_store_def put_word_def)

lemma load_put_same:
  assumes "allowed a addr 4"
  shows "isa_load 4 addr (put_word addr v a) = Some v"
proof -
  have "unat (addr + of_nat i - addr) = i" if "i < 4" for i using that by (simp add: unat_of_nat)
  then have "map (\<lambda>i. the (bytes (put_word addr v a) (addr + of_nat i))) [0..<4] = le_bytes 4 v"
    by (intro nth_equalityI) (simp_all add: put_word_def del: le_bytes.simps)
  then show ?thesis using assms by (simp add: isa_load_def le_word_le_bytes take_bit_word_eq_self del: le_bytes.simps le_word.simps)
qed

lemma load_put_apart:
  assumes "4 \<le> unat (addr - q)" "4 \<le> unat (q - addr)"
  shows "(isa_load 4 q (put_word addr v a) :: u32 option) = isa_load 4 q a"
proof -
  have "\<not> unat (q + of_nat i - addr) < 4" if "i < 4" for i
  proof -
    have "unat (q - addr) + unat (addr - q) = 2 ^ 32"
      using assms unat_sub_if' [of q addr] unat_sub_if' [of addr q] by (auto split: if_splits)
    then have "unat (q - addr) + i < 2 ^ 32" using assms that by linarith
    then have "unat (q - addr + of_nat i) = unat (q - addr) + i"
      using that by (simp add: unat_word_ariths unat_of_nat)
    moreover have "q + of_nat i - addr = q - addr + of_nat i" by simp
    ultimately show ?thesis using assms(2) by (simp only:)
  qed
  then have "map (\<lambda>i. the (bytes (put_word addr v a) (q + of_nat i))) [0..<4] =
      map (\<lambda>i. the (bytes a (q + of_nat i))) [0..<4]"
    by (intro map_cong) (simp_all add: put_word_def)
  then show ?thesis unfolding isa_load_def put_word_allowed by (simp only:)
qed

lemma load_put_above:
  assumes "unat (addr - base) + 4 \<le> unat (q - base)" "unat (q - base) + 4 \<le> 2 ^ 32"
  shows "(isa_load 4 q (put_word addr v a) :: u32 option) = isa_load 4 q a"
proof (rule load_put_apart)
  define p d where "p = addr - base" and "d = q - base"
  have "addr - q = p - d" "q - addr = d - p" by (simp_all add: p_def d_def)
  moreover have "4 \<le> unat (p - d)" "4 \<le> unat (d - p)"
    using assms unfolding p_def [symmetric] d_def [symmetric]
    by (simp_all add: unat_sub_if')
  ultimately show "4 \<le> unat (addr - q)" "4 \<le> unat (q - addr)" by simp_all
qed

section \<open>The function's code\<close>

text \<open>The stack pointer is given by its distance from the program.\<close>

lemma below:
  assumes "c \<le> unat (s - base :: u32)" "c < 2 ^ 32"
  shows "unat (s - of_nat c - base) = unat (s - base) - c"
proof -
  have "unat (of_nat c :: u32) = c" using assms(2) by (simp add: unat_of_nat)
  then have "of_nat c \<le> s - base" "unat (s - base - of_nat c) = unat (s - base) - unat (of_nat c :: u32)"
    using assms(1) by (simp_all add: word_le_nat_alt unat_sub)
  moreover have "s - of_nat c - base = s - base - of_nat c" by simp
  ultimately show ?thesis using \<open>unat (of_nat c :: u32) = c\<close> by (simp only:)
qed

lemma return_index:
  assumes "even (base :: u32)" "r < 2 ^ 30"
  shows "index_of (unset_bit 0 (base + of_nat (4 * r)) - base) = Some r"
proof -
  have "even (base + of_nat (4 * r))" using assms(1) by simp
  then have "unset_bit 0 (base + of_nat (4 * r)) = base + of_nat (4 * r)" by (rule eval_even)
  moreover have "unat (of_nat (4 * r) :: u32) = 4 * r" using assms(2) by (simp only: unat_of_nat) simp
  ultimately show ?thesis by (simp add: index_of_def del: of_nat_mult)
qed

text \<open>The frame: three words below the stack pointer \<open>s\<close>, above the program.\<close>

definition frame_ok :: "u32 \<Rightarrow> u32 \<Rightarrow> 'w arch \<Rightarrow> bool" where
  "frame_ok base s a \<longleftrightarrow> 136 \<le> unat (s - base) \<and> (\<forall>c \<in> {4, 8, 12}. allowed a (s - c) 4)"

lemmas fib_eval = asm_run_numeral asm_next_def asm_alu_def put_reg_def index_of_def less_words fib_rec_s_def

lemma frame_clear:
  assumes "frame_ok base s a"
  shows "120 \<le> unat (s - 4 - base)" "120 \<le> unat (s - 8 - base)" "120 \<le> unat (s - 12 - base)"
    "unat (s - 4 - base) + 4 \<le> 2 ^ 32" "unat (s - 8 - base) + 4 \<le> 2 ^ 32" "unat (s - 12 - base) + 4 \<le> 2 ^ 32"
proof -
  have o: "136 \<le> unat (s - base)" using assms by (simp add: frame_ok_def)
  then have "unat (s - 4 - base) = unat (s - base) - 4" "unat (s - 8 - base) = unat (s - base) - 8"
    "unat (s - 12 - base) = unat (s - base) - 12"
    using below [of 4 s base] below [of 8 s base] below [of 12 s base] by simp_all
  moreover have "unat (s - base) < 2 ^ 32" using unsigned_less [of "s - base"] by simp
  ultimately show "120 \<le> unat (s - 4 - base)" "120 \<le> unat (s - 8 - base)" "120 \<le> unat (s - 12 - base)"
    "unat (s - 4 - base) + 4 \<le> 2 ^ 32" "unat (s - 8 - base) + 4 \<le> 2 ^ 32" "unat (s - 12 - base) + 4 \<le> 2 ^ 32"
    using o by linarith+
qed

text \<open>The instructions between the calls, where the stack pointer was \<open>s\<close> when the function was called.\<close>

lemma fib_enter:
  assumes "frame_ok base s a" "x 2 = s" "x 0 = 0"
  shows "asm_run base (fib_rec_s n k hi lo) 4 11 x a =
    Some (15, x(2 := s - 16, 6 := 1), put_word (s - 8) (x 10) (put_word (s - 4) (x 1) a))"
  using frame_clear [OF assms(1)] assms by (simp add: fib_eval store_put_word frame_ok_def)

lemma fib_small:
  assumes "x 2 = s - 16" "\<not> 1 < sint (x 10)" "x 6 = 1" "isa_load 4 (s - 4) a = Some (base + of_nat (4 * r))"
    and "even base" "r < 2 ^ 30"
  shows "asm_run base (fib_rec_s n k hi lo) 4 15 x a = Some (r, x(1 := base + of_nat (4 * r), 2 := s), a)"
  using assms return_index [OF assms(5,6)] by (simp add: fib_eval)

lemma fib_first:
  assumes "1 < sint (x 10)" "x 6 = 1"
  shows "asm_run base (fib_rec_s n k hi lo) 3 15 x a = Some (11, x(10 := x 10 - 1, 1 := base + 84), a)"
  using assms by (simp add: fib_eval)

lemma fib_second:
  assumes "frame_ok base s a" "x 2 = s - 16" "isa_load 4 (s - 8) (put_word (s - 12) (x 10) a) = Some v"
  shows "asm_run base (fib_rec_s n k hi lo) 4 21 x a =
    Some (11, x(10 := v - 2, 1 := base + 100), put_word (s - 12) (x 10) a)"
  using frame_clear [OF assms(1)] assms by (simp add: fib_eval store_put_word frame_ok_def)

lemma fib_leave:
  assumes "x 2 = s - 16" "isa_load 4 (s - 12) a = Some v" "isa_load 4 (s - 4) a = Some (base + of_nat (4 * r))"
    and "even base" "r < 2 ^ 30"
  shows "asm_run base (fib_rec_s n k hi lo) 5 25 x a =
    Some (r, x(7 := v, 10 := x 10 + v, 1 := base + of_nat (4 * r), 2 := s), a)"
  using assms return_index [OF assms(4,5)] by (simp add: fib_eval)

section \<open>The contract\<close>

definition same_above :: "u32 \<Rightarrow> u32 \<Rightarrow> 'w arch \<Rightarrow> 'w arch \<Rightarrow> bool" where
  "same_above base s a b \<longleftrightarrow>
     (\<forall>q. unat (s - base) \<le> unat (q - base) \<and> unat (q - base) + 4 \<le> 2 ^ 32 \<longrightarrow>
       (isa_load 4 q b :: u32 option) = isa_load 4 q a)"

lemma same_above_trans: "same_above base s a b \<Longrightarrow> same_above base s b c \<Longrightarrow> same_above base s a c"
  by (simp add: same_above_def)

lemma same_above_mono:
  "same_above base t a b \<Longrightarrow> unat (t - base) \<le> unat (s - base) \<Longrightarrow> same_above base s a b"
  by (auto simp: same_above_def)

lemma same_above_put:
  assumes "c \<in> {4, 8, 12}" "136 \<le> unat (s - base)"
  shows "same_above base s a (put_word (s - of_nat c) v a)"
  unfolding same_above_def
proof (intro allI impI)
  fix q
  assume q: "unat (s - base) \<le> unat (q - base) \<and> unat (q - base) + 4 \<le> 2 ^ 32"
  have p: "unat (s - of_nat c - base) = unat (s - base) - c" using below [of c s base] assms by auto
  have "unat (s - of_nat c - base) + 4 \<le> unat (q - base)" using p q assms by auto
  then show "(isa_load 4 q (put_word (s - of_nat c) v a) :: u32 option) = isa_load 4 q a"
    using load_put_above q by blast
qed

text \<open>
  What a call of the function with the argument \<open>k\<close> guarantees to a caller with registers \<open>x\<close> and
  the state \<open>a\<close>.
\<close>

definition fib_returns :: "u32 \<Rightarrow> asm \<Rightarrow> nat \<Rightarrow> nat \<Rightarrow> (nat \<Rightarrow> u32) \<Rightarrow> 'w arch \<Rightarrow> bool" where
  "fib_returns base prog r k x a \<longleftrightarrow>
     (\<exists>n y b. asm_run base prog n 11 x a = Some (r, y, b) \<and> y 10 = of_nat (fib k) \<and>
       (\<forall>q. q \<notin> {6, 7, 10} \<longrightarrow> y q = x q) \<and> allowed b = allowed a \<and> same_above base (x 2) a b)"

lemma fib_returnsI:
  "asm_run base prog n 11 x a = Some (r, y, b) \<Longrightarrow> y 10 = of_nat (fib k) \<Longrightarrow>
    \<forall>q. q \<notin> {6, 7, 10} \<longrightarrow> y q = x q \<Longrightarrow> allowed b = allowed a \<Longrightarrow> same_above base (x 2) a b \<Longrightarrow>
    fib_returns base prog r k x a"
  unfolding fib_returns_def by blast

text \<open>What it relies on: a stack with room for \<open>max 1 k\<close> frames of 16 bytes above the program.\<close>

definition stack_ok :: "u32 \<Rightarrow> nat \<Rightarrow> u32 \<Rightarrow> 'w arch \<Rightarrow> bool" where
  "stack_ok base k s a \<longleftrightarrow> 120 + 16 * max 1 k \<le> unat (s - base) \<and>
     (\<forall>i. 0 < i \<and> i \<le> 4 * max 1 k \<longrightarrow> allowed a (s - of_nat (4 * i)) 4)"

lemma stack_slot: "stack_ok base k s a \<Longrightarrow> 0 < i \<Longrightarrow> i \<le> 4 * max 1 k \<Longrightarrow> allowed a (s - of_nat (4 * i)) 4"
  unfolding stack_ok_def by blast

lemma stack_room: "stack_ok base k s a \<Longrightarrow> 120 + 16 * max 1 k \<le> unat (s - base)"
  unfolding stack_ok_def by blast

lemma stack_frame:
  assumes "stack_ok base k s a"
  shows "frame_ok base s a"
proof -
  have "136 \<le> unat (s - base)" using stack_room [OF assms] by linarith
  then show ?thesis
    using stack_slot [OF assms, of 1] stack_slot [OF assms, of 2] stack_slot [OF assms, of 3]
    by (simp add: frame_ok_def)
qed

lemma stack_below:
  assumes "stack_ok base k s a" "j < k" "2 \<le> k"
  shows "stack_ok base j (s - 16) a" "unat (s - 16 - base) = unat (s - base) - 16"
proof -
  have m: "max 1 j + 1 \<le> max 1 k" using assms by linarith
  show o: "unat (s - 16 - base) = unat (s - base) - 16"
    using below [of 16 s base] stack_room [OF assms(1)] by simp
  have "allowed a (s - 16 - of_nat (4 * i)) 4" if "0 < i" "i \<le> 4 * max 1 j" for i
  proof -
    have "i + 4 \<le> 4 * max 1 k" using that m by linarith
    then have "allowed a (s - of_nat (4 * (i + 4))) 4" by (intro stack_slot [OF assms(1)]) simp_all
    moreover have "s - 16 - of_nat (4 * i) = s - of_nat (4 * (i + 4))" by simp
    ultimately show ?thesis by (simp only:)
  qed
  moreover have "120 + 16 * max 1 j \<le> unat (s - 16 - base)"
    using o m stack_room [OF assms(1)] by linarith
  ultimately show "stack_ok base j (s - 16) a" unfolding stack_ok_def by blast
qed

lemma stack_ok_put [simp]: "stack_ok base k s (put_word p v a) \<longleftrightarrow> stack_ok base k s a"
  by (simp add: stack_ok_def)

lemma stack_ok_cong: "allowed b = allowed a \<Longrightarrow> stack_ok base k s b \<longleftrightarrow> stack_ok base k s a"
  by (simp add: stack_ok_def)

lemma fib_argument:
  assumes "stack_ok base k s a"
  shows "1 < sint (of_nat k :: u32) \<longleftrightarrow> 2 \<le> k"
proof -
  have "unat (s - base) < 2 ^ 32" using unsigned_less [of "s - base"] by simp
  then have "k < 2 ^ 31" using stack_room [OF assms] by simp
  then have "sint (of_nat k :: u32) = int k" by (simp add: signed_of_nat signed_take_bit_int_eq_self)
  then show ?thesis by auto
qed

text \<open>A frame's words, after a call and after a store to a lower word of the frame.\<close>

lemma frame_kept:
  fixes a b c :: "'w arch"
  assumes "frame_ok base s c" "same_above base (s - 16) a b"
  shows "(isa_load 4 (s - 4) b :: u32 option) = isa_load 4 (s - 4) a"
    "(isa_load 4 (s - 8) b :: u32 option) = isa_load 4 (s - 8) a"
    "(isa_load 4 (s - 12) b :: u32 option) = isa_load 4 (s - 12) a"
proof -
  have room: "136 \<le> unat (s - base)" using assms(1) by (simp add: frame_ok_def)
  have "(isa_load 4 (s - of_nat d) b :: u32 option) = isa_load 4 (s - of_nat d) a" if "4 \<le> d" "d \<le> 16" for d
  proof -
    have "unat (s - of_nat d - base) = unat (s - base) - d" "unat (s - 16 - base) = unat (s - base) - 16"
      using below [of d s base] below [of 16 s base] room that by simp_all
    moreover have "unat (s - base) < 2 ^ 32" using unsigned_less [of "s - base"] by simp
    ultimately have "unat (s - 16 - base) \<le> unat (s - of_nat d - base) \<and> unat (s - of_nat d - base) + 4 \<le> 2 ^ 32"
      using that room by (intro conjI; linarith)
    then show ?thesis using assms(2) unfolding same_above_def by blast
  qed
  from this [of 4] this [of 8] this [of 12] show "(isa_load 4 (s - 4) b :: u32 option) = isa_load 4 (s - 4) a"
    "(isa_load 4 (s - 8) b :: u32 option) = isa_load 4 (s - 8) a"
    "(isa_load 4 (s - 12) b :: u32 option) = isa_load 4 (s - 12) a" by simp_all
qed

lemma frame_put:
  fixes a c :: "'w arch"
  assumes "frame_ok base s c"
  shows "(isa_load 4 (s - 4) (put_word (s - 8) v a) :: u32 option) = isa_load 4 (s - 4) a"
    "(isa_load 4 (s - 4) (put_word (s - 12) v a) :: u32 option) = isa_load 4 (s - 4) a"
    "(isa_load 4 (s - 8) (put_word (s - 12) v a) :: u32 option) = isa_load 4 (s - 8) a"
proof -
  have room: "136 \<le> unat (s - base)" using assms by (simp add: frame_ok_def)
  then have at: "unat (s - 4 - base) = unat (s - base) - 4" "unat (s - 8 - base) = unat (s - base) - 8"
    "unat (s - 12 - base) = unat (s - base) - 12"
    using below [of 4 s base] below [of 8 s base] below [of 12 s base] by simp_all
  then show "(isa_load 4 (s - 4) (put_word (s - 8) v a) :: u32 option) = isa_load 4 (s - 4) a"
    "(isa_load 4 (s - 4) (put_word (s - 12) v a) :: u32 option) = isa_load 4 (s - 4) a"
    "(isa_load 4 (s - 8) (put_word (s - 12) v a) :: u32 option) = isa_load 4 (s - 8) a"
    using room frame_clear(4-6) [OF assms] by - (rule load_put_above [where base = base]; linarith)+
qed

lemma frame_stored:
  fixes a b :: "'w arch"
  assumes "frame_ok base s a" "allowed b = allowed a"
  shows "isa_load 4 (s - 4) (put_word (s - 4) v b) = Some v" "isa_load 4 (s - 8) (put_word (s - 8) v b) = Some v"
    "isa_load 4 (s - 12) (put_word (s - 12) v b) = Some v"
  using assms by (auto simp: frame_ok_def intro!: load_put_same)

lemma fib_call:
  assumes "even base" "r < 2 ^ 30" "x 0 = 0" "x 1 = base + of_nat (4 * r)" "x 10 = of_nat k" "stack_ok base k (x 2) a"
  shows "fib_returns base (fib_rec_s n c hi lo) r k x a"
  using assms(2-)
proof (induction k arbitrary: r x a rule: less_induct)
  case (less k)
  let ?prog = "fib_rec_s n c hi lo" and ?s = "x 2"
  let ?b = "put_word (?s - 8) (x 10) (put_word (?s - 4) (x 1) a)"
  let ?y = "x(2 := ?s - 16, 6 := 1)"
  note frame = stack_frame [OF less.prems(5)]
  have room: "136 \<le> unat (?s - base)" using frame by (simp add: frame_ok_def)
  have enter: "asm_run base ?prog 4 11 x a = Some (15, ?y, ?b)" by (rule fib_enter [OF frame]) (simp_all add: less)
  have above: "same_above base ?s a ?b"
    using same_above_trans same_above_put [of 4 ?s base] same_above_put [of 8 ?s base] room by fastforce
  show ?case
  proof (cases "2 \<le> k")
    case False
    then have "\<not> 1 < sint (x 10)" using fib_argument [OF less.prems(5)] less.prems(4) by simp
    moreover have "isa_load 4 (?s - 4) ?b = Some (base + of_nat (4 * r))"
      using frame_put(1) [OF frame] frame_stored [OF frame] less.prems(3) by simp
    ultimately have "asm_run base ?prog 4 15 ?y ?b = Some (r, ?y(1 := base + of_nat (4 * r), 2 := ?s), ?b)"
      by (intro fib_small assms(1) less.prems(1)) simp_all
    from asm_run_append [OF enter this]
    have "asm_run base ?prog (4 + 4) 11 x a = Some (r, ?y(1 := base + of_nat (4 * r), 2 := ?s), ?b)" .
    moreover have "fib k = k" using False by (cases k rule: fib.cases) simp_all
    then have "(?y(1 := base + of_nat (4 * r), 2 := ?s)) 10 = of_nat (fib k)" using less.prems(4) by simp
    moreover have "\<forall>q. q \<notin> {6, 7, 10} \<longrightarrow> (?y(1 := base + of_nat (4 * r), 2 := ?s)) q = x q"
      using less.prems(3) by simp
    moreover have "allowed ?b = allowed a" by simp
    ultimately show ?thesis using above by (rule fib_returnsI)
  next
    case True
    let ?y1 = "?y(10 := x 10 - 1, 1 := base + 84)"
    have arg: "1 < sint (x 10)" using True fib_argument [OF less.prems(5)] less.prems(4) by simp
    then have first: "asm_run base ?prog 3 15 ?y ?b = Some (11, ?y1, ?b)" using fib_first [of ?y] by simp
    have stack: "stack_ok base (k - 1) (?s - 16) ?b" "stack_ok base (k - 2) (?s - 16) ?b"
      using stack_below(1) [OF less.prems(5)] True by simp_all
    have "fib_returns base ?prog 21 (k - 1) ?y1 ?b"
      using True stack(1) less.prems(2,4) by (intro less.IH) (simp_all add: of_nat_diff)
    then obtain n y b where call1: "asm_run base ?prog n 11 ?y1 ?b = Some (21, y, b)" "y 10 = of_nat (fib (k - 1))"
      "\<forall>q. q \<notin> {6, 7, 10} \<longrightarrow> y q = ?y1 q" "allowed b = allowed ?b" "same_above base (?s - 16) ?b b"
      unfolding fib_returns_def by auto
    let ?b1 = "put_word (?s - 12) (y 10) b" and ?y2 = "y(10 := x 10 - 2, 1 := base + 100)"
    have "isa_load 4 (?s - 8) ?b1 = Some (x 10)"
      using frame_put(3) [OF frame] frame_kept(2) [OF frame call1(5)] frame_stored [OF frame] by simp
    then have second: "asm_run base ?prog 4 21 y b = Some (11, ?y2, ?b1)"
      using frame call1(3,4) by (intro fib_second) (simp_all add: frame_ok_def)
    have "fib_returns base ?prog 25 (k - 2) ?y2 ?b1"
      using True stack(2) less.prems(2,4) call1(3,4)
      by (intro less.IH) (simp_all add: of_nat_diff stack_ok_cong [of b a])
    then obtain m z c where call2: "asm_run base ?prog m 11 ?y2 ?b1 = Some (25, z, c)" "z 10 = of_nat (fib (k - 2))"
      "\<forall>q. q \<notin> {6, 7, 10} \<longrightarrow> z q = ?y2 q" "allowed c = allowed ?b1" "same_above base (?s - 16) ?b1 c"
      using call1(3) unfolding fib_returns_def by auto
    let ?z = "z(7 := y 10, 10 := z 10 + y 10, 1 := base + of_nat (4 * r), 2 := ?s)"
    have "isa_load 4 (?s - 12) c = Some (y 10)"
      using frame_kept(3) [OF frame call2(5)] frame_stored [OF frame] call1(4) by simp
    moreover have "isa_load 4 (?s - 4) c = Some (base + of_nat (4 * r))"
      using frame_kept(1) [OF frame call2(5)] frame_kept(1) [OF frame call1(5)] frame_put [OF frame]
        frame_stored [OF frame] less.prems(3) by simp
    ultimately have leave: "asm_run base ?prog 5 25 z c = Some (r, ?z, c)"
      using call1(3) call2(3) by (intro fib_leave assms(1) less.prems(1)) simp_all
    have "asm_run base ?prog (4 + (3 + (n + (4 + (m + 5))))) 11 x a = Some (r, ?z, c)"
      by (intro asm_run_append [OF enter] asm_run_append [OF first] asm_run_append [OF call1(1)]
        asm_run_append [OF second] asm_run_append [OF call2(1)] leave)
    moreover have "?z 10 = of_nat (fib k)"
    proof -
      obtain j where "k = Suc (Suc j)" using True by (metis Suc_le_D numeral_2_eq_2 Suc_le_mono)
      then show ?thesis using call1(2) call2(2) by (simp add: add.commute)
    qed
    moreover have "\<forall>q. q \<notin> {6, 7, 10} \<longrightarrow> ?z q = x q" using call1(3) call2(3) less.prems(3) by simp
    moreover have "allowed c = allowed a" using call1(4) call2(4) by simp
    moreover have "same_above base ?s a c"
    proof -
      have "unat (?s - 16 - base) \<le> unat (?s - base)" using stack_below(2) [OF less.prems(5), of 0] True by simp
      then have calls: "same_above base ?s ?b b" "same_above base ?s ?b1 c"
        using same_above_mono call1(5) call2(5) by blast+
      have "same_above base ?s b ?b1" using same_above_put [of 12 ?s base b "y 10"] room by simp
      then show ?thesis using above calls same_above_trans by blast
    qed
    ultimately show ?thesis by (rule fib_returnsI)
  qed
qed

lemma fib_rec_exits:
  assumes "even base" "n < 2048" "k < 2048" "take_bit 12 hi = 0" "signed_take_bit 11 lo = lo" "stack_ok base n (hi + lo) a"
  shows "asm_exits base (fib_rec_s (of_nat n) (of_nat k) hi lo) (of_nat (fib n) - of_nat k) a"
  unfolding asm_exits_def
proof (intro conjI allI impI)
  let ?prog = "fib_rec_s (of_nat n) (of_nat k) hi lo" and ?d = "of_nat (fib n) - of_nat k :: u32"
  show "list_all insn_wf ?prog" using assms by (intro fib_rec_s_wf small_immediate)
  fix x :: "nat \<Rightarrow> u32"
  assume x: "x 0 = 0"
  let ?y = "x(5 := 0, 2 := hi + lo, 10 := of_nat n, 1 := base + 20)"
  have start: "asm_run base ?prog 5 0 x a = Some (11, ?y, a)" by (simp add: fib_eval x fun_upd_twist)
  have "fib_returns base ?prog 5 n ?y a" using assms x by (intro fib_call) simp_all
  then obtain m z b where call: "asm_run base ?prog m 11 ?y a = Some (5, z, b)" "z 10 = of_nat (fib n)"
    "\<forall>q. q \<notin> {6, 7, 10} \<longrightarrow> z q = ?y q"
    unfolding fib_returns_def by blast
  let ?z = "z(6 := ?d, 5 := ?d, 10 := ?d, 17 := 93)"
  have check: "asm_run base ?prog 5 5 z b = Some (10, ?z, b)" using call(2,3) by (simp add: fib_eval x)
  have "asm_run base ?prog (5 + (m + 5)) 0 x a = Some (10, ?z, b)"
    by (intro asm_run_append [OF start] asm_run_append [OF call(1)] check)
  then show "\<exists>n j y b. asm_run base ?prog n 0 x a = Some (j, y, b) \<and> j < length ?prog \<and>
      ?prog ! j = (Ext_I ECALL, Op_word) \<and> y 17 = 93 \<and> y 10 = ?d"
    by (intro exI conjI) (assumption, simp_all add: fib_rec_s_def)
qed

lemma st_ld_s_wf: "list_all insn_wf (st_ld_s d)"
  by (simp add: st_ld_s_def hi_lo_fit)

lemma loads_seen:
  assumes "runnable s" "\<not> should_stop s" "code_at (ip s) prog (arch_of s)" "list_all insn_wf prog"
    and "loads_deliver (ip s) prog loads (arch_of s)"
  shows "list_all (\<lambda>(i, r, v). \<exists>t. loop_steps should_stop (Execute_body e) s t \<and>
    ip t = ip s + of_nat (4 * i) \<and> xreg t r = v) loads"
proof -
  have seen: "\<exists>t. loop_steps should_stop (Execute_body e) s t \<and> ip t = ip s + of_nat (4 * i) \<and> xreg t r = y r"
    if "asm_run (ip s) prog i 0 (xreg s) (arch_of s) = Some (i, y, b)" for i r y b
  proof -
    have "reaches e (arch_of s) (guest b (ip s) i y)"
      using asm_run_reaches [OF assms(3,4) that, of e] arch_of_guest [of s] by metis
    then obtain t where t: "loop_steps should_stop (Execute_body e) s t" "arch_of t = guest b (ip s) i y"
      using assms(1,2) unfolding reaches_def by blast
    have "ip t = pc (arch_of t)" "xreg t = X (arch_of t)" by simp_all
    then have "ip t = ip s + of_nat (4 * i)" "xreg t r = y r" unfolding t(2) by simp_all
    then show ?thesis using t(1) by blast
  qed
  have "xreg s 0 = 0" by (simp add: xreg_def)
  then show ?thesis using assms(5) seen unfolding loads_deliver_def list_all_iff by fast
qed

section \<open>Properties\<close>

text \<open>
  C18: The test program \<open>st_ld.s\<close>. Wherever its code and, after it, its data are in memory, the run
  ends with status 0, and on the way every load delivers the number that the store before it put
  there: 1234 as a word, -1234 by \<open>LH\<close> and its low half, with no sign, by \<open>LHU\<close>, -5 by \<open>LB\<close> and its
  low byte by \<open>LBU\<close>. So \<open>LH\<close> and \<open>LB\<close> extend the sign, which the status does not tell.
\<close>

theorem st_ld_test_runs:
  assumes "sim_ok s" "mem_ok (memory s)" "\<not> should_stop s"
    and "code_at (ip s) (st_ld_s d) (arch_of s)" "data_ok (ip s) d (arch_of s)"
  shows "(\<exists>t. Execute e s = Some (Inr (0, t))) \<and>
    list_all (\<lambda>(i, r, v). \<exists>t. loop_steps should_stop (Execute_body e) s t \<and>
        ip t = ip s + of_nat (4 * i) \<and> xreg t r = v)
      [(6, 28, 1234), (13, 28, - 1234), (16, 29, 0xfb2e), (26, 28, - 5), (29, 29, 0xfb)]"
proof (intro conjI)
  note runs = st_ld_run [OF assms(5)]
  have s: "runnable s" using assms(1,2) by (simp add: runnable_def)
  show "\<exists>t. Execute e s = Some (Inr (0, t))" by (rule Execute_exits [OF s assms(3,4) runs(1)])
  show "list_all (\<lambda>(i, r, v). \<exists>t. loop_steps should_stop (Execute_body e) s t \<and>
        ip t = ip s + of_nat (4 * i) \<and> xreg t r = v)
      [(6, 28, 1234), (13, 28, - 1234), (16, 29, 0xfb2e), (26, 28, - 5), (29, 29, 0xfb)]"
    using loads_seen [OF s assms(3,4) st_ld_s_wf runs(2)] unfolding st_ld_loads_def .
qed

definition st_ld_segment :: MemorySegm where
  "st_ld_segment = \<lparr>start_addr = 0x1000, end_addr = 0x10a0,
     data = words_bytes (asm_words (st_ld_s 0x1094)) @ replicate 12 0,
     r_permission = True, w_permission = True, x_permission = True\<rparr>"

lemma st_ld_test_runs_witness:
  "(\<exists>t. Execute (sample_env True) (sample_machine\<lparr>memory := \<lparr>segms = [st_ld_segment]\<rparr>\<rparr>) = Some (Inr (0, t))) \<and>
   (\<exists>t. loop_steps should_stop (Execute_body (sample_env True))
       (sample_machine\<lparr>memory := \<lparr>segms = [st_ld_segment]\<rparr>\<rparr>) t \<and> ip t = 0x1034 \<and> xreg t 28 = - 1234)"
proof -
  let ?s = "sample_machine\<lparr>memory := \<lparr>segms = [st_ld_segment]\<rparr>\<rparr>"
  have len: "length (words_bytes (asm_words (st_ld_s 0x1094))) = 148"
    by (simp add: asm_words_def st_ld_s_def)
  have ok: "mem_ok (memory ?s)" using len by (simp add: mem_ok_def st_ld_segment_def segm_ok_def)
  have s: "sim_ok ?s" "\<not> should_stop ?s" using sample_machine_ok by simp_all
  have "code_at (start_addr st_ld_segment + of_nat 0) (st_ld_s 0x1094) (arch_of ?s)"
    using len ok by (intro loaded_code) (simp_all add: st_ld_segment_def st_ld_s_def)
  then have code: "code_at (ip ?s) (st_ld_s 0x1094) (arch_of ?s)" by (simp add: st_ld_segment_def)
  have "data_ok (ip ?s) 0x1094 (arch_of ?s)"
    using len by (simp add: data_ok_def accessible_def st_ld_segment_def IsAddrInSegment_def)
  from st_ld_test_runs [OF s(1) ok s(2) code this, of "sample_env True"] show ?thesis
    unfolding list.pred_inject case_prod_conv by simp
qed

text \<open>
  C17: The test program \<open>fib_rec.s\<close>. Wherever its code is in memory, with any argument \<open>n\<close> in place
  of 10 and any expected value in place of 55, if the stack has room for \<open>n\<close> frames, the recursion
  ends and so does \<open>Execute\<close>: its status is the difference between the \<open>n\<close>-th Fibonacci number,
  modulo 2 to the 32, and the expected value.
\<close>

theorem fib_rec_test_runs:
  assumes "sim_ok s" "mem_ok (memory s)" "\<not> should_stop s" "even (ip s)"
    and "code_at (ip s) (fib_rec_s (of_nat n) (of_nat k) hi lo) (arch_of s)"
    and "n < 2048" "k < 2048" "take_bit 12 hi = 0" "signed_take_bit 11 lo = lo"
    and "stack_ok (ip s) n (hi + lo) (arch_of s)"
  shows "\<exists>t. Execute e s = Some (Inr (of_nat (fib n) - of_nat k, t))"
  using assms(1-3,5) fib_rec_exits [OF assms(4,6-10)] by (intro Execute_exits) (simp_all add: runnable_def)

text \<open>The test as it is in the repository, with its 256 bytes of stack after the code, succeeds.\<close>

definition fib_segment :: MemorySegm where
  "fib_segment = \<lparr>start_addr = 0x1000, end_addr = 0x1178,
     data = words_bytes (asm_words (fib_rec_s 10 55 0x1000 0x178)) @ replicate 256 0,
     r_permission = True, w_permission = True, x_permission = True\<rparr>"

lemma fib_rec_test_runs_witness:
  "\<exists>t. Execute (sample_env False) (sample_machine\<lparr>memory := \<lparr>segms = [fib_segment]\<rparr>\<rparr>) = Some (Inr (0, t))"
proof -
  let ?s = "sample_machine\<lparr>memory := \<lparr>segms = [fib_segment]\<rparr>\<rparr>" and ?prog = "fib_rec_s 10 55 0x1000 0x178"
  have len: "length (words_bytes (asm_words ?prog)) = 120"
    by (simp add: asm_words_def fib_rec_s_def)
  have ok: "mem_ok (memory ?s)" using len by (simp add: mem_ok_def fib_segment_def segm_ok_def)
  have s: "sim_ok ?s" "\<not> should_stop ?s" using sample_machine_ok by simp_all
  have "code_at (start_addr fib_segment + of_nat 0) ?prog (arch_of ?s)"
    using len ok by (intro loaded_code) (simp_all add: fib_segment_def fib_rec_s_def)
  then have code: "code_at (ip ?s) ?prog (arch_of ?s)" by (simp add: fib_segment_def)
  have "accessible [fib_segment] (0x1178 - of_nat (4 * i)) 4" if "0 < i" "i \<le> 40" for i
  proof -
    have u: "unat (0x178 - of_nat (4 * i) :: u32) = 0x178 - 4 * i"
      using that below [of "4 * i" "0x178" 0] by simp
    have "unat (0x1178 - of_nat (4 * i) :: u32) = 0x1178 - 4 * i"
      using that below [of "4 * i" "0x1178" 0] by simp
    then have "IsAddrInSegment (0x1178 - of_nat (4 * i)) fib_segment"
      using that by (simp add: IsAddrInSegment_def fib_segment_def word_le_nat_alt word_less_nat_alt)
    then show ?thesis using that u len by (simp add: accessible_def fib_segment_def Let_def)
  qed
  then have "stack_ok (ip ?s) 10 (0x1000 + 0x178) (arch_of ?s)" by (simp add: stack_ok_def)
  from fib_rec_test_runs [OF s(1) ok s(2), of 10 55 "0x1000" "0x178" "sample_env False"] code this
  have "\<exists>t. Execute (sample_env False) ?s = Some (Inr (of_nat (fib 10) - 55, t))" by simp
  moreover have "fib 10 = 55" by (simp add: eval_nat_numeral)
  ultimately show ?thesis by simp
qed

end
