(* ===== verification/RV_Log.thy ===== *)
theory RV_Log
  imports RV_Startup
begin

text \<open>
  The log the simulator keeps, and \<open>hlp::TraceableException\<close>, whose constructor writes to it:
  \<open>helpers/traceable_exception.hpp\<close>, \<open>helpers/trace_calls.hpp\<close>, and the calls of \<open>spdlog\<close> in \<open>main.cpp\<close>,
  \<open>sim/elf_loader.cpp\<close>, \<open>isa/syscall_handler.cpp\<close> and \<open>isa/ext_i_cb.cpp\<close>. The code that logs is
  translated a second time, with its log: a logged computation returns the entries it writes
  and its result. The lemmas show that the log does not change what the program does, provided
  the trace of an exception can be taken, and what the constructor of an exception logs.

  Left out are the lines of \<open>SPDLOG_TRACE\<close>, which only Debug builds write: a log here is the
  program's without those lines. An entry is its level, its format string and its arguments; how
  \<open>fmt\<close> renders them is left to that library.
\<close>

section \<open>Logged computations\<close>

datatype log_level = Debug | Info | Err

datatype log_arg = LogNum int | LogText string | LogBytes "u8 list"

type_synonym log_entry = "log_level \<times> string \<times> log_arg list"

type_synonym 'a logged = "log_entry list \<times> (error + 'a)"

definition silently :: "error + 'a \<Rightarrow> 'a logged" where
  "silently m = ([], m)"

definition log_then :: "'a logged \<Rightarrow> ('a \<Rightarrow> 'b logged) \<Rightarrow> 'b logged" where
  "log_then m f =
     (case m of (l, Inl err) \<Rightarrow> (l, Inl err)
      | (l, Inr x) \<Rightarrow> (case f x of (l', r) \<Rightarrow> (l @ l', r)))"

text \<open>
  \<open>main\<close> sets the level of the logger: everything in a Debug build, \<open>info\<close> and above in a
  Release build.
\<close>

definition spdlog :: "'z config_scheme \<Rightarrow> log_level \<Rightarrow> string \<Rightarrow> log_arg list \<Rightarrow> unit logged" where
  "spdlog c level format args = ((if level = Debug \<and> ndebug c then [] else [(level, format, args)]), Inr ())"

lemma silently_sels [simp]: "fst (silently m) = []" "snd (silently m) = m"
  by (simp_all add: silently_def)

lemma spdlog_sels [simp]: "snd (spdlog c level format args) = Inr ()"
  by (simp add: spdlog_def)

lemma snd_log_then [simp]: "snd (log_then m f) = and_then (snd m) (\<lambda>x. snd (f x))"
  by (auto simp: log_then_def and_then_def split: prod.split sum.split)

lemma fst_log_then:
  "fst (log_then m f) = fst m @ (case snd m of Inl err \<Rightarrow> [] | Inr x \<Rightarrow> fst (f x))"
  by (auto simp: log_then_def split: prod.split sum.split)

section \<open>hlp::TraceableException\<close>

text \<open>
  What the host provides: the names the compiler gives the callbacks and the instances of their
  templates, the text of the current \<open>errno\<close>, and the functions of \<open>glibc\<close> and of
  the C++ runtime that walk the stack. The frames at a throw depend on where it is, which the
  message identifies; \<open>backtrace\<close> is given the size of the buffer. \<open>backtrace_symbols\<close> returns
  null when it cannot allocate its result. \<open>dladdr\<close> fails or returns an information record whose
  name may be null.
\<close>

record 'w diagnostics =
  function_name :: "InsnMnemonic \<Rightarrow> string"
  template_name :: "InsnMnemonic \<Rightarrow> string"
  errno_text :: "'w \<Rightarrow> string"
  backtrace :: "string \<Rightarrow> nat \<Rightarrow> u64 list"
  backtrace_symbols :: "u64 list \<Rightarrow> string list option"
  dladdr :: "u64 \<Rightarrow> string option option"
  cxa_demangle :: "string \<Rightarrow> string option"

definition trace_skip :: nat where "trace_skip = 3"
definition trace_cap :: nat where "trace_cap = 32"

text \<open>The loop over the frames, from index \<open>i\<close> on for \<open>n\<close> more of them.\<close>

fun dump_frames ::
  "'w diagnostics \<Rightarrow> 'z config_scheme \<Rightarrow> u64 list \<Rightarrow> string list option \<Rightarrow> nat \<Rightarrow> nat \<Rightarrow> unit logged" where
  "dump_frames d c trace_buffer trace i 0 = silently (Inr ())"
| "dump_frames d c trace_buffer trace i (Suc n) =
     log_then (silently (array_get trace_buffer i)) (\<lambda>addr.
     log_then
       (case dladdr d addr of
          Some (Some dli_sname) \<Rightarrow>
            (case cxa_demangle d dli_sname of
               Some demangled_trace \<Rightarrow> spdlog c Debug ''{}'' [LogText demangled_trace]
             | None \<Rightarrow> spdlog c Debug ''{}'' [LogText dli_sname])
        | _ \<Rightarrow>
            (case trace of
               None \<Rightarrow> silently (ub NullPointer)
             | Some strings \<Rightarrow>
                 log_then (silently (array_get strings i)) (\<lambda>str. spdlog c Debug ''{}'' [LogText str])))
     (\<lambda>_. dump_frames d c trace_buffer trace (Suc i) n))"

definition dump_trace :: "'w diagnostics \<Rightarrow> 'z config_scheme \<Rightarrow> string \<Rightarrow> unit logged" where
  "dump_trace d c site =
     (let frames = backtrace d site trace_cap;
          trace_size = length frames;
          trace_buffer = frames @ replicate (trace_cap - trace_size) 0;
          trace = backtrace_symbols d (take trace_size trace_buffer) in
      log_then (if trace = None then spdlog c Debug ''Unable to trace'' [] else silently (Inr ())) (\<lambda>_.
      log_then (spdlog c Debug ''trace:'' []) (\<lambda>_.
      dump_frames d c trace_buffer trace trace_skip (trace_size - trace_skip))))"

definition make_TraceableException ::
  "'w diagnostics \<Rightarrow> 'z config_scheme \<Rightarrow> string \<Rightarrow> bool \<Rightarrow> unit logged" where
  "make_TraceableException d c err_msg generate_trace =
     log_then (spdlog c Err err_msg []) (\<lambda>_.
     if \<not> generate_trace then silently (Inr ())
     else if \<not> ndebug c then dump_trace d c err_msg
     else silently (Inr ()))"

definition throw :: "'w diagnostics \<Rightarrow> 'z config_scheme \<Rightarrow> string \<Rightarrow> 'a logged" where
  "throw d c err_msg =
     log_then (make_TraceableException d c err_msg True) (\<lambda>_.
     silently (Inl (TraceableException err_msg)))"

section \<open>System calls\<close>

definition sys_exit_logged :: "'w env \<Rightarrow> 'w machine \<Rightarrow> 'w machine logged" where
  "sys_exit_logged e s =
     (let s = s\<lparr>should_stop := True\<rparr> in
      log_then (silently (GetXReg e (XReg_FromEnum X_a0) s)) (\<lambda>a0.
      log_then
        (spdlog e Info ''syscall exit had been called, terminating: ip {}, status {}''
          [LogNum (uint (ip s)), LogNum (uint a0)]) (\<lambda>_.
      silently (Inr s))))"

definition sys_read_logged :: "'w diagnostics \<Rightarrow> 'w env \<Rightarrow> 'w machine \<Rightarrow> 'w machine logged" where
  "sys_read_logged d e s =
     log_then (spdlog e Info ''syscall read had been called'' []) (\<lambda>_.
     log_then (silently (GetXReg e (XReg_FromEnum X_a0) s)) (\<lambda>fd.
     log_then (silently (GetXReg e (XReg_FromEnum X_a1) s)) (\<lambda>guest_buf_ptr.
     log_then (silently (GetXReg e (XReg_FromEnum X_a2) s)) (\<lambda>sz.
     let buf = replicate (unat sz) 0;
         (rc, buf, w) = host_read e fd buf (host s);
         s = s\<lparr>host := w\<rparr> in
     log_then
       (if sint rc \<ge> 0 then
          log_then (silently (CopyHostToGuest e (memory s) guest_buf_ptr buf (unat rc))) (\<lambda>m.
          silently (Inr (s\<lparr>memory := m\<rparr>)))
        else
          log_then (spdlog e Err ''read syscall failed: fd {}, error {}''
            [LogNum (sint fd), LogText (errno_text d w)]) (\<lambda>_.
          silently (Inr s))) (\<lambda>s.
     silently (SetXReg e (XReg_FromEnum X_a0) (ucast rc) s))))))"

definition sys_write_logged :: "'w diagnostics \<Rightarrow> 'w env \<Rightarrow> 'w machine \<Rightarrow> 'w machine logged" where
  "sys_write_logged d e s =
     log_then (spdlog e Info ''syscall write had been called'' []) (\<lambda>_.
     log_then (silently (GetXReg e (XReg_FromEnum X_a0) s)) (\<lambda>fd.
     log_then (silently (GetXReg e (XReg_FromEnum X_a1) s)) (\<lambda>guest_buf_ptr.
     log_then (silently (GetXReg e (XReg_FromEnum X_a2) s)) (\<lambda>sz.
     let buf = replicate (unat sz) 0 in
     log_then (silently (CopyGuestToHost e (memory s) guest_buf_ptr buf (unat sz))) (\<lambda>buf.
     let (wc, w) = host_write e fd buf (host s);
         s = s\<lparr>host := w\<rparr> in
     log_then
       (if sint wc < 0 then
          spdlog e Err ''write syscall failed: fd {}, error {}''
            [LogNum (sint fd), LogText (errno_text d w)]
        else silently (Inr ())) (\<lambda>_.
     silently (SetXReg e (XReg_FromEnum X_a0) (ucast wc) s)))))))"

definition SyscallHandler_logged :: "'w diagnostics \<Rightarrow> 'w env \<Rightarrow> 'w machine \<Rightarrow> 'w machine logged" where
  "SyscallHandler_logged d e s =
     log_then (silently (GetXReg e (XReg_FromEnum X_a7) s)) (\<lambda>syscall_id.
     if syscall_id = SyscallId_FromEnum kExit then sys_exit_logged e s
     else if syscall_id = SyscallId_FromEnum kRead then sys_read_logged d e s
     else if syscall_id = SyscallId_FromEnum kWrite then sys_write_logged d e s
     else
       log_then (spdlog e Err ''unknown syscall id: {}'' [LogNum (uint syscall_id)]) (\<lambda>_.
       log_then (silently (cassert e ''unknown syscall id'' False)) (\<lambda>_.
       silently (Inr s))))"

section \<open>The main loop\<close>

text \<open>The callbacks that log: the others are silent.\<close>

definition CallbackECALL_logged :: "'w diagnostics \<Rightarrow> 'w env \<Rightarrow> u32 \<Rightarrow> 'w machine \<Rightarrow> 'w machine logged" where
  "CallbackECALL_logged d e insn s = log_then (SyscallHandler_logged d e s) (\<lambda>s. silently (Inr (Step s)))"

definition CallbackFENCE_logged :: "'w env \<Rightarrow> u32 \<Rightarrow> 'w machine \<Rightarrow> 'w machine logged" where
  "CallbackFENCE_logged e insn s =
     log_then (spdlog e Info ''FENCE instruction encountered'' []) (\<lambda>_. silently (Inr (Step s)))"

definition CallbackFENCE_I_logged :: "'w env \<Rightarrow> u32 \<Rightarrow> 'w machine \<Rightarrow> 'w machine logged" where
  "CallbackFENCE_I_logged e insn s =
     log_then (spdlog e Info ''FENCE_I instruction encountered'' []) (\<lambda>_. silently (Inr (Step s)))"

definition CallbackEBREAK_logged :: "'w env \<Rightarrow> u32 \<Rightarrow> 'w machine \<Rightarrow> 'w machine logged" where
  "CallbackEBREAK_logged e insn s =
     log_then (spdlog e Info ''EBREAK instruction encountered'' []) (\<lambda>_. silently (Inr (Step s)))"

definition callback_logged ::
  "'w diagnostics \<Rightarrow> InsnMnemonic \<Rightarrow> 'w callback_env \<Rightarrow> 'w env \<Rightarrow> u32 \<Rightarrow> 'w machine \<Rightarrow> 'w machine logged" where
  "callback_logged d m cb e insn s =
     (if m = Ext_I ECALL then CallbackECALL_logged d e insn s
      else if m = Ext_I FENCE then CallbackFENCE_logged e insn s
      else if m = Ext_I FENCE_I then CallbackFENCE_I_logged e insn s
      else if m = Ext_I EBREAK then CallbackEBREAK_logged e insn s
      else silently (cb e insn s))"

text \<open>
  \<open>hlp::trace_call\<close>, which logs the name of the function it is called from: the first statement
  of every callback, and of the template that some callbacks then call.
\<close>

definition trace_call :: "'z config_scheme \<Rightarrow> string \<Rightarrow> unit logged" where
  "trace_call c name =
     (if \<not> ndebug c then spdlog c Debug ''Function call: {}'' [LogText name] else silently (Inr ()))"

fun calls_template :: "InsnMnemonic \<Rightarrow> bool" where
  "calls_template (Ext_I m) \<longleftrightarrow>
     m \<in> {BEQ, BNE, BLT, BGE, BLTU, BGEU, ADDI, XORI, ORI, ANDI, SLLI, SRLI, SRAI,
        ADD, SUB, SLL, XOR_insn, SRL, SRA, OR_insn, AND_insn}"
| "calls_template (Ext_F m) \<longleftrightarrow>
     m \<in> {FADD_S, FSUB_S, FMUL_S, FDIV_S, FMADD_S, FMSUB_S, FNMSUB_S, FNMADD_S, FLE_S, FLT_S, FEQ_S}"
| "calls_template _ \<longleftrightarrow> False"

definition run_callback_logged ::
  "'w diagnostics \<Rightarrow> InsnMnemonic \<Rightarrow> 'w callback_env \<Rightarrow> 'w env \<Rightarrow> u32 \<Rightarrow> 'w machine \<Rightarrow> 'w machine logged" where
  "run_callback_logged d m cb e insn s =
     log_then (trace_call e (function_name d m)) (\<lambda>_.
     log_then (if calls_template m then trace_call e (template_name d m) else silently (Inr ())) (\<lambda>_.
     callback_logged d m cb e insn s))"

definition Execute_body_logged :: "'w diagnostics \<Rightarrow> 'w env \<Rightarrow> 'w machine \<Rightarrow> 'w machine logged" where
  "Execute_body_logged d e s =
     log_then (silently (Fetch e (memory s) (ip s))) (\<lambda>undecoded_insn.
     let mnem = Decode undecoded_insn in
     if mnem = kInvalid then throw d e ''Unkown instuction encountered''
     else log_then (silently (GetInsnCallback mnem)) (\<lambda>instr_callback.
          run_callback_logged d mnem instr_callback e undecoded_insn s))"

text \<open>The loop carries the log written so far.\<close>

partial_function (option) Execute_logged ::
  "'w diagnostics \<Rightarrow> 'w env \<Rightarrow> log_entry list \<Rightarrow> 'w machine \<Rightarrow> (u32 \<times> 'w machine) logged option" where
  "Execute_logged d e l s =
     (if \<not> should_stop s then
        (case Execute_body_logged d e s of
           (l', Inl err) \<Rightarrow> Some (l @ l', Inl err)
         | (l', Inr s') \<Rightarrow> Execute_logged d e (l @ l') s')
      else Some (l, Execute_result s))"

section \<open>The loader and main\<close>

definition IsTargetCorrect_logged :: "'p elfio \<Rightarrow> 'z config_scheme \<Rightarrow> elf_image \<Rightarrow> bool logged" where
  "IsTargetCorrect_logged api c elf =
     (if machine_id elf \<noteq> EM_RISCV api then
        log_then (spdlog c Err ''Unsupported target arch'' []) (\<lambda>_. silently (Inr False))
      else if elf_class elf \<noteq> ELFCLASS32 api then
        log_then (spdlog c Err ''Unsupported target bitness'' []) (\<lambda>_. silently (Inr False))
      else silently (Inr True))"

fun load_segments_logged ::
  "'p elfio \<Rightarrow> 'z config_scheme \<Rightarrow> elf_segment list \<Rightarrow> MemorySegm list logged" where
  "load_segments_logged api c [] = silently (Inr [])"
| "load_segments_logged api c (segm # rest) =
     (if segment_type segm \<noteq> PT_LOAD api then load_segments_logged api c rest
      else
        log_then (spdlog c Debug ''Found loadable segment, virtual address {}, memory size {}''
          [LogNum (uint (virtual_address segm)), LogNum (uint (memory_size segm))]) (\<lambda>_.
        log_then (silently (load_segment api segm)) (\<lambda>mem_segm.
        log_then (load_segments_logged api c rest) (\<lambda>mem_segms.
        silently (Inr (mem_segm # mem_segms))))))"

definition LoadElf_logged :: "'w diagnostics \<Rightarrow> 'p elfio \<Rightarrow> 'z config_scheme \<Rightarrow> 'p \<Rightarrow> ParsedElf logged" where
  "LoadElf_logged d api c elf_path =
     (case load api elf_path of
        None \<Rightarrow> throw d c ''Unable to load elf file''
      | Some elf \<Rightarrow>
          log_then (IsTargetCorrect_logged api c elf) (\<lambda>correct.
          if \<not> correct then throw d c ''Unsupported target''
          else log_then (load_segments_logged api c (segments elf)) (\<lambda>memory_segms.
               silently (Inr \<lparr>mem = memory_segms, entry_point = ucast (entry elf),
                 global_ptr = find_global_pointer api (sections elf) 0\<rparr>))))"

text \<open>The arguments, one entry each, from index \<open>i\<close> on for \<open>n\<close> more of them.\<close>

fun log_argv :: "'z config_scheme \<Rightarrow> u8 list list \<Rightarrow> nat \<Rightarrow> nat \<Rightarrow> unit logged" where
  "log_argv c argv i 0 = silently (Inr ())"
| "log_argv c argv i (Suc n) =
     log_then (silently (array_get argv i)) (\<lambda>str.
     log_then (spdlog c Info ''argv[{}]: {}'' [LogNum (int i), LogBytes str]) (\<lambda>_.
     log_argv c argv (Suc i) n))"

definition main_logged ::
  "'w diagnostics \<Rightarrow> 'w env \<Rightarrow> u8 list elfio \<Rightarrow> u8 \<Rightarrow> u8 \<Rightarrow> 'w \<Rightarrow> int \<Rightarrow> u8 list list \<Rightarrow> u32 logged option" where
  "main_logged d e api rounding flags w argc argv =
     (case log_argv e argv 0 (nat argc) of
        (l, Inl err) \<Rightarrow> Some (l, Inl err)
      | (l, Inr _) \<Rightarrow>
     if argc < 2 then
       (if argv = [] then Some (l, ub NullPointer)
        else Some (l @ fst (spdlog e Err ''argc < 2: {}'' [LogNum argc]), Inr EXIT_FAILURE))
     else
       (case and_then (make_ProgramArgs argc argv) (\<lambda>prog_args.
             and_then (array_get argv 1) (\<lambda>path. Inr (prog_args, path))) of
          Inl err \<Rightarrow> Some (l, Inl err)
        | Inr (prog_args, path) \<Rightarrow>
            (case LoadElf_logged d api e path of
               (l', Inl (TraceableException what)) \<Rightarrow>
                 Some (l @ l' @ fst (spdlog e Debug ''Catch exception in main: {}'' [LogText what]),
                   Inr EXIT_FAILURE)
             | (l', Inl err) \<Rightarrow> Some (l @ l', Inl err)
             | (l', Inr parsed_elf) \<Rightarrow>
                 (case RVSim parsed_elf prog_args of
                    Inl err \<Rightarrow> Some (l @ l', Inl err)
                  | Inr sim \<Rightarrow>
                      map_option (map_prod id (\<lambda>r. and_then r (\<lambda>(status, _). Inr status)))
                        (Execute_logged d e (l @ l') (start sim rounding flags w))))))"

section \<open>Without the log\<close>

text \<open>What the host must provide for the trace of an exception to be taken.\<close>

definition trace_available :: "'w diagnostics \<Rightarrow> bool" where
  "trace_available d \<longleftrightarrow> (\<forall>site n. length (backtrace d site n) \<le> n) \<and>
     (\<forall>frames. \<exists>strings. backtrace_symbols d frames = Some strings \<and> length strings = length frames)"

lemma dump_frames_ok:
  assumes "i + n \<le> length trace_buffer" "i + n \<le> length strings"
  shows "snd (dump_frames d c trace_buffer (Some strings) i n) = Inr ()"
  using assms by (induction n arbitrary: i) (auto split: option.split)

lemma dump_trace_ok:
  assumes "trace_available d"
  shows "snd (dump_trace d c site) = Inr ()"
proof -
  let ?frames = "backtrace d site trace_cap"
  have n: "length ?frames \<le> trace_cap" using assms by (simp add: trace_available_def)
  obtain strings where s: "backtrace_symbols d ?frames = Some strings" "length strings = length ?frames"
    using assms unfolding trace_available_def by blast
  have "snd (dump_frames d c (?frames @ replicate (trace_cap - length ?frames) 0) (Some strings) trace_skip
      (length ?frames - trace_skip)) = Inr ()" if "trace_skip \<le> length ?frames"
    using that n s(2) by (intro dump_frames_ok) simp_all
  then show ?thesis
    using s(1) by (cases "trace_skip \<le> length ?frames") (auto simp: dump_trace_def Let_def)
qed

lemma snd_throw:
  "ndebug c \<or> trace_available d \<Longrightarrow> snd (throw d c msg) = Inl (TraceableException msg)"
  by (auto simp: throw_def make_TraceableException_def dump_trace_ok)

lemma SyscallHandler_erased: "sim_ok s \<Longrightarrow> snd (SyscallHandler_logged d e s) = SyscallHandler e s"
  by (simp add: SyscallHandler_logged_def SyscallHandler_def sys_exit_logged_def sys_exit_def
      sys_read_logged_def sys_read_def sys_write_logged_def sys_write_def Let_def case_prod_beta
      if_distrib [of snd] cong: if_cong)

lemma trace_call_erased [simp]: "snd (trace_call c name) = Inr ()"
  by (simp add: trace_call_def)

lemma CallbackECALL_erased: "sim_ok s \<Longrightarrow> snd (CallbackECALL_logged d e insn s) = CallbackECALL e insn s"
  by (simp add: CallbackECALL_logged_def CallbackECALL_def SyscallHandler_erased)

lemma run_callback_erased:
  assumes "sim_ok s" "GetInsnCallback m = Inr cb"
  shows "snd (run_callback_logged d m cb e insn s) = cb e insn s"
  using assms CallbackECALL_erased [OF assms(1)]
  by (auto simp: run_callback_logged_def callback_logged_def CallbackFENCE_logged_def CallbackFENCE_I_logged_def
      CallbackEBREAK_logged_def CallbackFENCE_def CallbackFENCE_I_def CallbackEBREAK_def)

lemma Execute_body_erased:
  assumes "sim_ok s" "ndebug e \<or> trace_available d"
  shows "snd (Execute_body_logged d e s) = Execute_body e s"
  using assms
  by (auto simp: Execute_body_logged_def Execute_body_def Let_def snd_throw run_callback_erased
      if_distrib [of snd] intro!: and_then_cong)

lemma Execute_logged_Some:
  "Execute_logged d e l s = Some y \<Longrightarrow> sim_ok s \<Longrightarrow> ndebug e \<or> trace_available d \<Longrightarrow>
    Execute e s = Some (snd y)"
proof (induction rule: Execute_logged.raw_induct [rotated, consumes 1])
  case (1 exec d e l s y)
  note erased = Execute_body_erased [OF 1(3,4)]
  show ?case
  proof (cases "should_stop s")
    case True
    then show ?thesis using 1(2) by (auto simp: exec.run_stop)
  next
    case False
    obtain k r where b: "Execute_body_logged d e s = (k, r)" by fastforce
    show ?thesis
    proof (cases r)
      case (Inl err)
      then show ?thesis using 1(2) False b erased by (auto simp: exec.run_error)
    next
      case (Inr t)
      then have t: "Execute_body e s = Inr t" using b erased by simp
      have "exec d e (l @ k) t = Some y" using 1(2) False b Inr by simp
      moreover have "sim_ok t" using Execute_body_keeps [OF 1(3) t] by (simp add: keeps_def)
      ultimately have "Execute e t = Some (snd y)" using 1(1,4) by blast
      then show ?thesis using exec.run_step [OF False t] by simp
    qed
  qed
qed

lemma Execute_Some_logged:
  "Execute e s = Some r \<Longrightarrow> sim_ok s \<Longrightarrow> ndebug e \<or> trace_available d \<Longrightarrow>
    \<exists>l'. Execute_logged d e l s = Some (l', r)"
proof (induction arbitrary: l rule: Execute.raw_induct [rotated, consumes 1])
  case (1 exec e s r)
  note erased = Execute_body_erased [OF 1(3,4)]
  show ?case
  proof (cases "should_stop s")
    case True
    then show ?thesis using 1(2) by (auto simp: Execute_logged.simps)
  next
    case False
    obtain k q where b: "Execute_body_logged d e s = (k, q)" by fastforce
    show ?thesis
    proof (cases q)
      case (Inl err)
      then have "Execute_body e s = Inl err" using b erased by simp
      then have "r = Inl err" using 1(2) False by simp
      then show ?thesis using False b Inl by (simp add: Execute_logged.simps)
    next
      case (Inr t)
      then have t: "Execute_body e s = Inr t" using b erased by simp
      then have "exec e t = Some r" using 1(2) False by simp
      moreover have "sim_ok t" using Execute_body_keeps [OF 1(3) t] by (simp add: keeps_def)
      ultimately have "\<exists>l'. Execute_logged d e (l @ k) t = Some (l', r)" using 1(1,4) by blast
      then show ?thesis using False b Inr by (simp add: Execute_logged.simps [of d e l s])
    qed
  qed
qed

lemma Execute_erased:
  assumes "sim_ok s" "ndebug e \<or> trace_available d"
  shows "map_option snd (Execute_logged d e l s) = Execute e s"
proof (cases "Execute e s")
  case None
  then show ?thesis using Execute_logged_Some [OF _ assms] by (cases "Execute_logged d e l s") auto
next
  case (Some r)
  then show ?thesis using Execute_Some_logged [OF Some assms] by fastforce
qed

lemma IsTargetCorrect_erased: "snd (IsTargetCorrect_logged api c elf) = Inr (IsTargetCorrect api elf)"
  by (simp add: IsTargetCorrect_logged_def IsTargetCorrect_def)

lemma LoadElf_erased:
  assumes "ndebug c \<or> trace_available d"
  shows "snd (LoadElf_logged d api c path) = LoadElf api path"
proof -
  have "snd (load_segments_logged api c segms) = load_segments api segms" for segms
    by (induction segms) auto
  then show ?thesis
    using assms
    by (auto simp: LoadElf_logged_def LoadElf_def IsTargetCorrect_erased snd_throw split: option.split)
qed

lemma log_argv_ok: "i + n \<le> length argv \<Longrightarrow> snd (log_argv c argv i n) = Inr ()"
  by (induction n arbitrary: i) auto

section \<open>Properties\<close>

text \<open>A host whose trace has five frames, of which only the fourth has a name.\<close>

definition sample_diagnostics :: "u8 list diagnostics" where
  "sample_diagnostics =
     \<lparr>function_name = (\<lambda>m. ''isa::Callback''), template_name = (\<lambda>m. ''isa::Execute''),
      errno_text = (\<lambda>w. ''Bad file descriptor''), backtrace = (\<lambda>site n. take n [1, 2, 3, 4, 5]),
      backtrace_symbols = (\<lambda>frames. Some (map (\<lambda>f. ''?'') frames)),
      dladdr = (\<lambda>f. if f = 4 then Some (Some ''_Z4mainv'') else None),
      cxa_demangle = (\<lambda>name. Some ''main()'')\<rparr>"

lemma sample_trace_available: "trace_available sample_diagnostics"
  by (simp add: trace_available_def sample_diagnostics_def)

text \<open>The line of a frame: the demangled name, the mangled one, or the symbol string.\<close>

definition frame_text :: "'w diagnostics \<Rightarrow> u64 \<Rightarrow> string \<Rightarrow> string" where
  "frame_text d addr str =
     (case dladdr d addr of
        Some (Some dli_sname) \<Rightarrow> (case cxa_demangle d dli_sname of Some t \<Rightarrow> t | None \<Rightarrow> dli_sname)
      | _ \<Rightarrow> str)"

lemma dump_frames_lines:
  assumes "\<not> ndebug c" "i + n \<le> length buf" "i + n \<le> length strings"
  shows "dump_frames d c buf (Some strings) i n =
    (map (\<lambda>j. (Debug, ''{}'', [LogText (frame_text d (buf ! j) (strings ! j))])) [i..<i + n], Inr ())"
  using assms(2,3)
proof (induction n arbitrary: i)
  case 0
  then show ?case by (simp add: silently_def)
next
  case (Suc n)
  have "[i..<i + Suc n] = i # [Suc i..<Suc i + n]" by (simp add: upt_conv_Cons del: upt_Suc)
  then show ?case
    using Suc assms(1)
    by (auto simp: log_then_def silently_def spdlog_def frame_text_def simp del: upt_Suc split: option.split)
qed

lemma dump_frames_untraced:
  assumes "i + n \<le> length buf"
  shows "snd (dump_frames d c buf None i n) =
    (if \<exists>j. i \<le> j \<and> j < i + n \<and> (\<forall>name. dladdr d (buf ! j) \<noteq> Some (Some name))
     then ub NullPointer else Inr ())"
  using assms
proof (induction n arbitrary: i)
  case 0
  then show ?case by auto
next
  case (Suc n)
  have split: "(\<exists>j. i \<le> j \<and> j < i + Suc n \<and> P j) \<longleftrightarrow> P i \<or> (\<exists>j. Suc i \<le> j \<and> j < Suc i + n \<and> P j)"
    for P :: "nat \<Rightarrow> bool"
    by (metis (no_types) Suc_leD add_Suc_right add_Suc_shift le_eq_less_or_eq less_add_Suc1 less_eq_Suc_le order_refl)
  show ?case
    unfolding split using Suc by (auto simp: ub_def split: option.split)
qed

text \<open>
  C40: The trace of an exception. Its constructor logs the message and, in a Debug build, one line
  for each frame from the fourth on: the demangled name of the function if there is one, its
  mangled name if it cannot be demangled, or else the line of \<open>backtrace_symbols\<close>. When that
  fails, which the code notices and logs, it goes on all the same, and dereferences a null pointer
  at the first frame that has no name.
\<close>

theorem exception_trace:
  assumes "length (backtrace d msg trace_cap) \<le> trace_cap"
    and "\<And>frames strings. backtrace_symbols d frames = Some strings \<Longrightarrow> length strings = length frames"
  shows "let frames = backtrace d msg trace_cap; made = make_TraceableException d c msg True in
    if ndebug c then made = ([(Err, msg, [])], Inr ())
    else case backtrace_symbols d frames of
      Some strings \<Rightarrow>
        made = ([(Err, msg, []), (Debug, ''trace:'', [])] @
          map (\<lambda>j. (Debug, ''{}'', [LogText (frame_text d (frames ! j) (strings ! j))])) [3..<length frames], Inr ())
    | None \<Rightarrow>
        take 3 (fst made) = [(Err, msg, []), (Debug, ''Unable to trace'', []), (Debug, ''trace:'', [])] \<and>
        snd made = (if \<exists>j. 3 \<le> j \<and> j < length frames \<and> (\<forall>name. dladdr d (frames ! j) \<noteq> Some (Some name))
          then ub NullPointer else Inr ())"
proof -
  let ?frames = "backtrace d msg trace_cap"
  let ?buf = "?frames @ replicate (trace_cap - length ?frames) 0"
  have made: "make_TraceableException d c msg True =
      log_then (spdlog c Err msg []) (\<lambda>_. if ndebug c then silently (Inr ()) else dump_trace d c msg)"
    by (simp add: make_TraceableException_def)
  have buf: "length ?buf = 32" "take (length ?frames) ?buf = ?frames" using assms(1) by (simp_all add: trace_cap_def)
  show ?thesis
  proof (cases "ndebug c")
    case True
    then show ?thesis by (simp add: made log_then_def silently_def spdlog_def)
  next
    case False
    show ?thesis
    proof (cases "backtrace_symbols d ?frames")
      case None
      let ?n = "length ?frames - 3"
      have n: "3 + ?n \<le> length ?buf" using buf(1) assms(1) by (simp add: trace_cap_def)
      have "(\<exists>j. 3 \<le> j \<and> j < 3 + ?n \<and> (\<forall>name. dladdr d (?buf ! j) \<noteq> Some (Some name))) \<longleftrightarrow>
          (\<exists>j. 3 \<le> j \<and> j < length ?frames \<and> (\<forall>name. dladdr d (?frames ! j) \<noteq> Some (Some name)))"
        by (intro ex_cong) (auto simp: nth_append)
      then show ?thesis
        using None False dump_frames_untraced [OF n, of d c]
        by (simp add: made dump_trace_def trace_skip_def buf(2) fst_log_then spdlog_def Let_def)
    next
      case (Some strings)
      let ?n = "length ?frames - 3"
      have len: "length strings = length ?frames" using assms(2) [OF Some] .
      have "dump_frames d c ?buf (Some strings) 3 ?n =
          (map (\<lambda>j. (Debug, ''{}'', [LogText (frame_text d (?frames ! j) (strings ! j))])) [3..<length ?frames], Inr ())"
      proof (cases "3 \<le> length ?frames")
        case True
        then have "3 + ?n \<le> length ?buf" "3 + ?n \<le> length strings" using len by simp_all
        from dump_frames_lines [OF False this, of d] show ?thesis
          using True by (simp add: nth_append cong: map_cong)
      next
        case False
        then show ?thesis by (simp add: silently_def)
      qed
      then show ?thesis
        using Some False
        by (simp add: made dump_trace_def trace_skip_def buf(2) log_then_def silently_def spdlog_def Let_def)
    qed
  qed
qed

text \<open>Without memory for the symbols, the unnamed fifth frame makes the Debug build crash.\<close>

lemma exception_trace_witness:
  "make_TraceableException sample_diagnostics (sample_env False) ''m'' True =
     ([(Err, ''m'', []), (Debug, ''trace:'', []), (Debug, ''{}'', [LogText ''main()'']),
       (Debug, ''{}'', [LogText ''?''])], Inr ()) \<and>
   snd (make_TraceableException (sample_diagnostics\<lparr>backtrace_symbols := \<lambda>_. None\<rparr>) (sample_env False) ''m'' True) =
     ub NullPointer"
proof -
  let ?d = "sample_diagnostics\<lparr>backtrace_symbols := \<lambda>_. None\<rparr>"
  let ?frames = "[1, 2, 3, 4, 5] :: u64 list"
  have frames: "backtrace sample_diagnostics ''m'' trace_cap = ?frames"
    by (simp add: sample_diagnostics_def trace_cap_def)
  have builds: "\<not> ndebug (sample_env False)" by (simp add: sample_env_def)
  have symbols: "backtrace_symbols sample_diagnostics fs = Some (map (\<lambda>f. ''?'') fs)" for fs
    by (simp add: sample_diagnostics_def)
  have "dladdr ?d (?frames ! 4) = None" by (simp add: sample_diagnostics_def)
  then have unnamed: "\<exists>j. 3 \<le> j \<and> j < length ?frames \<and> (\<forall>name. dladdr ?d (?frames ! j) \<noteq> Some (Some name))"
    by (intro exI [of _ 4]) simp
  have range: "[3..<length ?frames] = [3, 4]" by (simp add: upt_rec)
  have names: "frame_text sample_diagnostics 4 ''?'' = ''main()''" "frame_text sample_diagnostics 5 ''?'' = ''?''"
    by (simp_all add: frame_text_def sample_diagnostics_def)
  have "length ?frames \<le> trace_cap" by (simp add: trace_cap_def)
  then have "make_TraceableException sample_diagnostics (sample_env False) ''m'' True =
     ([(Err, ''m'', []), (Debug, ''trace:'', []), (Debug, ''{}'', [LogText ''main()'']),
       (Debug, ''{}'', [LogText ''?''])], Inr ())"
    using exception_trace [of sample_diagnostics "''m''" "sample_env False"]
    unfolding frames symbols Let_def range using builds names by simp
  moreover have "snd (make_TraceableException ?d (sample_env False) ''m'' True) = ub NullPointer"
    using exception_trace [of ?d "''m''" "sample_env False"] \<open>length ?frames \<le> trace_cap\<close> unnamed builds
    by (simp add: frames Let_def)
  ultimately show ?thesis by simp
qed

end
