(* ===== verification/RV_Log_End.thy ===== *)
theory RV_Log_End
  imports RV_Log
begin

text \<open>
  What the log of a run tells. In the simulation exceptions are thrown for unknown instructions
  only (\<open>nothrow\<close>), the entry of the exit call is written exactly by the iteration that stops the
  loop (\<open>no_exit\<close>, \<open>log_tells\<close>), and so the end of the log \<open>main\<close> writes shows how it ended.
\<close>

section \<open>What throws\<close>

text \<open>In the simulation an exception is thrown for an unknown instruction only.\<close>

definition nothrow :: "error + 'a \<Rightarrow> bool" where
  "nothrow m \<longleftrightarrow> (\<forall>msg. m \<noteq> Inl (TraceableException msg))"

lemma nothrow_simps [simp]: "nothrow (Inr x)" "nothrow (ub u)" "nothrow (Inl (AssertFailed what))"
  "nothrow (cassert c what b)" "nothrow (array_get xs i)" "nothrow (array_set xs i y)"
  "nothrow (shl v n)" "nothrow (shr v n)"
  by (simp_all add: nothrow_def ub_def cassert_def array_get_def array_set_def shl_def shr_def)

lemma nothrow_then: "nothrow m \<Longrightarrow> (\<And>x. nothrow (f x)) \<Longrightarrow> nothrow (and_then m f)"
  by (auto simp: nothrow_def and_then_eq_Inl)

lemma nothrow_if: "(b \<Longrightarrow> nothrow m) \<Longrightarrow> (\<not> b \<Longrightarrow> nothrow n) \<Longrightarrow> nothrow (if b then m else n)"
  by simp

lemma nothrow_prod: "(\<And>x y. nothrow (f x y)) \<Longrightarrow> nothrow (case p of (x, y) \<Rightarrow> f x y)"
  by (cases p) simp

lemma nothrow_loops: "nothrow (Load_loop c ss a)" "nothrow (Store_loop c ss a v)"
  by (induction ss) (auto simp: Let_def memcpy_from_def memcpy_to_def intro!: nothrow_then)

lemma nothrow_memory:
  "nothrow (LoadU32 c m a)" "nothrow (LoadU16 c m a)" "nothrow (LoadU8 c m a)"
  "nothrow (StoreU32 c m a v32)" "nothrow (StoreU16 c m a v16)" "nothrow (StoreU8 c m a v8)"
  "nothrow (Fetch c m a)"
  unfolding access_defs by (intro nothrow_loops nothrow_then nothrow_simps)+

lemma nothrow_copies: "nothrow (CopyGuestToHost c m a buf n)" "nothrow (CopyHostToGuest c m a buf n)"
proof -
  have "nothrow (CopyGuestToHost_loop c m a buf i n)" for i
    by (induction n arbitrary: buf i) (auto intro!: nothrow_then nothrow_memory)
  moreover have "nothrow (CopyHostToGuest_loop c m a buf i n)" for i
    by (induction n arbitrary: m i) (auto intro!: nothrow_then nothrow_memory)
  ultimately show "nothrow (CopyGuestToHost c m a buf n)" "nothrow (CopyHostToGuest c m a buf n)"
    by (simp_all add: CopyGuestToHost_def CopyHostToGuest_def)
qed

lemma nothrow_registers:
  "nothrow (GetXReg c i s)" "nothrow (SetXReg c i v s)" "nothrow (GetFReg c i s)" "nothrow (SetFReg c i v s)"
  unfolding GetXReg_def SetXReg_def GetFReg_def SetFReg_def
  by (intro nothrow_then nothrow_if nothrow_simps)+

lemma nothrow_csr: "nothrow (GetCSR c i s)" "nothrow (SetCSR c i v s)" "nothrow (GetRM c r s)"
  unfolding GetCSR_def SetCSR_def GetRM_def
  by (auto intro!: nothrow_then nothrow_if split: option.split CSR.split)

lemma nothrow_softfloat: "nothrow (SoftFloatSetRM e rm s)" "nothrow (SoftFloatSetFExcp e s)"
  by (cases rm) (auto simp: SoftFloatSetRM_def intro!: nothrow_then)

lemmas nothrow_intros = nothrow_then nothrow_prod nothrow_if nothrow_registers nothrow_csr
  nothrow_softfloat nothrow_memory nothrow_copies nothrow_simps

lemma nothrow_ecall: "nothrow (CallbackECALL e insn s)"
  unfolding CallbackECALL_def SyscallHandler_def sys_exit_def sys_read_def sys_write_def Let_def
  by (intro nothrow_intros)

lemma nothrow_ext_f: "nothrow (ext_f_callback m e insn s)"
  by (cases m; simp only: ext_f_callback.simps ext_f_defs ExecuteRRRFBinOp_def ExecuteRRRRFTernOp_def
      ExecuteRRRCmpOp_def Let_def; intro nothrow_intros)

lemma nothrow_callback:
  assumes "sim_ok s" "GetInsnCallback m = Inr cb"
  shows "nothrow (cb e insn s)"
proof (cases m)
  case (Ext_I i)
  then show ?thesis using assms
    by (cases i) (auto simp: ext_i_effects CallbackFENCE_def CallbackFENCE_I_def CallbackEBREAK_def
        nothrow_ecall intro!: nothrow_intros)
next
  case (Ext_M i)
  then show ?thesis using assms by (cases i) (auto simp: ext_m_effects simp del: isa_m.simps)
next
  case (Ext_Zbb i)
  then show ?thesis using assms by (cases i) (auto simp: ext_zbb_effects simp del: isa_zbb.simps)
next
  case (Ext_Zicsr i)
  then show ?thesis using assms
    by (cases "CSR_ToEnum (unat (ImmCSR insn))"; cases i)
      (auto simp: ext_zicsr_effects simp del: isa_csr.simps)
qed (use assms nothrow_ext_f in auto)

section \<open>The end of the log\<close>

text \<open>The entry of the exit call, with the address of the call and the status.\<close>

definition exit_format :: string where
  "exit_format = ''syscall exit had been called, terminating: ip {}, status {}''"

definition exit_entry :: "u32 \<Rightarrow> u32 \<Rightarrow> log_entry" where
  "exit_entry at status = (Info, exit_format, [LogNum (uint at), LogNum (uint status)])"

abbreviation no_exit :: "log_entry list \<Rightarrow> bool" where
  "no_exit \<equiv> list_all (\<lambda>(level, format, args). format \<noteq> exit_format)"

lemma no_exit_then:
  "no_exit (fst m) \<Longrightarrow> (\<And>x. no_exit (fst (f x))) \<Longrightarrow> no_exit (fst (log_then m f))"
  by (auto simp: fst_log_then split: sum.split)

lemma no_exit_spdlog: "format \<noteq> exit_format \<Longrightarrow> no_exit (fst (spdlog c level format args))"
  by (simp add: spdlog_def)

lemma no_exit_if: "(b \<Longrightarrow> no_exit (fst m)) \<Longrightarrow> (\<not> b \<Longrightarrow> no_exit (fst n)) \<Longrightarrow> no_exit (fst (if b then m else n))"
  by simp

lemma no_exit_prod: "(\<And>x y. no_exit (fst (f x y))) \<Longrightarrow> no_exit (fst (case p of (x, y) \<Rightarrow> f x y))"
  by (cases p) simp

lemma no_exit_silently: "no_exit (fst (silently m))"
  by simp

lemma exit_format_neq:
  "''syscall read had been called'' \<noteq> exit_format" "''syscall write had been called'' \<noteq> exit_format"
  "''read syscall failed: fd {}, error {}'' \<noteq> exit_format"
  "''write syscall failed: fd {}, error {}'' \<noteq> exit_format" "''unknown syscall id: {}'' \<noteq> exit_format"
  "''FENCE instruction encountered'' \<noteq> exit_format" "''FENCE_I instruction encountered'' \<noteq> exit_format"
  "''EBREAK instruction encountered'' \<noteq> exit_format" "''Unkown instuction encountered'' \<noteq> exit_format"
  "''Function call: {}'' \<noteq> exit_format" "''{}'' \<noteq> exit_format" "''trace:'' \<noteq> exit_format" "''Unable to trace'' \<noteq> exit_format"
  by (simp_all add: exit_format_def)

lemmas no_exit_intros = no_exit_then no_exit_if no_exit_prod no_exit_silently
  exit_format_neq [THEN no_exit_spdlog]

lemma no_exit_calls:
  "no_exit (fst (sys_read_logged d e s))" "no_exit (fst (sys_write_logged d e s))"
  unfolding sys_read_logged_def sys_write_logged_def Let_def by (intro no_exit_intros)+

lemma dump_frames_debug: "list_all (\<lambda>(level, _). level = Debug) (fst (dump_frames d c b t i n))"
  by (induction n arbitrary: i) (auto simp: fst_log_then spdlog_def split: sum.split option.split)

lemma dump_trace_debug: "list_all (\<lambda>(level, _). level = Debug) (fst (dump_trace d c site))"
  by (auto simp: dump_trace_def Let_def fst_log_then spdlog_def dump_frames_debug split: sum.split)

lemma dump_frames_no_exit: "no_exit (fst (dump_frames d c b t i n))"
  by (induction n arbitrary: i)
    (auto intro!: no_exit_intros split: option.split)

lemma throw_log:
  assumes "msg \<noteq> exit_format"
  shows "\<exists>tr. fst (throw d c msg) = (Err, msg, []) # tr \<and> list_all (\<lambda>(level, _). level = Debug) tr \<and> no_exit tr"
proof -
  have "no_exit (fst (dump_trace d c msg))"
    unfolding dump_trace_def Let_def by (intro no_exit_intros dump_frames_no_exit)
  then show ?thesis
    using dump_trace_debug [of d c msg]
    by (auto simp: throw_def make_TraceableException_def fst_log_then spdlog_def split: sum.split)
qed

lemma trace_call_no_exit: "no_exit (fst (trace_call c name))"
  unfolding trace_call_def by (intro no_exit_intros)

lemma run_callback_traced:
  "\<exists>tr. no_exit tr \<and> run_callback_logged d m cb e insn s =
    (tr @ fst (callback_logged d m cb e insn s), snd (callback_logged d m cb e insn s))"
  by (rule exI [of _ "fst (trace_call e (function_name d m)) @
      (if calls_template m then fst (trace_call e (template_name d m)) else [])"])
    (simp add: run_callback_logged_def prod_eq_iff fst_log_then trace_call_no_exit)

lemma CallbackECALL_log:
  assumes "sim_ok s" "\<not> should_stop s" "CallbackECALL_logged d e insn s = (k, r)"
  shows "(case r of
      Inr t \<Rightarrow> if should_stop t then k = [exit_entry (ip s) (xreg s 10)] \<and> ip t = ip s + 4 \<and> xreg t 10 = xreg s 10
        else no_exit k
    | Inl err \<Rightarrow> no_exit k)"
proof -
  have k: "k = fst (CallbackECALL_logged d e insn s)" and "r = snd (CallbackECALL_logged d e insn s)"
    using assms(3) by simp_all
  then have r: "r = CallbackECALL e insn s" using CallbackECALL_erased [OF assms(1)] by simp
  show ?thesis
  proof (cases "xreg s 17 = 93")
    case True
    then have "k = [exit_entry (ip s) (xreg s 10)]"
      using assms(1) unfolding k
      by (simp add: CallbackECALL_logged_def SyscallHandler_logged_def sys_exit_logged_def
          fst_log_then exit_entry_def exit_format_def spdlog_def Let_def)
    then show ?thesis using True assms(1) by (simp add: r ecall_effect)
  next
    case False
    then have "no_exit k"
      using assms(1) unfolding k CallbackECALL_logged_def SyscallHandler_logged_def
      by (simp add: fst_log_then no_exit_calls no_exit_intros split: sum.split)
    moreover have "\<not> should_stop t" if "r = Inr t" for t
      using that False assms(1,2)
      by (cases "host_read e (xreg s 10) (replicate (unat (xreg s 12)) 0) (host s)")
        (auto simp: r ecall_effect sys_read_effect sys_write_effect elim!: errE split: if_splits prod.splits)
    ultimately show ?thesis by (auto split: sum.split)
  qed
qed

text \<open>What the log of an iteration, or of a run, tells about its result.\<close>

definition log_tells_error :: "log_entry list \<Rightarrow> error \<Rightarrow> bool" where
  "log_tells_error k err \<longleftrightarrow> no_exit k \<and>
     (\<forall>msg. err = TraceableException msg \<longrightarrow>
       (\<exists>k' tr. k = k' @ (Err, msg, []) # tr \<and> list_all (\<lambda>(level, _). level = Debug) tr))"

lemma Execute_body_log:
  assumes "sim_ok s" "\<not> should_stop s" "ndebug e \<or> trace_available d" "Execute_body_logged d e s = (k, r)"
  shows "(case r of
      Inr t \<Rightarrow> if should_stop t
        then \<exists>tr. k = tr @ [exit_entry (ip s) (xreg s 10)] \<and> no_exit tr \<and> ip t = ip s + 4 \<and> xreg t 10 = xreg s 10
        else no_exit k
    | Inl err \<Rightarrow> log_tells_error k err)"
proof (cases "Fetch e (memory s) (ip s)")
  case (Inl err)
  then show ?thesis
    using assms(4) nothrow_memory(7) [of e "memory s" "ip s"]
    by (auto simp: Execute_body_logged_def log_then_def silently_def log_tells_error_def nothrow_def)
next
  case (Inr w)
  show ?thesis
  proof (cases "Decode w = kInvalid")
    case True
    then have "(k, r) = throw d e ''Unkown instuction encountered''"
      using assms(4) Inr by (simp add: Execute_body_logged_def log_then_def silently_def split: prod.splits)
    then have "k = fst (throw d e ''Unkown instuction encountered'' :: 'a machine logged)"
      and r: "r = Inl (TraceableException ''Unkown instuction encountered'')"
      using snd_throw [OF assms(3)] by (metis fst_conv, metis snd_conv)
    then obtain tr where "k = [] @ (Err, ''Unkown instuction encountered'', []) # tr"
      "list_all (\<lambda>(level, _). level = Debug) tr" "no_exit tr"
      using throw_log [OF exit_format_neq(9), of d e] by auto
    then show ?thesis using r exit_format_neq(9) by (auto simp: log_tells_error_def)
  next
    case False
    then obtain cb where cb: "GetInsnCallback (Decode w) = Inr (cb :: 'a callback_env)"
      using Decode_not_kCount [of w] by (cases "Decode w") auto
    then have run: "run_callback_logged d (Decode w) cb e w s = (k, r)"
      using assms(4) Inr False by (simp add: Execute_body_logged_def log_then_def silently_def split: prod.splits)
    obtain tr k' where k: "k = tr @ k'" "no_exit tr" and cbl: "callback_logged d (Decode w) cb e w s = (k', r)"
      using run_callback_traced [of d "Decode w" cb e w s] run by (metis prod.inject surjective_pairing)
    show ?thesis
    proof (cases "Decode w = Ext_I ECALL")
      case True
      then have ecall: "CallbackECALL_logged d e w s = (k', r)" using cbl by (simp add: callback_logged_def)
      then have "r = CallbackECALL e w s" using CallbackECALL_erased [OF assms(1)] by (metis snd_conv)
      then have "\<not> (\<exists>msg. r = Inl (TraceableException msg))"
        using nothrow_ecall [of e w s] by (simp add: nothrow_def)
      then show ?thesis
        using CallbackECALL_log [OF assms(1,2) ecall] k by (auto simp: log_tells_error_def split: sum.splits)
    next
      case False
      have "r = cb e w s" using run_callback_erased [OF assms(1) cb, of d e w] run by simp
      then have "\<not> should_stop t" if "r = Inr t" for t
        using that callback_undisturbed [OF assms(1) cb, of e w t] False assms(2) by (simp add: undisturbed_def)
      moreover have "\<not> (\<exists>msg. r = Inl (TraceableException msg))"
        using nothrow_callback [OF assms(1) cb, of e w] \<open>r = cb e w s\<close> by (simp add: nothrow_def)
      moreover have "no_exit (fst (callback_logged d (Decode w) cb e w s))"
        using False by (auto simp: callback_logged_def CallbackFENCE_logged_def CallbackFENCE_I_logged_def
            CallbackEBREAK_logged_def intro!: no_exit_intros)
      ultimately show ?thesis using cbl k by (auto simp: log_tells_error_def split: sum.split)
    qed
  qed
qed

text \<open>The log of a run from \<open>s\<close>, after the entries that were there before it.\<close>

definition log_tells :: "log_entry list \<Rightarrow> error + u32 \<times> 'w machine \<Rightarrow> bool" where
  "log_tells k r \<longleftrightarrow>
     (case r of
        Inr (status, t) \<Rightarrow> \<exists>k'. k = k' @ [exit_entry (ip t - 4) status] \<and> no_exit k'
      | Inl err \<Rightarrow> log_tells_error k err)"

lemma log_tells_append: "no_exit k \<Longrightarrow> log_tells k' r \<Longrightarrow> log_tells (k @ k') r"
  by (auto simp: log_tells_def log_tells_error_def split: sum.splits) (metis append_assoc)+

lemma Execute_logged_tells:
  "Execute_logged d e l s = Some y \<Longrightarrow> sim_ok s \<Longrightarrow> ndebug e \<or> trace_available d \<Longrightarrow>
    if should_stop s then y = (l, Inr (xreg s 10, s)) else \<exists>k. fst y = l @ k \<and> log_tells k (snd y)"
proof (induction rule: Execute_logged.raw_induct [rotated, consumes 1])
  case (1 exec d e l s y)
  show ?case
  proof (cases "should_stop s")
    case True
    then show ?thesis using 1(2,3) by (simp add: Execute_result_def xreg_def)
  next
    case run: False
    obtain k r where b: "Execute_body_logged d e s = (k, r)" by fastforce
    note told = Execute_body_log [OF 1(3) run 1(4) b]
    have "\<exists>k. fst y = l @ k \<and> log_tells k (snd y)"
    proof (cases r)
      case (Inl err)
      then show ?thesis using 1(2) run b told by (auto simp: log_tells_def)
    next
      case (Inr t)
      have "Execute_body e s = Inr t" using Execute_body_erased [OF 1(3,4)] b Inr by simp
      then have ok: "sim_ok t" using Execute_body_keeps [OF 1(3)] by (simp add: keeps_def)
      have "exec d e (l @ k) t = Some y" using 1(2) run b Inr by simp
      note rest = 1(1) [OF this ok 1(4)]
      show ?thesis
      proof (cases "should_stop t")
        case True
        then show ?thesis using rest told Inr by (auto simp: log_tells_def)
      next
        case False
        then obtain k' where "fst y = l @ k @ k'" "log_tells k' (snd y)" using rest by auto
        then show ?thesis using told False Inr log_tells_append [of k k' "snd y"] by auto
      qed
    qed
    then show ?thesis using run by simp
  qed
qed

section \<open>main\<close>

lemma RVSim_sim_ok: "RVSim p a = Inr sim \<Longrightarrow> sim_ok sim"
  by (auto simp: RVSim_def Let_def sim_ok_def kNumXRegisters_def kNumFRegisters_def nth_list_update
      simp del: sim_ok_lengths elim!: errE dest!: array_set_InrD split: prod.splits)

lemma log_argv_entries:
  "i + n \<le> length argv \<Longrightarrow> fst (log_argv c argv i n) =
    map (\<lambda>j. (Info, ''argv[{}]: {}'', [LogNum (int j), LogBytes (argv ! j)])) [i..<i + n]"
proof (induction n arbitrary: i)
  case 0
  then show ?case by simp
next
  case (Suc n)
  then have "fst (log_argv c argv (Suc i) n) =
    map (\<lambda>j. (Info, ''argv[{}]: {}'', [LogNum (int j), LogBytes (argv ! j)])) [Suc i..<i + Suc n]"
    by simp
  moreover have "[i..<i + Suc n] = i # [Suc i..<i + Suc n]" by (rule upt_conv_Cons) simp
  ultimately show ?case using Suc.prems by (simp add: fst_log_then spdlog_def del: upt_Suc)
qed

definition argv_log :: "u8 list list \<Rightarrow> log_entry list" where
  "argv_log argv = map (\<lambda>j. (Info, ''argv[{}]: {}'', [LogNum (int j), LogBytes (argv ! j)])) [0..<length argv]"

lemma log_argv_all: "log_argv c argv 0 (length argv) = (argv_log argv, Inr ())"
  using log_argv_ok [of 0 "length argv" argv c] log_argv_entries [of 0 "length argv" argv c]
  by (simp add: argv_log_def prod_eq_iff)

lemma make_ProgramArgs_argv:
  assumes "argc = int (length argv)" "2 \<le> argc"
  shows "make_ProgramArgs argc argv = Inr \<lparr>args_count = argc - 1, args_strings = tl argv\<rparr>"
    and "array_get argv 1 = Inr (argv ! 1)"
  using assms make_ProgramArgs_tl [OF assms(1)] by (cases argv, simp_all)

text \<open>The ways \<open>main\<close> ends, with the log: the usage message, the loader, and the simulation.\<close>

lemma main_logged_cases:
  assumes "argc = int (length argv)"
  shows "argc = 0 \<Longrightarrow> main_logged d e api rounding flags w argc argv = Some ([], ub NullPointer)"
    and "argc = 1 \<Longrightarrow> main_logged d e api rounding flags w argc argv =
      Some (argv_log argv @ [(Err, ''argc < 2: {}'', [LogNum 1])], Inr EXIT_FAILURE)"
    and "2 \<le> argc \<Longrightarrow> main_logged d e api rounding flags w argc argv =
      (case LoadElf_logged d api e (argv ! 1) of
         (l', Inl (TraceableException what)) \<Rightarrow>
           Some (argv_log argv @ l' @ fst (spdlog e Debug ''Catch exception in main: {}'' [LogText what]),
             Inr EXIT_FAILURE)
       | (l', Inl err) \<Rightarrow> Some (argv_log argv @ l', Inl err)
       | (l', Inr parsed_elf) \<Rightarrow>
           (case RVSim parsed_elf \<lparr>args_count = argc - 1, args_strings = tl argv\<rparr> of
              Inl err \<Rightarrow> Some (argv_log argv @ l', Inl err)
            | Inr sim \<Rightarrow>
                map_option (map_prod id (\<lambda>r. and_then r (\<lambda>(status, _). Inr status)))
                  (Execute_logged d e (argv_log argv @ l') (start sim rounding flags w))))"
proof -
  have log: "log_argv e argv 0 (nat argc) = (argv_log argv, Inr ())" using assms log_argv_all by simp
  show "argc = 0 \<Longrightarrow> main_logged d e api rounding flags w argc argv = Some ([], ub NullPointer)"
    "argc = 1 \<Longrightarrow> main_logged d e api rounding flags w argc argv =
      Some (argv_log argv @ [(Err, ''argc < 2: {}'', [LogNum 1])], Inr EXIT_FAILURE)"
    unfolding main_logged_def log using assms by (auto simp: spdlog_def argv_log_def)
  show "2 \<le> argc \<Longrightarrow> main_logged d e api rounding flags w argc argv =
      (case LoadElf_logged d api e (argv ! 1) of
         (l', Inl (TraceableException what)) \<Rightarrow>
           Some (argv_log argv @ l' @ fst (spdlog e Debug ''Catch exception in main: {}'' [LogText what]),
             Inr EXIT_FAILURE)
       | (l', Inl err) \<Rightarrow> Some (argv_log argv @ l', Inl err)
       | (l', Inr parsed_elf) \<Rightarrow>
           (case RVSim parsed_elf \<lparr>args_count = argc - 1, args_strings = tl argv\<rparr> of
              Inl err \<Rightarrow> Some (argv_log argv @ l', Inl err)
            | Inr sim \<Rightarrow>
                map_option (map_prod id (\<lambda>r. and_then r (\<lambda>(status, _). Inr status)))
                  (Execute_logged d e (argv_log argv @ l') (start sim rounding flags w))))"
    unfolding main_logged_def log
    using make_ProgramArgs_argv [OF assms] by simp
qed

lemma no_exit_IsTargetCorrect: "no_exit (fst (IsTargetCorrect_logged api c elf))"
  unfolding IsTargetCorrect_logged_def
  by (intro no_exit_intros no_exit_spdlog) (simp_all add: exit_format_def)

lemma no_exit_LoadElf: "no_exit (fst (LoadElf_logged d api c path))"
proof -
  have neq: "''Found loadable segment, virtual address {}, memory size {}'' \<noteq> exit_format"
    "''Unable to load elf file'' \<noteq> exit_format" "''Unsupported target'' \<noteq> exit_format"
    by (simp_all add: exit_format_def)
  have segms: "no_exit (fst (load_segments_logged api c ss))" for ss
    by (induction ss) (auto intro!: no_exit_intros no_exit_spdlog neq)
  have throws: "no_exit (fst (throw d c msg :: ParsedElf logged))" if "msg \<noteq> exit_format" for msg
    using throw_log [where 'a = ParsedElf, OF that, of d c] that by auto
  show ?thesis
    unfolding LoadElf_logged_def
    by (auto intro!: no_exit_intros throws neq segms no_exit_IsTargetCorrect split: option.split)
qed

lemma log_tells_append_error: "no_exit k \<Longrightarrow> log_tells_error k' err \<Longrightarrow> log_tells_error (k @ k') err"
  unfolding log_tells_error_def by (simp, metis append_assoc)

lemma throw_tells:
  "msg \<noteq> exit_format \<Longrightarrow> throw d c msg = (k, Inl (TraceableException msg) :: error + 'a) \<Longrightarrow>
    log_tells_error k (TraceableException msg)"
  using throw_log [where 'a = 'a, of msg d c]
  by (auto simp: log_tells_error_def intro: exI [of _ "[]"])

lemma nothrow_load_segments: "nothrow (load_segments api ss)"
proof -
  have copies: "nothrow (memcpy_from buf off n)" "nothrow (memcpy_to buf off bs)" for buf bs :: "u8 list" and off n
    by (simp_all add: memcpy_from_def memcpy_to_def)
  have "nothrow (load_segment api segm)" for segm
    unfolding load_segment_def Let_def by (intro nothrow_then copies nothrow_simps)
  then show ?thesis by (induction ss) (auto intro!: nothrow_then)
qed

lemma LoadElf_throws_logged:
  assumes "ndebug c \<or> trace_available d" "LoadElf_logged d api c path = (k, Inl (TraceableException msg))"
  shows "log_tells_error k (TraceableException msg)"
proof -
  have neq: "''Unable to load elf file'' \<noteq> exit_format" "''Unsupported target'' \<noteq> exit_format"
    by (simp_all add: exit_format_def)
  have threw: "log_tells_error k' (TraceableException msg)"
    if "throw d c what = (k', Inl (TraceableException msg) :: error + ParsedElf)" "what \<noteq> exit_format" for what k'
    using that throw_tells [OF that(2)] snd_throw [OF assms(1), of what] by (metis Inl_inject error.inject(3) snd_conv)
  show ?thesis
  proof (cases "load api path")
    case None
    then show ?thesis using assms(2) threw [OF _ neq(1)] by (simp add: LoadElf_logged_def)
  next
    case (Some elf)
    obtain l0 where target: "IsTargetCorrect_logged api c elf = (l0, Inr (IsTargetCorrect api elf))" "no_exit l0"
      using IsTargetCorrect_erased [of api c elf] no_exit_IsTargetCorrect [of api c elf]
      by (cases "IsTargetCorrect_logged api c elf") simp
    show ?thesis
    proof (cases "IsTargetCorrect api elf")
      case True
      then have "nothrow (snd (LoadElf_logged d api c path))"
        using Some nothrow_load_segments [of api "segments elf"] LoadElf_erased [OF assms(1), of api path]
        by (auto simp: LoadElf_def intro!: nothrow_then)
      then show ?thesis using assms(2) by (simp add: nothrow_def)
    next
      case False
      then obtain k' where "throw d c ''Unsupported target'' = (k', Inl (TraceableException msg) :: error + ParsedElf)"
        "k = l0 @ k'"
        using assms(2) Some target(1) by (auto simp: LoadElf_logged_def log_then_def split: prod.splits)
      then show ?thesis using threw [OF _ neq(2)] log_tells_append_error [OF target(2)] by blast
    qed
  qed
qed

section \<open>Properties\<close>

text \<open>
  C38: Logging does not change what the program does. With the log erased, \<open>main\<close> returns what it
  returns in the model without a log, and runs forever where that does, in a Release build and,
  if the host can trace the stack, in a Debug build; and the log begins with one entry for each
  argument.
\<close>

theorem logging_is_transparent:
  assumes "argc = int (length argv)" "ndebug e \<or> trace_available d"
  shows "map_option snd (main_logged d e api rounding flags w argc argv) = main e api rounding flags w argc argv \<and>
    (\<forall>l r. main_logged d e api rounding flags w argc argv = Some (l, r) \<longrightarrow>
      take (length argv) l = argv_log argv)"
proof -
  let ?main = "main_logged d e api rounding flags w argc argv"
  note cases = main_logged_cases [OF assms(1), where d = d and e = e and api = api
      and rounding = rounding and flags = flags and w = w]
  have len: "length (argv_log argv) = length argv" by (simp add: argv_log_def)
  consider "argc = 0" | "argc = 1" | "2 \<le> argc" using assms(1) by linarith
  then show ?thesis
  proof cases
    case 1
    then show ?thesis using cases(1) assms(1) by (simp add: main_def argv_log_def)
  next
    case 2
    then have "argv \<noteq> []" using assms(1) by auto
    then show ?thesis using cases(2) 2 len by (simp add: main_def)
  next
    case 3
    obtain l' r where load: "LoadElf_logged d api e (argv ! 1) = (l', r)" "r = LoadElf api (argv ! 1)"
      using LoadElf_erased [OF assms(2), of api "argv ! 1"] by (metis surjective_pairing)
    note main = main_def [of e api rounding flags w argc argv] make_ProgramArgs_argv [OF assms(1) 3]
    show ?thesis
    proof (cases r)
      case (Inl err)
      then have "LoadElf_logged d api e (argv ! 1) = (l', Inl err)" "LoadElf api (argv ! 1) = Inl err"
        using load by simp_all
      then show ?thesis using cases(3) [OF 3] main 3 len by (cases err) simp_all
    next
      case (Inr p)
      then have p: "LoadElf_logged d api e (argv ! 1) = (l', Inr p)" "LoadElf api (argv ! 1) = Inr p"
        using load by simp_all
      show ?thesis
      proof (cases "RVSim p \<lparr>args_count = argc - 1, args_strings = tl argv\<rparr>")
        case (Inl err)
        then show ?thesis using cases(3) [OF 3] main 3 len p by simp
      next
        case (Inr sim)
        let ?s = "start sim rounding flags w"
        have ok: "sim_ok ?s" using RVSim_sim_ok [OF Inr] by simp
        have m: "?main = map_option (map_prod id (\<lambda>r. and_then r (\<lambda>(status, _). Inr status)))
            (Execute_logged d e (argv_log argv @ l') ?s)"
          using cases(3) [OF 3] p Inr by simp
        have "main e api rounding flags w argc argv =
            map_option (\<lambda>r. and_then r (\<lambda>(status, _). Inr status)) (Execute e ?s)"
          using main 3 p Inr by simp
        moreover have "take (length argv) l = argv_log argv" if "?main = Some (l, r)" for l r
          using that m len Execute_logged_tells [of d e "argv_log argv @ l'" ?s, OF _ ok assms(2)]
          by (auto split: if_splits)
        ultimately show ?thesis
          using Execute_erased [OF ok assms(2), of "argv_log argv @ l'", symmetric] m
          by (simp add: option.map_comp comp_def)
      qed
    qed
  qed
qed

lemma logging_is_transparent_witness:
  "map_option snd (main_logged sample_diagnostics (sample_env False) sample_elfio 0 0 [] 1 [[115]]) =
     Some (Inr EXIT_FAILURE)"
  using logging_is_transparent [of 1 "[[115]]" "sample_env False" sample_diagnostics sample_elfio 0 0 "[]"]
    sample_trace_available
  by (simp add: main_def)

text \<open>
  C39: The status is in the log, trace lines apart. When \<open>main\<close> returns a status, then either the simulation ran
  and the last entry of the log, and no entry before it, is that of the exit call, with the same
  status; or the status is \<open>EXIT_FAILURE\<close>, no entry is that of an exit call, and the log ends
  with an error, followed by nothing but entries of the level \<open>debug\<close>.
\<close>

theorem main_status_is_logged:
  assumes "argc = int (length argv)" "ndebug e \<or> trace_available d"
    and "main_logged d e api rounding flags w argc argv = Some (l, Inr status)"
  shows "(\<exists>k at. l = k @ [exit_entry at status] \<and> no_exit k) \<or>
    (status = EXIT_FAILURE \<and> no_exit l \<and>
      (\<exists>k what args k'. l = k @ (Err, what, args) # k' \<and> list_all (\<lambda>(level, _). level = Debug) k'))"
proof -
  note cases = main_logged_cases [OF assms(1), where d = d and e = e and api = api
      and rounding = rounding and flags = flags and w = w]
  have args: "no_exit (argv_log argv)" by (simp add: argv_log_def list_all_iff exit_format_def)
  consider "argc = 0" | "argc = 1" | "2 \<le> argc" using assms(1) by linarith
  then show ?thesis
  proof cases
    case 1
    then show ?thesis using cases(1) assms(3) by simp
  next
    case 2
    then have "l = argv_log argv @ (Err, ''argc < 2: {}'', [LogNum 1]) # []" "status = EXIT_FAILURE"
      using cases(2) assms(3) by simp_all
    moreover from this have "no_exit l" using args by (simp add: exit_format_def)
    moreover have "list_all (\<lambda>(level, _). level = Debug) ([] :: log_entry list)" by simp
    ultimately show ?thesis by blast
  next
    case 3
    obtain l' r where load: "LoadElf_logged d api e (argv ! 1) = (l', r)" by fastforce
    have l': "no_exit l'" using no_exit_LoadElf [of d api e "argv ! 1"] load by simp
    show ?thesis
    proof (cases r)
      case (Inl err)
      then obtain what where what: "err = TraceableException what" "status = EXIT_FAILURE"
        "l = argv_log argv @ l' @ fst (spdlog e Debug ''Catch exception in main: {}'' [LogText what])"
        using cases(3) [OF 3] load assms(3) by (cases err) simp_all
      then have "LoadElf_logged d api e (argv ! 1) = (l', Inl (TraceableException what))"
        using load Inl by simp
      then obtain k tr where k: "l' = k @ (Err, what, []) # tr" "list_all (\<lambda>(level, _). level = Debug) tr"
        using LoadElf_throws_logged [OF assms(2), of api "argv ! 1" l' what] by (auto simp: log_tells_error_def)
      let ?k' = "tr @ fst (spdlog e Debug ''Catch exception in main: {}'' [LogText what])"
      have "l = (argv_log argv @ k) @ (Err, what, []) # ?k'" "list_all (\<lambda>(level, _). level = Debug) ?k'"
        using what(3) k by (simp_all add: spdlog_def)
      moreover have "no_exit l" using what(3) args l' by (simp add: spdlog_def exit_format_def)
      ultimately show ?thesis using what(2) by blast
    next
      case (Inr p)
      then obtain sim where sim: "RVSim p \<lparr>args_count = argc - 1, args_strings = tl argv\<rparr> = Inr sim"
        using cases(3) [OF 3] load assms(3) by (auto split: sum.splits)
      let ?s = "start sim rounding flags w"
      have ok: "sim_ok ?s" "\<not> should_stop ?s"
        using RVSim_sim_ok [OF sim] sim by (auto simp: RVSim_def Let_def elim!: errE split: prod.splits)
      have "map_option (map_prod id (\<lambda>r. and_then r (\<lambda>(status, _). Inr status)))
          (Execute_logged d e (argv_log argv @ l') ?s) = Some (l, Inr status)"
        using cases(3) [OF 3] load Inr sim assms(3) by simp
      then obtain t where t: "Execute_logged d e (argv_log argv @ l') ?s = Some (l, Inr (status, t))"
        by (auto simp: and_then_eq_Inr)
      then obtain k where k: "l = argv_log argv @ l' @ k" "log_tells k (Inr (status, t))"
        using Execute_logged_tells [OF t ok(1) assms(2)] ok(2) by auto
      then obtain k' where "k = k' @ [exit_entry (ip t - 4) status]" "no_exit k'"
        by (auto simp: log_tells_def)
      then have "l = (argv_log argv @ l' @ k') @ [exit_entry (ip t - 4) status]"
        "no_exit (argv_log argv @ l' @ k')"
        using k(1) args l' by simp_all
      then show ?thesis by blast
    qed
  qed
qed

lemma main_status_is_logged_witness:
  "\<exists>k what args. [(Info, ''argv[{}]: {}'', [LogNum 0, LogBytes [115]]), (Err, ''argc < 2: {}'', [LogNum 1])] =
     k @ [(Err, what, args)] \<and>
   main_logged sample_diagnostics (sample_env False) sample_elfio 0 0 [] 1 [[115]] =
     Some (k @ [(Err, what, args)], Inr EXIT_FAILURE)"
proof -
  let ?l = "[(Info, ''argv[{}]: {}'', [LogNum 0, LogBytes [115]]), (Err, ''argc < 2: {}'', [LogNum 1])]"
  have m: "main_logged sample_diagnostics (sample_env False) sample_elfio 0 0 [] 1 [[115]] = Some (?l, Inr EXIT_FAILURE)"
    using main_logged_cases(2) [of 1 "[[115]]"] by (simp add: argv_log_def)
  have "no_exit ?l" by (simp add: exit_format_def)
  then have "\<not> (\<exists>k at. ?l = k @ [exit_entry at EXIT_FAILURE])" by (auto simp: exit_entry_def)
  then obtain k what args k' where "?l = k @ (Err, what, args) # k'" "list_all (\<lambda>(level, _). level = Debug) k'"
    using main_status_is_logged [OF _ _ m] sample_trace_available by auto
  then show ?thesis using m by (cases k) (auto simp: Cons_eq_append_conv)
qed

end
