(* ===== verification/Spec2Isabelle.thy ===== *)
theory Spec2Isabelle
  imports RV_Startup RV_Outcome RV_Safety RV_Guest RV_Mem_Tests RV_Log_End
begin

text \<open>
  A simulator of a RISC-V machine (rv32imf with Zbb and Zicsr) written in C++: \<open>main\<close> loads an
  ELF file, lays out the guest's stack and arguments, and runs the loop that fetches, decodes
  and executes instructions until the guest calls \<open>exit\<close>; the guest's \<open>a0\<close> is the status.
  This development models that program down to the individual callback and proves what each
  part does and that the whole runs programs as the architecture prescribes.

  Parts of the program and the theories that model them (paths under \<open>src/src\<close>):

  \<^item> \<open>RV_Prelude\<close>: machine integers, the error type (\<open>AssertFailed\<close>, \<open>UndefinedBehaviour\<close>,
    \<open>TraceableException\<close>), sequencing \<open>and_then\<close>, C++ shifts, arrays and \<open>memcpy\<close> with their
    undefined cases, little-endian bytes.
  \<^item> \<open>RV_Defs\<close>: \<open>isa/isa_defs.hpp\<close>, \<open>isa/isa_hlp.hpp\<close>, \<open>helpers/common.hpp\<close>.
  \<^item> \<open>RV_Insn\<close>: the field and immediate readers of \<open>isa/rv_insn.hpp\<close>, \<open>isa/rvf_insn.hpp\<close>,
    \<open>isa/rv_csr_insn.hpp\<close>; encoders of the immediates as the reference.
  \<^item> \<open>RV_Mnemonics\<close>, \<open>RV_Decode\<close>: the instruction tables \<open>isa/*.inc\<close>, \<open>isa/mnemonics.cpp\<close>,
    and the linear search of \<open>sim/decode.cpp\<close>.
  \<^item> \<open>RV_Byte_Store\<close>, \<open>RV_Reg_Bank\<close>, \<open>RV_Loop\<close>: the interfaces, as locales: byte-addressed
    memory, register banks, a loop that may not end with its invariants and a second build of it.
  \<^item> \<open>RV_Memory\<close>: \<open>sim/memory.cpp\<close>; a state is the list of segments. It interprets the byte
    memory. \<open>RV_Sim\<close>: the state and accessors of \<open>RVSim\<close> (\<open>sim/rv_sim.hpp\<close>); it interprets
    the register bank twice.
  \<^item> \<open>RV_Ext_I\<close>, \<open>RV_Ext_M\<close>, \<open>RV_Ext_Zbb\<close>, \<open>RV_Ext_Zicsr\<close>, \<open>RV_Ext_F\<close>: the callbacks of
    \<open>isa/source\<close>, one definition per callback and per template; after them the manual's results
    (\<open>isa_i_R\<close> and its kin, \<open>isa_m\<close>, \<open>isa_zbb\<close>, \<open>isa_csr\<close>, \<open>isa_fclass\<close>) and an effect lemma
    per callback for every operand.
  \<^item> \<open>RV_Syscall\<close>: \<open>isa/syscall_handler.cpp\<close> and \<open>ECALL\<close>.
  \<^item> \<open>RV_Execute\<close>: \<open>sim/dispatch.cpp\<close> and \<open>RVSim::Execute\<close>. The loop is a partial function:
    \<open>None\<close> is a run that does not end, and no bound on the iterations is needed.
  \<^item> \<open>RV_Invariants\<close>: what every instruction keeps. \<open>RV_Build\<close>: Debug and Release.
    \<open>RV_Safety\<close>: the exact operands for which the code is undefined. \<open>RV_Refinement\<close>: the
    abstract machine \<open>arch\<close> (integer and floating-point registers, control and status register,
    memory as bytes, the host) with its step function \<open>isa_step\<close> for all five extensions and
    the read and write calls, the abstraction \<open>arch_of\<close>, the operands \<open>agrees\<close> for which the
    simulator follows the manual, and the simulation.
    \<open>RV_Outcome\<close>: a loop that simulates an abstract machine does what that machine does,
    whether it stops, gets stuck or runs forever, as a locale interpreted on the main loop.
  \<^item> \<open>RV_Assembler\<close>: an assembler for all the instructions, with the manual's opcodes, and the
    disassembler made of the decoder and the field readers, which invert each other.
    \<open>RV_Asm\<close>: the meaning of assembled programs, \<open>asm_step\<close> and \<open>asm_run\<close>, for the whole of the
    integer set, M, Zbb and Zicsr; the simulator follows it wherever the program's words are in
    memory (\<open>asm_run_reaches\<close>), and so does \<open>main\<close> on an ELF file that has them
    (\<open>main_runs_code\<close>).
  \<^item> The test programs of the repository, translated instruction by instruction and verified as
    the simulator runs them: \<open>RV_Suite\<close>, the eighteen programs that only compute, each from
    \<open>main\<close>; \<open>RV_Guest\<close>, \<open>gcd.s\<close> for all numbers, a loop, and \<open>rw_syscalls.s\<close>; \<open>RV_Mem_Tests\<close>,
    \<open>st_ld.s\<close> and \<open>fib_rec.s\<close>, a recursion with a stack in memory, for all arguments. A linker's
    \<open>%hi\<close> and \<open>%lo\<close> of a symbol are \<open>hi_part\<close> and \<open>lo_part\<close>, or parameters.
  \<^item> \<open>RV_Program_Args\<close>, \<open>RV_Elf_Loader\<close>, \<open>RV_Startup\<close>: \<open>sim/program_args.hpp\<close>,
    \<open>sim/elf_loader.cpp\<close>, the constructor of \<open>RVSim\<close> and \<open>main.cpp\<close>.
  \<^item> \<open>RV_Log\<close>: \<open>helpers/traceable_exception.hpp\<close>, \<open>helpers/trace_calls.hpp\<close>, and a second
    translation, with the log it writes, of all the code that logs, from the system calls to \<open>main\<close>;
    erasing the log gives the first translation. \<open>RV_Log_End\<close>: what the end of the log tells.

  The state of the source's class \<open>RVSim\<close> is the record \<open>rvsim\<close>; \<open>machine\<close> adds what the code
  reaches through globals and the host: SoftFloat's rounding mode and exception flags and the
  state of the host. A callback takes the environment, the instruction word and the state and
  returns a state or an error; a failed \<open>assert\<close> is an error unless \<open>ndebug\<close> is set, which is
  what a Release build does. Exceptions and undefined behaviour are error values, too: the
  integer overflow of \<open>MULH\<close>, shifts by the width or more, division by zero or of the least
  integer by -1, and accesses outside a vector stop the model instead of giving an arbitrary
  result.

  Parameters. SoftFloat, ELFIO and the host's \<open>read\<close> and \<open>write\<close> are not part of the repository:
  the first and the last are fields of \<open>env\<close> (functions of the rounding mode and the operands
  that return a result and the flags raised; functions of descriptor, buffer and host state),
  ELFIO is the record \<open>elfio\<close>. No law is assumed of them: every theorem holds for all of them;
  only the part of \<open>fp_minmax\<close> about NaN says that SoftFloat's comparison is false on a NaN.
  What \<open>glibc\<close>, the C++ runtime and the compiler provide for the log (stack frames and their
  symbols, names of functions, the text of \<open>errno\<close>) is the record \<open>diagnostics\<close>; where a
  theorem needs it, \<open>trace_available\<close> says that the documented sizes are kept and that
  \<open>backtrace_symbols\<close> does not fail.

  Not modelled: the trace lines of \<open>SPDLOG_TRACE\<close>, which only Debug builds write and which
  change no state, so that a log of the model is the program's without its trace lines; how
  \<open>fmt\<close> renders the arguments of a log entry; the text on standard error; a failure to open
  \<open>sim.log\<close>; failure of allocations; \<open>RVSim::Trace\<close>, which nothing calls; the test programs
  \<open>f_arth.s\<close> and \<open>dyn_rm.s\<close>, whose result is that of SoftFloat, a parameter here, and
  \<open>compute_heavy_test\<close>, a C program that a compiler turns into the guest's code; the build files.

  The theorems below are those that span components: a concrete program as the common instance,
  then the correctness of runs (\<open>program_runs_to_exit\<close>, \<open>iteration_simulates_architecture\<close>,
  \<open>main_runs_program\<close>, \<open>program_outcome\<close>), their invariants and termination, the isolation of
  the host (\<open>only_system_calls_reach_host\<close>), the two builds, errors, undefined
  behaviour and the floating-point flags. The theorems on one component are at the end of its
  theory.
\<close>

unbundle bit_operations_syntax

section \<open>A sample run\<close>

text \<open>The sample program in memory, with the register values of the sample machine.\<close>

definition sample_run :: "u8 list machine" where
  "sample_run = sample_machine\<lparr>memory := \<lparr>segms = mem sample_program\<rparr>\<rparr>"

lemma sample_run_ok:
  "sim_ok sample_run" "mem_ok (memory sample_run)" "\<not> should_stop sample_run" "ip sample_run = 0x1000"
  using sample_machine_ok sample_startup(3) by (simp_all add: sample_run_def mem_ok_def)

lemma sample_code:
  assumes "segms m = mem sample_program @ ms"
  shows "LoadU32 c m 0x1000 = Inr 0x05d00893" "LoadU32 c m 0x1004 = Inr 0x73"
    "accessible (segms m) 0x1000 4" "accessible (segms m) 0x1004 4"
  unfolding LoadU32_def accessible_def assms
  by (simp_all add: sample_program_def Load_loop_eq memcpy_from_def IsAddrInSegment_def)

lemma sample_run_segms: "segms (memory sample_run) = mem sample_program @ []"
  by (simp add: sample_run_def)

lemmas sample_run_fetch = sample_code [OF sample_run_segms]

lemma sample_decode:
  "Decode 0x05d00893 = Ext_I ADDI" "Decode 0x73 = Ext_I ECALL" "Decode 0 = kInvalid"
  by (simp_all add: Decode_def InsnDecodeTable_def inc_defs)

lemma sample_fields: "Rd 0x05d00893 = 17" "Rs1 0x05d00893 = 0" "ImmI 0x05d00893 = 93"
  by (simp_all add: Rd_def Rs1_def ImmI_def SignExtend_def Let_def)

lemma sample_run_regs: "i < 32 \<Longrightarrow> xreg sample_run i = of_nat i"
  using sample_machine_regs(1) [of i] by (auto simp: sample_run_def xreg_def split: if_splits)

lemma sample_run_body:
  "Execute_body e sample_run = Inr (retire 0x05d00893 93 sample_run)"
  using sample_run_ok
  by (simp add: Execute_body_def Fetch_def sample_run_fetch sample_decode ext_i_effects sample_fields)

definition sample_end :: "u8 list machine" where
  "sample_end = Step ((retire 0x05d00893 93 sample_run)\<lparr>should_stop := True\<rparr>)"

lemma sample_run_ecall:
  "Execute_body e (retire 0x05d00893 93 sample_run) = Inr sample_end"
proof -
  let ?s = "retire 0x05d00893 93 sample_run"
  have "sim_ok ?s" "memory ?s = memory sample_run" "ip ?s = 0x1004" "xreg ?s 17 = 93"
    using sample_run_ok by (simp_all add: retire_def Step_def kStepSize_def sample_fields)
  then show ?thesis
    by (simp add: Execute_body_def Fetch_def sample_run_fetch sample_decode ecall_effect sample_end_def)
qed

lemma sample_end_fields: "sim_ok sample_end" "should_stop sample_end" "xreg sample_end 10 = 10"
  using sample_run_ok
  by (simp_all add: sample_end_def retire_def sample_fields sample_run_regs)

lemma sample_run_steps: "loop_steps should_stop (Execute_body e) sample_run sample_end"
proof -
  have "\<not> should_stop (retire 0x05d00893 93 sample_run)"
    using sample_run_ok by (simp add: retire_def)
  then have "loop_step should_stop (Execute_body e) sample_run (retire 0x05d00893 93 sample_run)"
    "loop_step should_stop (Execute_body e) (retire 0x05d00893 93 sample_run) sample_end"
    using sample_run_ok(3) by (simp_all add: loop_step_iff sample_run_body sample_run_ecall)
  then show ?thesis by (meson rtranclp.rtrancl_into_rtrancl rtranclp.rtrancl_refl)
qed

lemma sample_run_result: "Execute e sample_run = Some (Inr (10, sample_end))"
  unfolding Execute_ends_iff [OF sample_run_ok(1)]
  using sample_run_steps [of e] sample_end_fields by (intro exI [of _ sample_end]) simp

section \<open>Properties of runs\<close>

text \<open>
  C6: Every run keeps the invariants of the machine. When \<open>Execute\<close> returns, the guest has
  exited, the status is the value of \<open>a0\<close>, \<open>x0\<close> reads 0, the state is well-formed, the
  instruction pointer is still even and guest memory has the layout and the well-formedness it
  had at the start: stores change bytes, never segments.
\<close>

theorem run_keeps_invariants:
  assumes "Execute e s = Some (Inr (status, t))" "sim_ok s" "even (ip s)"
  shows "should_stop t \<and> status = xreg t 10 \<and> sim_ok t \<and> even (ip t) \<and>
    xregs t ! 0 = 0 \<and> layout (segms (memory t)) = layout (segms (memory s)) \<and>
    mem_ok (memory t) = mem_ok (memory s)"
proof -
  have inv: "run_inv (layout (segms (memory s))) s" using assms(2,3) by (simp add: run_inv_def)
  obtain u where u: "run_inv (layout (segms (memory s))) u"
    "loop_ends should_stop (Execute_body e) Execute_result u (Inr (status, t))"
    using exec_keeps.run_last_state [OF assms(1) inv] by blast
  then have ok: "sim_ok u" by (simp add: run_inv_def)
  then have "should_stop u" "t = u" "status = xreg u 10"
    using u(2) by (auto simp: loop_ends_def Execute_result_def xreg_def split: if_splits sum.splits)
  moreover have "mem_ok (memory u) = mem_ok (memory s)"
    using u(1) by (intro mem_layout_same(1)) (simp add: run_inv_def)
  ultimately show ?thesis using u(1) ok by (simp add: run_inv_def)
qed

lemma run_keeps_invariants_witness: "xreg sample_end 10 = 10 \<and> xregs sample_end ! 0 = 0 \<and> mem_ok (memory sample_end)"
  using run_keeps_invariants [OF sample_run_result [of "sample_env False"] sample_run_ok(1)] sample_run_ok
  by simp

text \<open>
  C9: The two builds agree. Started from the same well-formed state, the Release build returns
  what the Debug build returns (a status, an exception or undefined behaviour) unless the Debug
  build fails an assertion, and it runs forever where the Debug build does.
\<close>

theorem release_build_agrees:
  assumes "sim_ok s" "\<nexists>what. Execute e s = Some (Inl (AssertFailed what))"
  shows "Execute (release e) s = Execute e s"
  using builds.run_same [of e s] builds.run_diverges_same [of e s] assms
  by (cases "Execute e s") auto

lemma release_build_agrees_witness:
  "Execute (release (sample_env False)) sample_run = Some (Inr (10, sample_end))"
  using release_build_agrees [OF sample_run_ok(1), of "sample_env False"]
  by (simp add: sample_run_result)

text \<open>
  C2: The simulator runs programs as the architecture does. When the abstract machine takes
  \<open>n\<close> steps from the abstraction of a state and then stands at an \<open>ECALL\<close> with 93 in \<open>a7\<close>,
  \<open>Execute\<close> returns, with the abstract machine's \<open>a0\<close> as its status, and the state it leaves
  has the abstract machine's registers and memory.
\<close>

theorem program_runs_to_exit:
  assumes "sim_ok s" "mem_ok (memory s)" "\<not> should_stop s"
    and "isa_steps n e (arch_of s) = Some a" "isa_exits a"
  shows "\<exists>t. Execute e s = Some (Inr (X a 10, t)) \<and> arch_of t = isa_next a"
  by (rule exit_refines [OF assms])

lemma sample_isa:
  assumes "mem_ok (memory s)" "segms (memory s) = mem sample_program @ ms" "ip s = 0x1000"
  shows "isa_step e (arch_of s) = Some (isa_retire 0x05d00893 93 (arch_of s))"
    and "isa_exits (isa_retire 0x05d00893 93 (arch_of s))"
proof -
  note code = sample_code [OF assms(2)]
  have l: "isa_load 4 0x1000 (arch_of s) = Some (0x05d00893 :: u32)"
    "isa_load 4 0x1004 (arch_of s) = Some (0x73 :: u32)"
    using isa_load_word [OF assms(1) code(3,1)] isa_load_word [OF assms(1) code(4,2)] .
  show "isa_step e (arch_of s) = Some (isa_retire 0x05d00893 93 (arch_of s))"
    using l(1) assms(3) by (simp add: isa_step_def sample_decode isa_exec_i_def sample_fields)
  show "isa_exits (isa_retire 0x05d00893 93 (arch_of s))"
    using l(2) assms(3)
    by (simp add: isa_exits_def isa_retire_def isa_put_def isa_next_def isa_load_def sample_fields sample_decode
        split: if_splits)
qed

lemmas sample_run_isa = sample_isa [OF sample_run_ok(2) sample_run_segms sample_run_ok(4)]

lemma program_runs_to_exit_witness: "\<exists>t. Execute (sample_env False) sample_run = Some (Inr (10, t))"
  using program_runs_to_exit [OF sample_run_ok(1-3), of 1, OF _ sample_run_isa(2), of "sample_env False"]
    sample_run_isa(1) [of "sample_env False"] sample_run_regs [of 10]
  by (auto simp: isa_retire_def isa_put_def isa_next_def sample_fields)

text \<open>
  C3: One iteration of the loop simulates one step of the architecture: from a well-formed
  state whose abstraction steps to \<open>a\<close>, the iteration succeeds in a well-formed state whose
  abstraction is \<open>a\<close>, and the stop flag is as before. The architecture covers the base set, M,
  Zbb, Zicsr and F with SoftFloat's operations, and the read and write calls, for the operands
  \<open>agrees\<close> admits.
\<close>

theorem iteration_simulates_architecture:
  assumes "sim_ok s" "mem_ok (memory s)" "isa_step e (arch_of s) = Some a"
  shows "\<exists>t. Execute_body e s = Inr t \<and> arch_of t = a \<and> sim_ok t \<and> mem_ok (memory t) \<and>
    should_stop t = should_stop s"
proof -
  obtain t where t: "Execute_body e s = Inr t" "arch_of t = a"
    "should_stop t = should_stop s"
    using step_refines [OF assms] by (auto simp: refines_def)
  then have "keeps s t" using Execute_body_keeps [OF assms(1)] by simp
  then show ?thesis
    using t assms(2) mem_layout_same(1) [of "memory t" "memory s"] by (auto simp: keeps_def)
qed

lemma iteration_simulates_architecture_witness:
  "\<exists>t. Execute_body (sample_env False) sample_run = Inr t \<and> X (arch_of t) 17 = 93 \<and> pc (arch_of t) = 0x1004"
proof -
  have "X (isa_retire 0x05d00893 93 (arch_of sample_run)) 17 = 93"
    "pc (isa_retire 0x05d00893 93 (arch_of sample_run)) = 0x1004"
    using sample_run_ok(4) by (simp_all add: isa_retire_def isa_put_def isa_next_def sample_fields)
  then show ?thesis
    using iteration_simulates_architecture [OF sample_run_ok(1,2) sample_run_isa(1), of "sample_env False"] by metis
qed

text \<open>
  C1: \<open>main\<close> returns the exit code of the architectural program: for a program that loads, with
  arguments that fit and segments that overlap neither each other nor the stack and the argument
  strings, if the abstract machine started at the entry point reaches the exit call in \<open>n\<close>
  steps, the process ends with its \<open>a0\<close>.
\<close>

theorem main_runs_program:
  assumes "argc = int (length argv)" "2 \<le> length argv" "LoadElf api (argv ! 1) = Inr p"
    and "a = \<lparr>args_count = argc - 1, args_strings = tl argv\<rparr>"
    and "args_fit a" "elf_clear p a" "segms_ok (mem p)"
    and "RVSim p a = Inr sim" "isa_steps n e (arch_of (start sim rounding flags w)) = Some b" "isa_exits b"
  shows "main e api rounding flags w argc argv = Some (Inr (X b 10))"
proof -
  let ?s = "start sim rounding flags w"
  have "sim_ok sim" using RVSim_total [OF assms(5), of p] assms(8) by auto
  moreover have "mem_ok (memory sim)" "\<not> should_stop sim"
    using startup_segms_ok [OF assms(5-7)] RVSim_effect [OF assms(5), of p] assms(8)
    by (auto simp: initial_memory_def)
  ultimately obtain t where "Execute e ?s = Some (Inr (X b 10, t))"
    using exit_refines [of ?s n e b] assms(9,10) by auto
  then show ?thesis
    using main_simulates [OF assms(1-3) assms(8) [unfolded assms(4)], of e rounding flags w] by simp
qed

lemma main_runs_program_witness:
  "main (sample_env False) sample_elfio 0 0 [] 3 [[115], [97], [49, 50]] = Some (Inr 0)"
proof -
  have a: "sample_args = \<lparr>args_count = 3 - 1, args_strings = tl [[115], [97], [49, 50]]\<rparr>"
    by (simp add: sample_args_def)
  obtain sim where sim: "RVSim sample_program sample_args = Inr sim" by (rule RVSim_total [OF sample_startup(1)])
  then have s: "segms (memory sim) = mem sample_program @ [stack_segment sample_args, argv_segment sample_args]"
    "ip sim = 0x1000" "xreg sim 10 = 0"
    using RVSim_effect [OF sample_startup(1), of sample_program]
    by (auto simp: xreg_def sample_program_def)
  then have "memory sim = initial_memory sample_program sample_args" by (simp add: initial_memory_def)
  then have "mem_ok (memory sim)" using startup_segms_ok [OF sample_startup] by simp
  then have m: "mem_ok (memory (start sim 0 0 ([] :: u8 list)))"
    "segms (memory (start sim 0 0 ([] :: u8 list))) =
      mem sample_program @ [stack_segment sample_args, argv_segment sample_args]"
    "ip (start sim 0 0 ([] :: u8 list)) = 0x1000"
    using s by simp_all
  note isa = sample_isa [OF m]
  have "isa_steps 1 (sample_env False) (arch_of (start sim 0 0 [])) =
      Some (isa_retire 0x05d00893 93 (arch_of (start sim 0 0 [])))"
    using isa(1) by simp
  from main_runs_program [OF _ _ sample_elf_loads a sample_startup sim this isa(2)]
  show ?thesis using s(3) by (simp add: isa_retire_def isa_put_def isa_next_def sample_fields)
qed

text \<open>
  C19: The integer instructions compute what the manual says: an arithmetic, logic, comparison
  or shift instruction of the base set writes the manual's result to \<open>rd\<close> and advances, a branch
  goes to its target exactly when the manual's condition holds, and nothing else changes. For
  \<open>SLL\<close> and \<open>SRL\<close> the claim is for amounts below 32 in \<open>rs2\<close> only.
\<close>

theorem base_instructions_follow_manual:
  assumes "sim_ok s"
  shows "((m = SLL \<or> m = SRL \<longrightarrow> unat (rs2_val insn s) < 32) \<longrightarrow>
      isa_i_R m (rs1_val insn s) (rs2_val insn s) = Some v \<or>
      isa_i_I m (rs1_val insn s) (ImmI insn) = Some v \<or>
      isa_i_shift m (rs1_val insn s) (Shamt insn) = Some v \<longrightarrow>
        ext_i_callback m e insn s = Inr (retire insn v s)) \<and>
    (isa_i_branch m (rs1_val insn s) (rs2_val insn s) = Some taken \<longrightarrow>
      ext_i_callback m e insn s = Inr (if taken then s\<lparr>ip := ip s + ImmB insn\<rparr> else Step s))"
  using alu_refines [OF assms, of m insn v e] branch_refines [OF assms] by simp

lemma base_instructions_follow_manual_witness:
  "ext_i_callback ADDI (sample_env True) 0x05d00893 sample_run = Inr (retire 0x05d00893 93 sample_run)"
  using base_instructions_follow_manual [OF sample_run_ok(1), of ADDI "0x05d00893" 93]
  by (simp add: sample_fields)

text \<open>
  C29: A word that is no instruction ends the simulation with an exception, in both builds and
  without another effect. An instruction pointer outside every segment fails the assertion of
  the memory in a Debug build; a Release build fetches a zero word instead, which is no
  instruction, so that the exception is the same. The callback table is never indexed outside
  its bounds.
\<close>

theorem undecodable_and_unmapped_fetch:
  assumes "\<not> should_stop s"
  shows "(Fetch e (memory s) (ip s) = Inr w \<longrightarrow> Decode w = kInvalid \<longrightarrow>
      Execute e s = Some (Inl (TraceableException ''Unkown instuction encountered''))) \<and>
    (find_segm (segms (memory s)) (ip s) = None \<longrightarrow>
      Execute e s = Some (Inl (if ndebug e then TraceableException ''Unkown instuction encountered''
                              else AssertFailed ''no segment matched address''))) \<and>
    (Decode w \<noteq> kInvalid \<longrightarrow> (\<exists>cb. GetInsnCallback (Decode w) = Inr (cb :: 'w callback_env)))"
proof -
  have stop: "Execute e s = Some (Inl err)" if "Execute_body e s = Inl err" for err
    using that assms by (simp add: exec.run_error)
  have "Execute_body e s = Inl (TraceableException ''Unkown instuction encountered'')"
    if "Fetch e (memory s) (ip s) = Inr v" "Decode v = kInvalid" for v
    using that by (simp add: Execute_body_def)
  moreover have "Execute_body e s = Inl (AssertFailed ''no segment matched address'')"
    if "find_segm (segms (memory s)) (ip s) = None" "\<not> ndebug e"
    using that by (simp add: Execute_body_def Fetch_def LoadU32_def Load_loop_eq)
  moreover have "Fetch e (memory s) (ip s) = Inr 0"
    if "find_segm (segms (memory s)) (ip s) = None" "ndebug e"
    using that by (simp add: Fetch_def LoadU32_def Load_loop_eq)
  moreover have "\<exists>cb. GetInsnCallback (Decode w) = Inr (cb :: 'w callback_env)" if "Decode w \<noteq> kInvalid"
    using that Decode_not_kCount [of w] by (cases "Decode w") auto
  ultimately show ?thesis using stop sample_decode(3) by auto
qed

lemma sample_env_builds: "\<not> ndebug (sample_env False)" "ndebug (sample_env True)"
  by (simp_all add: sample_env_def)

lemma undecodable_and_unmapped_fetch_witness:
  "Execute (sample_env True) (sample_run\<lparr>ip := 0x3000\<rparr>) =
     Some (Inl (TraceableException ''Unkown instuction encountered''))"
proof -
  have "find_segm (segms (memory (sample_run\<lparr>ip := 0x3000\<rparr>))) (ip (sample_run\<lparr>ip := 0x3000\<rparr>)) = None"
    by (simp add: sample_run_def sample_program_def IsAddrInSegment_def)
  moreover have "\<not> should_stop (sample_run\<lparr>ip := 0x3000\<rparr>)" using sample_run_ok(3) by simp
  note undecodable_and_unmapped_fetch [OF this, of "sample_env True" 0, THEN conjunct2, THEN conjunct1]
  ultimately show ?thesis using sample_env_builds(2) by simp
qed

text \<open>
  C24: The accrued exception flags are sticky. Every floating-point instruction, under any
  rounding mode, leaves the flags that were set and the rounding mode as they were and can only
  set flags among the lower five bits of the control and status register, and it changes neither
  memory layout nor the well-formedness of the state.
\<close>

theorem fp_flags_are_sticky:
  assumes "sim_ok s" "ext_f_callback m e insn s = Inr t"
  shows "sim_ok t \<and> layout (segms (memory t)) = layout (segms (memory s)) \<and>
    drop_bit 5 (fcsr t) = drop_bit 5 (fcsr s) \<and> fcsr s AND fcsr t = fcsr s"
proof -
  obtain x where x: "fcsr t = fcsr s OR (x AND 0x1f)"
    using ext_f_keeps(2) [OF assms] by (auto simp: flags_grow_def)
  have m: "(0x1f :: u32) = mask 5" by (simp add: mask_eq_exp_minus_1)
  have "drop_bit 5 (fcsr t) = drop_bit 5 (fcsr s)" "fcsr s AND fcsr t = fcsr s"
    unfolding x m by (rule bit_word_eqI; auto simp: bit_simps)+
  then show ?thesis using ext_f_keeps(1) [OF assms] by (simp add: keeps_def)
qed

lemma fp_flags_are_sticky_witness:
  "\<exists>t. ext_f_callback FDIV_S (sample_env False) 0x183170d3 sample_machine = Inr t \<and>
    fcsr t = 0x68 \<and> 0x60 AND fcsr t = 0x60"
proof -
  let ?i = "0x183170d3 :: u32"
  have f: "Rm ?i = 7" "unat (Rd ?i) = 1" "unat (Rs1 ?i) = 2" "unat (Rs2 ?i) = 3" "unat (Rs3 ?i) = 3"
    by (simp_all add: Rm_def Rd_def Rs1_def Rs2_def Rs3_def)
  have "take_bit 3 (3 :: u32) = 3" by (simp add: take_bit_eq_mod)
  then have "rm_code (sample_env False) (selected_rm ?i sample_machine) = Some 3"
    by (simp add: selected_rm_def f RM_ToEnum_def sample_env_def)
  from ext_f_arith_effect(4) [OF sample_machine_ok this]
  obtain t where t: "ext_f_callback FDIV_S (sample_env False) ?i sample_machine = Inr t" "fcsr t = 0x68"
    by (auto simp: fp_arith_step_def fp_done_def sample_env_def)
  then show ?thesis using fp_flags_are_sticky [OF sample_machine_ok t(1)] by auto
qed

text \<open>
  C8: One iteration of the main loop runs into undefined behaviour exactly if the fetch starts
  in a segment and leaves its data, or the fetched instruction has operands that
  \<open>ub_operands\<close> lists: a load or store that leaves the data of its segment, \<open>SLL\<close> and
  \<open>SRL\<close> by 32 or more, \<open>MULH\<close> with a product of \<open>2 ^ 63\<close> or more, a rotation by 0, and a
  read or write call whose buffer has a byte outside the data of its segment or, for read,
  whose result exceeds the buffer. On every other well-formed state the code is defined; so the
  division and remainder instructions never reach a division by zero or one that overflows.
\<close>

theorem undefined_behaviour_characterised:
  assumes "sim_ok s"
  shows "is_ub (Execute_body e s) \<longleftrightarrow>
    (case Fetch e (memory s) (ip s) of
       Inl _ \<Rightarrow> straddles (segms (memory s)) (ip s) 4
     | Inr w \<Rightarrow> ub_operands e (Decode w) w s)"
  by (rule Execute_body_undefined [OF assms])

lemma undefined_behaviour_characterised_witness:
  "is_ub (Execute_body (sample_env True) (sample_run\<lparr>ip := 0x1008\<rparr>)) \<and>
   \<not> is_ub (Execute_body (sample_env True) sample_run)"
proof -
  let ?s = "sample_run\<lparr>ip := 0x1008\<rparr>"
  have st: "find_segm (segms (memory ?s)) (ip ?s) = Some (hd (mem sample_program))"
    "length (data (hd (mem sample_program))) < unat (ip ?s - start_addr (hd (mem sample_program))) + 4"
    by (simp_all add: sample_run_def sample_program_def IsAddrInSegment_def)
  then have "straddles (segms (memory ?s)) (ip ?s) 4" by (simp add: straddles_def)
  moreover have "Fetch (sample_env True) (memory ?s) (ip ?s) = ub OutOfBounds"
    using st by (simp add: Fetch_def LoadU32_def Load_loop_eq memcpy_from_def ub_def)
  ultimately show ?thesis
    using undefined_behaviour_characterised [of ?s "sample_env True"] sample_run_ok
      undefined_behaviour_characterised [OF sample_run_ok(1), of "sample_env True"]
    by (simp add: ub_def Fetch_def sample_run_fetch sample_decode)
qed

text \<open>
  C7: What a run comes to, whether it ends or not. If the abstract machine never gets stuck short
  of an exit call, then the simulation fails no assertion, throws no exception and has no
  undefined behaviour: it runs forever exactly if the abstract machine does, and whatever it
  returns is the abstract machine's \<open>a0\<close> at the exit call, in the state after that call.
\<close>

theorem program_outcome:
  assumes "sim_ok s" "mem_ok (memory s)" "\<not> should_stop s" "isa_safe e (arch_of s)"
  shows "(Execute e s = None \<longleftrightarrow> (\<forall>n. isa_steps n e (arch_of s) \<noteq> None)) \<and>
    (\<forall>r. Execute e s = Some r \<longrightarrow>
      (\<exists>n a t. isa_steps n e (arch_of s) = Some a \<and> isa_exits a \<and>
        r = Inr (X a 10, t) \<and> arch_of t = isa_next a \<and> should_stop t))"
proof -
  have s: "runnable s" "abs_safe (isa_step e) isa_exits (arch_of s)"
    using assms(1,2,4) by (simp_all add: runnable_def isa_safe_abs_safe)
  show ?thesis
    using runs.outcome [OF s(1) assms(3) s(2)]
    unfolding isa_steps_abs_steps exit_result_def by blast
qed

text \<open>The program \<open>jal x0, 0\<close>, a jump to itself.\<close>

definition spin :: "u8 list machine" where
  "spin = sample_machine\<lparr>memory :=
     \<lparr>segms = [\<lparr>start_addr = 0x1000, end_addr = 0x1004, data = [0x6f, 0, 0, 0],
        r_permission = True, w_permission = False, x_permission = True\<rparr>]\<rparr>\<rparr>"

lemma spin_ok: "sim_ok spin" "mem_ok (memory spin)" "\<not> should_stop spin" "ip spin = 0x1000"
  using sample_machine_ok by (simp_all add: spin_def mem_ok_def segm_ok_def)

lemma spin_step: "isa_step e (arch_of spin) = Some (arch_of spin)"
proof -
  have "LoadU32 e (memory spin) 0x1000 = Inr 0x6f" "accessible (segms (memory spin)) 0x1000 4"
    unfolding LoadU32_def accessible_def
    by (simp_all add: spin_def Load_loop_eq memcpy_from_def IsAddrInSegment_def)
  then have l: "isa_load 4 0x1000 (arch_of spin) = Some (0x6f :: u32)"
    using isa_load_word [OF spin_ok(2)] by blast
  have d: "Decode 0x6f = Ext_I JAL" "Rd 0x6f = 0" "ImmJ 0x6f = 0"
    by (simp_all add: Decode_def InsnDecodeTable_def inc_defs Rd_def ImmJ_def SignExtend_def Let_def)
  show ?thesis
    using l d spin_ok(4) by (simp add: isa_step_def isa_exec_i_def isa_put_def)
qed

lemma program_outcome_witness: "Execute (sample_env False) spin = None"
proof -
  have steps: "isa_steps n (sample_env False) (arch_of spin) = Some (arch_of spin)" for n
    unfolding isa_steps_abs_steps by (rule abs_steps_fixpoint [of "isa_step (sample_env False)", OF spin_step])
  then have "isa_safe (sample_env False) (arch_of spin)" by (auto simp: isa_safe_def spin_step)
  then show ?thesis using program_outcome [OF spin_ok(1-3)] steps by blast
qed

text \<open>
  C10: Only system calls reach the host. An iteration changes the host's state only at an
  \<open>ECALL\<close> with 63 or 64 in \<open>a7\<close>, by one call of the host's \<open>read\<close> or \<open>write\<close> with the guest's
  arguments, the latter with the bytes of the guest's buffer; it sets the stop flag only at an
  \<open>ECALL\<close> with 93 in \<open>a7\<close>.
\<close>

theorem only_system_calls_reach_host:
  assumes "sim_ok s" "Execute_body e s = Inr t"
  shows "\<exists>w. Fetch e (memory s) (ip s) = Inr w \<and>
    (should_stop t \<longleftrightarrow> should_stop s \<or> Decode w = Ext_I ECALL \<and> xreg s 17 = 93) \<and>
    (if Decode w = Ext_I ECALL \<and> xreg s 17 = 63
     then \<exists>rc buf. host_read e (xreg s 10) (replicate (unat (xreg s 12)) 0) (host s) = (rc, buf, host t)
     else if Decode w = Ext_I ECALL \<and> xreg s 17 = 64
     then \<exists>bs wc. read_range (LoadU8 e) (memory s) (xreg s 11) (unat (xreg s 12)) = Inr bs \<and>
       host_write e (xreg s 10) bs (host s) = (wc, host t)
     else host t = host s)"
proof -
  obtain w cb where w: "Fetch e (memory s) (ip s) = Inr w" "GetInsnCallback (Decode w) = Inr cb" "cb e w s = Inr t"
    using assms(2) by (auto simp: Execute_body_def Let_def elim!: errE split: if_splits)
  show ?thesis
  proof (cases "Decode w = Ext_I ECALL")
    case True
    then have ecall: "CallbackECALL e w s = Inr t" using w(2,3) by simp
    obtain rc buf h where h: "host_read e (xreg s 10) (replicate (unat (xreg s 12)) 0) (host s) = (rc, buf, h)"
      by (metis prod.exhaust)
    show ?thesis
      using ecall assms(1) True w(1)
      by (auto simp: ecall_effect sys_read_effect [OF assms(1) h] sys_write_effect h
          elim!: errE split: if_splits prod.splits)
  next
    case False
    then show ?thesis
      using callback_undisturbed [OF assms(1) w(2,3)] w(1) by (simp add: undisturbed_def)
  qed
qed

lemma only_system_calls_reach_host_witness:
  "host (retire 0x05d00893 93 sample_run) = host sample_run \<and> \<not> should_stop (retire 0x05d00893 93 sample_run)"
  using only_system_calls_reach_host [OF sample_run_ok(1) sample_run_body [of "sample_env False"]]
    sample_run_ok(3,4)
  by (simp add: Fetch_def sample_run_fetch sample_decode)

end
